theory Spec2Isabelle
  imports Main "HOL-Library.Word"
begin

unbundle bit_operations_syntax

section \<open>The RADIUS attribute decoder of protocols/radius/decode.c\<close>

text \<open>
  A shallow embedding of \<^verbatim>\<open>src/protocols/radius/decode.c\<close>.

  \<^item> A C buffer is a list of octets; a pointer into it is the list together with an
    offset. An access outside the list is undefined behaviour in C and is the fault
    \<open>OutOfBounds\<close> here.
  \<^item> A function that returns \<^verbatim>\<open>ssize_t\<close> returns an \<open>int\<close> (\<open>-1\<close> on failure)
    together with the memory it has written.
  \<^item> The collaborators that are not part of decode.c (MD5, the dictionary, the value
    parser) are parameters of the functions that call them.
  \<^item> Allocation (\<^verbatim>\<open>talloc_array\<close>, \<^verbatim>\<open>fr_md5_ctx_alloc\<close>, \<^verbatim>\<open>fr_pair_afrom_da\<close>) is
    taken to succeed.
\<close>

type_synonym u8 = "8 word"

datatype fault = OutOfBounds | Diverges | OutOfFuel

abbreviation (input) AUTH_PASS_LEN :: nat where "AUTH_PASS_LEN \<equiv> 16"
abbreviation (input) RADIUS_AUTH_VECTOR_LENGTH :: nat where "RADIUS_AUTH_VECTOR_LENGTH \<equiv> 16"

subsection \<open>MD5 contexts\<close>

text \<open>
  \<^verbatim>\<open>fr_md5_update\<close> appends to the hashed message, \<^verbatim>\<open>fr_md5_ctx_copy\<close> copies it and
  \<^verbatim>\<open>fr_md5_final\<close> yields the digest of everything fed so far: a context is the message
  fed so far, and the digest function \<open>md5\<close> is a parameter.
\<close>

type_synonym fr_md5_ctx = "u8 list"

definition fr_md5_update :: "fr_md5_ctx \<Rightarrow> u8 list \<Rightarrow> fr_md5_ctx" where
  "fr_md5_update ctx bytes = ctx @ bytes"

subsection \<open>User-Password\<close>

text \<open>
  The shared secret and request authenticator of the test point \<^verbatim>\<open>decode_test_ctx\<close>
  (\<^verbatim>\<open>"testing123"\<close> and the octets 00 .. 0f), and the block \<^verbatim>\<open>"hello"\<close> padded with eleven
  NULs.
\<close>

definition test_secret :: "u8 list" where
  "test_secret = [0x74, 0x65, 0x73, 0x74, 0x69, 0x6e, 0x67, 0x31, 0x32, 0x33]"

definition test_vector :: "u8 list" where
  "test_vector = [0x00, 0x01, 0x02, 0x03, 0x04, 0x05, 0x06, 0x07,
                  0x08, 0x09, 0x0a, 0x0b, 0x0c, 0x0d, 0x0e, 0x0f]"

definition hello_block :: "u8 list" where
  "hello_block = [0x68, 0x65, 0x6c, 0x6c, 0x6f, 0, 0, 0, 0, 0, 0, 0, 0, 0, 0, 0]"

text \<open>The octet-wise XOR of a 16-octet block with a digest.\<close>

definition xor_block :: "u8 list \<Rightarrow> u8 list \<Rightarrow> u8 list" where
  "xor_block block digest = map (\<lambda>i. (block ! i) XOR (digest ! i)) [0..<AUTH_PASS_LEN]"

text \<open>The inner loop \<^verbatim>\<open>for (i = 0; i < AUTH_PASS_LEN; i++) passwd[i + n] ^= digest[i]\<close>.\<close>

definition xor_digest :: "u8 list \<Rightarrow> nat \<Rightarrow> u8 list \<Rightarrow> u8 list" where
  "xor_digest passwd n digest =
     foldl (\<lambda>p i. p[i + n := (p ! (i + n)) XOR (digest ! i)]) passwd [0..<AUTH_PASS_LEN]"

text \<open>
  The loop \<^verbatim>\<open>for (n = 0; n < pwlen; n += AUTH_PASS_LEN)\<close> of
  \<^verbatim>\<open>fr_radius_decode_password\<close>. Each round reads and writes
  \<open>passwd[n .. n + 15]\<close>, whatever \<open>pwlen\<close> is.
\<close>

function password_loop ::
  "(u8 list \<Rightarrow> u8 list) \<Rightarrow> fr_md5_ctx \<Rightarrow> u8 list \<Rightarrow> nat \<Rightarrow> nat \<Rightarrow> fr_md5_ctx \<Rightarrow> u8 list
     \<Rightarrow> fault + u8 list" where
  "password_loop md5 md5_ctx_old vector pwlen n md5_ctx passwd =
     (if n < pwlen then
        (if length passwd < n + AUTH_PASS_LEN then Inl OutOfBounds
         else if n = 0 then
           (if length vector < RADIUS_AUTH_VECTOR_LENGTH then Inl OutOfBounds
            else
              let ctx1 = fr_md5_update md5_ctx (take RADIUS_AUTH_VECTOR_LENGTH vector);
                  digest = md5 ctx1;
                  ctx2 = md5_ctx_old;
                  ctx3 = (if pwlen > AUTH_PASS_LEN
                          then fr_md5_update ctx2 (take AUTH_PASS_LEN passwd) else ctx2)
              in password_loop md5 md5_ctx_old vector pwlen (n + AUTH_PASS_LEN) ctx3
                   (xor_digest passwd n digest))
         else
           (let digest = md5 md5_ctx;
                ctx2 = md5_ctx_old;
                ctx3 = (if pwlen > n + AUTH_PASS_LEN
                        then fr_md5_update ctx2 (take AUTH_PASS_LEN (drop n passwd)) else ctx2)
            in password_loop md5 md5_ctx_old vector pwlen (n + AUTH_PASS_LEN) ctx3
                 (xor_digest passwd n digest)))
      else Inr passwd)"
  by pat_completeness auto
termination
  by (relation "measure (\<lambda>(md5, old, vector, pwlen, n, ctx, passwd). pwlen - n)") auto

declare password_loop.simps [simp del]

text \<open>\<^verbatim>\<open>strlen\<close>: the offset of the first NUL; without one the scan leaves the buffer.\<close>

definition strlen :: "u8 list \<Rightarrow> fault + nat" where
  "strlen s = (if 0 \<in> set s then Inr (length (takeWhile (\<lambda>b. b \<noteq> 0) s)) else Inl OutOfBounds)"

text \<open>
  \<^verbatim>\<open>fr_radius_decode_password(passwd, pwlen, secret, vector)\<close>. \<open>passwd\<close> is the whole
  buffer the pointer leads to, \<open>secret\<close> the secret without its terminating NUL
  (\<^verbatim>\<open>talloc_array_length(secret) - 1\<close> octets). The result is the buffer as left behind and
  the returned length.
\<close>

definition fr_radius_decode_password ::
  "(u8 list \<Rightarrow> u8 list) \<Rightarrow> u8 list \<Rightarrow> nat \<Rightarrow> u8 list \<Rightarrow> u8 list \<Rightarrow> fault + (u8 list \<times> nat)" where
  "fr_radius_decode_password md5 passwd pwlen0 secret vector =
     (let pwlen = (if pwlen0 > 128 then 128 else pwlen0) in
      case (if pwlen = 0 then Inr passwd
            else password_loop md5 (fr_md5_update [] secret) vector pwlen 0
                   (fr_md5_update [] secret) passwd) of
        Inl e \<Rightarrow> Inl e
      | Inr p \<Rightarrow>
          if length p \<le> pwlen then Inl OutOfBounds
          else (case strlen (p[pwlen := 0]) of
                  Inl e \<Rightarrow> Inl e
                | Inr l \<Rightarrow> Inr (p[pwlen := 0], l)))"

subsection \<open>Tunnel-Password\<close>

text \<open>
  The inner loop
  \<^verbatim>\<open>for (i = base; i < block_len; i++) passwd[n + i - 1] = passwd[n + i + 2] ^ digest[i]\<close>.
\<close>

definition tunnel_xor :: "u8 list \<Rightarrow> nat \<Rightarrow> nat \<Rightarrow> nat \<Rightarrow> u8 list \<Rightarrow> u8 list" where
  "tunnel_xor passwd n base block_len digest =
     foldl (\<lambda>p i. p[n + i - 1 := (p ! (n + i + 2)) XOR (digest ! i)]) passwd [base..<block_len]"

text \<open>
  The loop \<^verbatim>\<open>for (n = 0; n < encrypted_len; n += AUTH_PASS_LEN)\<close> of
  \<^verbatim>\<open>fr_radius_decode_tunnel_password\<close>; \<open>pwlen\<close> is the \<^verbatim>\<open>*pwlen\<close> of the call, which the
  loop does not change. The result is \<open>(False, _, _)\<close> where the loop returns -1, and
  otherwise the buffer and \<open>embedded_len\<close> after the loop.
\<close>

function tunnel_loop ::
  "(u8 list \<Rightarrow> u8 list) \<Rightarrow> fr_md5_ctx \<Rightarrow> nat \<Rightarrow> nat \<Rightarrow> nat \<Rightarrow> fr_md5_ctx \<Rightarrow> nat \<Rightarrow> u8 list
     \<Rightarrow> fault + (bool \<times> u8 list \<times> nat)" where
  "tunnel_loop md5 md5_ctx_old pwlen encrypted_len n md5_ctx embedded_len passwd =
     (if n < encrypted_len then
        (let block_len = (if n + 2 + AUTH_PASS_LEN > pwlen then pwlen - n - 2 else AUTH_PASS_LEN)
         in if n = 0 then
              (let digest = md5 md5_ctx;
                   ctx2 = md5_ctx_old
               in if length passwd \<le> 2 then Inl OutOfBounds
                  else
                    let embedded_len' = unat ((passwd ! 2) XOR (digest ! 0))
                    in if embedded_len' > encrypted_len then Inr (False, passwd, embedded_len')
                       else if length passwd < 2 + block_len then Inl OutOfBounds
                       else tunnel_loop md5 md5_ctx_old pwlen encrypted_len (n + AUTH_PASS_LEN)
                              (fr_md5_update ctx2 (take block_len (drop 2 passwd))) embedded_len'
                              (tunnel_xor passwd n 1 block_len digest))
            else
              (let digest = md5 md5_ctx;
                   ctx2 = md5_ctx_old
               in if length passwd < n + 2 + block_len then Inl OutOfBounds
                  else tunnel_loop md5 md5_ctx_old pwlen encrypted_len (n + AUTH_PASS_LEN)
                         (fr_md5_update ctx2 (take block_len (drop (n + 2) passwd))) embedded_len
                         (tunnel_xor passwd n 0 block_len digest)))
      else Inr (True, passwd, embedded_len))"
  by pat_completeness auto
termination
  by (relation "measure (\<lambda>(md5, old, pwlen, elen, n, ctx, emb, passwd). elen - n)") auto

declare tunnel_loop.simps [simp del]

text \<open>
  The MD5 set-up of \<^verbatim>\<open>fr_radius_decode_tunnel_password\<close> (the secret, then the vector and
  the two salt octets) followed by its decryption loop.
\<close>

definition tunnel_decrypt ::
  "(u8 list \<Rightarrow> u8 list) \<Rightarrow> u8 list \<Rightarrow> nat \<Rightarrow> u8 list \<Rightarrow> u8 list
     \<Rightarrow> fault + (bool \<times> u8 list \<times> nat)" where
  "tunnel_decrypt md5 passwd pwlen secret vector =
     (let encrypted_len = pwlen - 2;
          md5_ctx_old = fr_md5_update [] secret;
          md5_ctx = fr_md5_update
                      (fr_md5_update md5_ctx_old (take RADIUS_AUTH_VECTOR_LENGTH vector))
                      (take 2 passwd)
      in tunnel_loop md5 md5_ctx_old pwlen encrypted_len 0 md5_ctx 0 passwd)"

text \<open>
  The trailing check
  \<^verbatim>\<open>for (i = embedded_len; i < (encrypted_len - 1); i++) if (passwd[i] != 0) return -1\<close>:
  true when some inspected octet is not zero.
\<close>

definition trailing_garbage :: "u8 list \<Rightarrow> nat \<Rightarrow> nat \<Rightarrow> bool" where
  "trailing_garbage passwd embedded_len encrypted_len =
     list_ex (\<lambda>i. passwd ! i \<noteq> 0) [embedded_len..<encrypted_len - 1]"

text \<open>
  \<^verbatim>\<open>fr_radius_decode_tunnel_password(passwd, pwlen, secret, vector, tunnel_password_zeros)\<close>.
  The result is the return value, the buffer and \<^verbatim>\<open>*pwlen\<close> as left behind.
\<close>

definition fr_radius_decode_tunnel_password ::
  "(u8 list \<Rightarrow> u8 list) \<Rightarrow> u8 list \<Rightarrow> nat \<Rightarrow> u8 list \<Rightarrow> u8 list \<Rightarrow> bool
     \<Rightarrow> fault + (int \<times> u8 list \<times> nat)" where
  "fr_radius_decode_tunnel_password md5 passwd pwlen secret vector tunnel_password_zeros =
     (if pwlen < 2 then Inr (-1, passwd, pwlen)
      else if pwlen \<le> 3 then
        (if passwd = [] then Inl OutOfBounds else Inr (0, passwd[0 := 0], 0))
      else if length vector < RADIUS_AUTH_VECTOR_LENGTH \<or> length passwd < 2 then Inl OutOfBounds
      else
        case tunnel_decrypt md5 passwd pwlen secret vector of
          Inl e \<Rightarrow> Inl e
        | Inr (ok, passwd', embedded_len) \<Rightarrow>
            if \<not> ok then Inr (-1, passwd', pwlen)
            else if tunnel_password_zeros \<and> trailing_garbage passwd' embedded_len (pwlen - 2)
            then Inr (-1, passwd', pwlen)
            else if length passwd' \<le> embedded_len then Inl OutOfBounds
            else Inr (int embedded_len, passwd'[embedded_len := 0], embedded_len))"

subsection \<open>TLV well-formedness\<close>

text \<open>
  The loop \<^verbatim>\<open>while (data < end)\<close> of \<^verbatim>\<open>fr_radius_decode_tlv_ok\<close>. \<open>mem\<close> is the buffer,
  \<open>data\<close> and \<open>end'\<close> are offsets into it and \<open>len\<close> is the variable \<^verbatim>\<open>length\<close>.
\<close>

function tlv_ok_loop :: "u8 list \<Rightarrow> nat \<Rightarrow> nat \<Rightarrow> nat \<Rightarrow> nat \<Rightarrow> nat \<Rightarrow> fault + int" where
  "tlv_ok_loop mem dv_type dv_length end' data len =
     (if data < end' then
        if data + dv_type + dv_length > end' then Inr (-1)
        else if length mem < data + dv_type + dv_length then Inl OutOfBounds
        else if dv_type = 4 \<and> mem ! data = 0 \<and> mem ! (data + 1) = 0
                \<and> mem ! (data + 2) = 0 \<and> mem ! (data + 3) = 0 then Inr (-1)
        else if dv_type = 4 \<and> mem ! data \<noteq> 0 then Inr (-1)
        else if dv_type = 2 \<and> mem ! data = 0 \<and> mem ! (data + 1) = 0 then Inr (-1)
        else if dv_type \<noteq> 4 \<and> dv_type \<noteq> 2 \<and> dv_type \<noteq> 1 then Inr (-1)
        else if dv_length = 0 then Inr 0
        else if dv_length = 2 \<and> mem ! (data + dv_type) \<noteq> 0 then Inr (-1)
        else if dv_length \<noteq> 2 \<and> dv_length \<noteq> 1 then Inr (-1)
        else
          let attrlen = unat (mem ! (data + dv_type + dv_length - 1))
          in if attrlen < dv_type + dv_length then Inr (-1)
             else if attrlen > len then Inr (-1)
             else tlv_ok_loop mem dv_type dv_length end' (data + attrlen) (len - attrlen)
      else Inr 0)"
  by pat_completeness auto
termination
  by (relation "measure (\<lambda>(mem, dv_type, dv_length, end', data, len). end' - data)") auto

declare tlv_ok_loop.simps [simp del]

text \<open>
  \<^verbatim>\<open>fr_radius_decode_tlv_ok(data, length, dv_type, dv_length)\<close>, the pointer \<^verbatim>\<open>data\<close> being
  the offset \<open>data\<close> into \<open>mem\<close>.
\<close>

definition fr_radius_decode_tlv_ok :: "u8 list \<Rightarrow> nat \<Rightarrow> nat \<Rightarrow> nat \<Rightarrow> nat \<Rightarrow> fault + int" where
  "fr_radius_decode_tlv_ok mem data len dv_type dv_length =
     (if dv_length > 2 \<or> dv_type = 0 \<or> dv_type > 4 then Inr (-1)
      else tlv_ok_loop mem dv_type dv_length (data + len) data len)"

text \<open>
  The well-formedness the validator is specified to decide, in the words of the
  specification: a unit is a T-octet id, a W-octet length and a value; for T = 4 the first
  id octet is 0 and the id is not 0, for T = 2 the id is not 0, for W = 2 the high length
  octet is 0, and the last length octet is the length of the whole unit (so at least T + W).
  A slice is well formed when it is a concatenation of units; with W = 0 the only demand is
  on the first header.
\<close>

definition tlv_id_ok :: "nat \<Rightarrow> u8 list \<Rightarrow> bool" where
  "tlv_id_ok T u \<longleftrightarrow>
     (T = 4 \<longrightarrow> u ! 0 = 0 \<and> \<not> (u ! 0 = 0 \<and> u ! 1 = 0 \<and> u ! 2 = 0 \<and> u ! 3 = 0)) \<and>
     (T = 2 \<longrightarrow> \<not> (u ! 0 = 0 \<and> u ! 1 = 0))"

definition tlv_unit :: "nat \<Rightarrow> nat \<Rightarrow> u8 list \<Rightarrow> bool" where
  "tlv_unit T W u \<longleftrightarrow>
     T + W \<le> length u \<and> tlv_id_ok T u \<and> (W = 2 \<longrightarrow> u ! T = 0)
     \<and> unat (u ! (T + W - 1)) = length u"

definition tlv_stream :: "nat \<Rightarrow> nat \<Rightarrow> u8 list \<Rightarrow> bool" where
  "tlv_stream T W xs \<longleftrightarrow>
     (if W = 0 then xs = [] \<or> (T \<le> length xs \<and> tlv_id_ok T xs)
      else \<exists>us. xs = concat us \<and> list_all (tlv_unit T W) us)"

subsection \<open>Dictionary, pairs and the collaborators of the decoder\<close>

text \<open>
  The value kinds of \<^verbatim>\<open>fr_type_t\<close>. The macro \<^verbatim>\<open>FR_TYPE_VALUES\<close> of the first switch of
  \<^verbatim>\<open>fr_radius_decode_pair_value\<close> stands for the kinds that the second switch lists one
  by one, and \<^verbatim>\<open>FR_TYPE_NON_VALUES\<close> for all the others.
\<close>

datatype fr_type =
    FR_TYPE_INVALID | FR_TYPE_STRING | FR_TYPE_OCTETS
  | FR_TYPE_IPV4_ADDR | FR_TYPE_IPV4_PREFIX | FR_TYPE_IPV6_ADDR | FR_TYPE_IPV6_PREFIX
  | FR_TYPE_IFID | FR_TYPE_COMBO_IP_ADDR | FR_TYPE_COMBO_IP_PREFIX | FR_TYPE_ETHERNET
  | FR_TYPE_BOOL | FR_TYPE_UINT8 | FR_TYPE_UINT16 | FR_TYPE_UINT32 | FR_TYPE_UINT64
  | FR_TYPE_INT8 | FR_TYPE_INT16 | FR_TYPE_INT32 | FR_TYPE_INT64
  | FR_TYPE_FLOAT32 | FR_TYPE_FLOAT64 | FR_TYPE_DATE | FR_TYPE_TIME_DELTA | FR_TYPE_SIZE
  | FR_TYPE_ABINARY | FR_TYPE_TLV | FR_TYPE_STRUCT | FR_TYPE_EXTENDED | FR_TYPE_VSA
  | FR_TYPE_VENDOR | FR_TYPE_GROUP

datatype flag_subtype =
    FLAG_ENCRYPT_NONE | FLAG_ENCRYPT_USER_PASSWORD | FLAG_ENCRYPT_TUNNEL_PASSWORD
  | FLAG_ENCRYPT_ASCEND_SECRET | FLAG_SUBTYPE_OTHER nat

record fr_dict_attr_flags =
  is_root :: bool
  is_unknown :: bool
  has_tag :: bool
  concat_flag :: bool
  extra :: bool
  subtype :: flag_subtype
  flags_length :: nat

text \<open>
  \<^verbatim>\<open>fr_dict_attr_t\<close>: the attribute number, the value kind, the flags and the parent
  pointer (\<open>None\<close> for \<^verbatim>\<open>NULL\<close>). Children are found through the dictionary.
\<close>

datatype fr_dict_attr =
  DA (da_attr: nat) (da_type: fr_type) (da_flags: fr_dict_attr_flags)
     (da_parent: "fr_dict_attr option")

record fr_dict_vendor =
  vendor_pen :: nat
  vendor_type :: nat
  vendor_length :: nat
  vendor_flags :: nat

datatype value_type = VT_NONE | VT_DATA

text \<open>
  The payload of a pair: nothing yet, a value box as \<^verbatim>\<open>fr_value_box_from_network\<close> built
  it, an \<^verbatim>\<open>fr_ipaddr_t\<close> (family 4 or 6, prefix, address octets), or an Ascend filter.
\<close>

datatype vp_data =
    VP_EMPTY
  | VP_BOX fr_type "u8 list"
  | VP_IP "nat \<times> nat \<times> u8 list"
  | VP_FILTER "u8 list"

record VALUE_PAIR =
  vp_da :: fr_dict_attr
  vp_tag :: int
  vp_type :: value_type
  vp_tainted :: bool
  vp_data :: vp_data

abbreviation (input) TAG_NONE :: int where "TAG_NONE \<equiv> 0"

text \<open>\<^verbatim>\<open>fr_radius_ctx_t\<close>, the decoder context.\<close>

record fr_radius_ctx =
  ctx_secret :: "u8 list"
  ctx_vector :: "u8 list"
  ctx_tunnel_password_zeros :: bool

text \<open>
  What decode.c calls and does not define: MD5, \<^verbatim>\<open>fr_radius_ascend_secret\<close>, the table
  \<^verbatim>\<open>fr_radius_attr_sizes\<close>, the dictionary (\<^verbatim>\<open>fr_dict_root\<close>, \<^verbatim>\<open>fr_dict_attr_child_by_num\<close>,
  \<^verbatim>\<open>fr_dict_attr_by_type\<close>, \<^verbatim>\<open>fr_dict_unknown_afrom_fields\<close>,
  \<^verbatim>\<open>fr_dict_unknown_vendor_afrom_num\<close>, \<^verbatim>\<open>fr_dict_vendor_num_by_da\<close>,
  \<^verbatim>\<open>fr_dict_vendor_by_num\<close>), \<^verbatim>\<open>fr_pair_afrom_da\<close>, the value parsers
  (\<^verbatim>\<open>fr_value_box_from_network\<close>, \<^verbatim>\<open>fr_struct_from_network\<close>, \<^verbatim>\<open>fr_unknown_from_network\<close>),
  \<^verbatim>\<open>fr_ipaddr_mask\<close> and \<^verbatim>\<open>sizeof(vp->vp_filter)\<close>. \<open>uninit\<close> is the octet found in memory
  that was allocated and not written yet.
\<close>

record decode_env =
  env_md5 :: "u8 list \<Rightarrow> u8 list"
  ascend_secret :: "u8 list \<Rightarrow> u8 list \<Rightarrow> u8 list \<Rightarrow> u8 list"
  attr_sizes :: "fr_type \<Rightarrow> nat \<times> nat"
  dict_root :: fr_dict_attr
  child_by_num :: "fr_dict_attr \<Rightarrow> nat \<Rightarrow> fr_dict_attr option"
  attr_by_type :: "fr_dict_attr \<Rightarrow> fr_type \<Rightarrow> fr_dict_attr option"
  unknown_afrom_fields :: "fr_dict_attr option \<Rightarrow> nat \<Rightarrow> nat \<Rightarrow> fr_dict_attr option"
  unknown_vendor_afrom_num :: "fr_dict_attr \<Rightarrow> nat \<Rightarrow> fr_dict_attr option"
  vendor_num_by_da :: "fr_dict_attr \<Rightarrow> nat"
  vendor_by_num :: "nat \<Rightarrow> fr_dict_vendor option"
  pair_afrom_da :: "fr_dict_attr \<Rightarrow> VALUE_PAIR"
  value_box_from_network :: "fr_type \<Rightarrow> fr_dict_attr \<Rightarrow> u8 list \<Rightarrow> vp_data option"
  struct_from_network ::
    "fr_dict_attr \<Rightarrow> u8 list \<Rightarrow> (VALUE_PAIR list \<times> fr_dict_attr option \<times> nat) option"
  unknown_from_network :: "fr_dict_attr \<Rightarrow> u8 list \<Rightarrow> VALUE_PAIR option"
  ipaddr_mask :: "nat \<times> nat \<times> u8 list \<Rightarrow> nat \<Rightarrow> nat \<times> nat \<times> u8 list"
  sizeof_vp_filter :: nat
  uninit :: u8

type_synonym cursor = "VALUE_PAIR list"

text \<open>
  \<^verbatim>\<open>fr_radius_decode_pair_value\<close> as its callers see it, the decoder context being fixed:
  cursor, parent, buffer, offset of \<^verbatim>\<open>data\<close>, \<^verbatim>\<open>attr_len\<close> and \<^verbatim>\<open>packet_len\<close>; the result is
  the return value and the cursor.
\<close>

type_synonym decoder =
  "cursor \<Rightarrow> fr_dict_attr \<Rightarrow> u8 list \<Rightarrow> nat \<Rightarrow> nat \<Rightarrow> nat \<Rightarrow> fault + (int \<times> cursor)"

text \<open>\<^verbatim>\<open>a - b\<close> on \<^verbatim>\<open>size_t\<close> (64 bits): it wraps around below zero.\<close>

definition size_sub :: "nat \<Rightarrow> nat \<Rightarrow> nat" where
  "size_sub a b = (if b \<le> a then a - b else 2 ^ 64 - (b - a))"

text \<open>
  \<^verbatim>\<open>memcpy_bounded(dst, src, n, end)\<close>: \<open>dst\<close> is the destination array with the offset
  \<open>doff\<close> of the pointer into it; \<open>src\<close> and \<open>end'\<close> are offsets into \<open>mem\<close>. A failed
  \<^verbatim>\<open>fr_cond_assert\<close> returns false.
\<close>

definition memcpy_bounded ::
  "u8 list \<Rightarrow> nat \<Rightarrow> u8 list \<Rightarrow> nat \<Rightarrow> nat \<Rightarrow> nat \<Rightarrow> fault + u8 list" where
  "memcpy_bounded dst doff mem src n end' =
     (if \<not> n \<le> 65535 then Inr dst
      else if \<not> src < end' then Inr dst
      else
        let len = (if src + n \<le> end' then n else end' - src)
        in if length mem < src + len \<or> length dst < doff + len then Inl OutOfBounds
           else Inr (take doff dst @ take len (drop src mem) @ drop (doff + len) dst))"

subsection \<open>Concatenated attributes\<close>

text \<open>
  The first loop of \<^verbatim>\<open>decode_concat\<close>, "see how many consecutive attributes there are".
  \<open>None\<close> is \<^verbatim>\<open>return -1\<close>; otherwise the result is \<open>ptr\<close> and \<open>total_len\<close> (the variable \<^verbatim>\<open>total\<close>) after the loop.
\<close>

function concat_walk ::
  "u8 list \<Rightarrow> u8 \<Rightarrow> nat \<Rightarrow> nat \<Rightarrow> nat \<Rightarrow> fault + (nat \<times> nat) option" where
  "concat_walk mem attr end' ptr total_len =
     (if ptr < end' then
        if length mem \<le> ptr + 1 then Inl OutOfBounds
        else if unat (mem ! (ptr + 1)) \<le> 2 then Inr None
        else if ptr + unat (mem ! (ptr + 1)) > end' then Inr None
        else
          let total_len' = total_len + (unat (mem ! (ptr + 1)) - 2);
              ptr' = ptr + unat (mem ! (ptr + 1))
          in if ptr' = end' then Inr (Some (ptr', total_len'))
             else if length mem \<le> ptr' then Inl OutOfBounds
             else if mem ! ptr' \<noteq> attr then Inr (Some (ptr', total_len'))
             else concat_walk mem attr end' ptr' total_len'
      else Inr (Some (ptr, total_len)))"
  by pat_completeness auto
termination
  by (relation "measure (\<lambda>(mem, attr, end', ptr, total_len). end' - ptr)") auto

declare concat_walk.simps [simp del]

text \<open>
  The second loop of \<^verbatim>\<open>decode_concat\<close>, which copies the values into the array \<open>p\<close> (here
  \<open>dst\<close> with the offset \<open>doff\<close>). A length octet of 0 would keep \<open>ptr\<close> in place for ever.
\<close>

function concat_copy :: "u8 list \<Rightarrow> nat \<Rightarrow> nat \<Rightarrow> u8 list \<Rightarrow> nat \<Rightarrow> fault + u8 list" where
  "concat_copy mem end' ptr dst doff =
     (if ptr < end' then
        if length mem \<le> ptr + 1 then Inl OutOfBounds
        else if unat (mem ! (ptr + 1)) = 0 then Inl Diverges
        else
          case memcpy_bounded dst doff mem (ptr + 2) (size_sub (unat (mem ! (ptr + 1))) 2) end' of
            Inl e \<Rightarrow> Inl e
          | Inr dst' \<Rightarrow>
              concat_copy mem end' (ptr + unat (mem ! (ptr + 1))) dst'
                (doff + size_sub (unat (mem ! (ptr + 1))) 2)
      else Inr dst)"
  by pat_completeness auto
termination
  by (relation "measure (\<lambda>(mem, end', ptr, dst, doff). end' - ptr)") auto

declare concat_copy.simps [simp del]

text \<open>
  \<^verbatim>\<open>decode_concat(ctx, cursor, parent, data, packet_len)\<close>. The pair takes the array as its
  value by \<^verbatim>\<open>fr_pair_value_memsteal(vp, p, true)\<close>, which makes it a pair with data and marks
  it tainted; the second loop then fills the array, and the pair is appended.
\<close>

definition decode_concat ::
  "decode_env \<Rightarrow> cursor \<Rightarrow> fr_dict_attr \<Rightarrow> u8 list \<Rightarrow> nat \<Rightarrow> nat \<Rightarrow> fault + (int \<times> cursor)" where
  "decode_concat env cursor parent mem data packet_len =
     (if length mem \<le> data then Inl OutOfBounds
      else
        case concat_walk mem (mem ! data) (data + packet_len) data 0 of
          Inl e \<Rightarrow> Inl e
        | Inr None \<Rightarrow> Inr (-1, cursor)
        | Inr (Some (end', total_len)) \<Rightarrow>
            if total_len = 0 then Inr (2, cursor)
            else
              case concat_copy mem end' data (replicate total_len (uninit env)) 0 of
                Inl e \<Rightarrow> Inl e
              | Inr p \<Rightarrow>
                  Inr (int (end' - data),
                       cursor @ [(pair_afrom_da env parent)
                                   \<lparr>vp_data := VP_BOX FR_TYPE_OCTETS p, vp_type := VT_DATA,
                                      vp_tainted := True\<rparr>]))"

subsection \<open>TLVs\<close>

text \<open>
  The loop \<^verbatim>\<open>while (p < end)\<close> of \<^verbatim>\<open>fr_radius_decode_tlv\<close>, with the private cursor
  \<open>tlv_cursor\<close>. \<open>dpv\<close> is \<^verbatim>\<open>fr_radius_decode_pair_value\<close>. The result is \<open>False\<close> for
  \<^verbatim>\<open>goto error\<close>. A length octet of 0 would keep \<open>p\<close> in place for ever.
\<close>

function tlv_loop ::
  "decode_env \<Rightarrow> decoder \<Rightarrow> fr_dict_attr \<Rightarrow> u8 list \<Rightarrow> nat \<Rightarrow> nat \<Rightarrow> cursor
     \<Rightarrow> fault + (bool \<times> cursor)" where
  "tlv_loop env dpv parent mem end' p tlv_cursor =
     (if p < end' then
        if length mem \<le> p + 1 then Inl OutOfBounds
        else
          case (case child_by_num env parent (unat (mem ! p)) of
                  Some child \<Rightarrow> Some child
                | None \<Rightarrow> unknown_afrom_fields env (Some parent) (vendor_num_by_da env parent)
                            (unat (mem ! p))) of
            None \<Rightarrow> Inr (False, tlv_cursor)
          | Some child \<Rightarrow>
              (case dpv tlv_cursor child mem (p + 2) (size_sub (unat (mem ! (p + 1))) 2)
                      (size_sub (unat (mem ! (p + 1))) 2) of
                 Inl e \<Rightarrow> Inl e
               | Inr (tlv_len, tlv_cursor') \<Rightarrow>
                   if tlv_len < 0 then Inr (False, tlv_cursor')
                   else if unat (mem ! (p + 1)) = 0 then Inl Diverges
                   else tlv_loop env dpv parent mem end' (p + unat (mem ! (p + 1))) tlv_cursor')
      else Inr (True, tlv_cursor))"
  by pat_completeness auto
termination
  by (relation "measure (\<lambda>(env, dpv, parent, mem, end', p, c). end' - p)") auto

declare tlv_loop.simps [simp del]

text \<open>
  \<^verbatim>\<open>fr_radius_decode_tlv(ctx, cursor, dict, parent, data, data_len, decoder_ctx)\<close>. On
  \<^verbatim>\<open>error:\<close> the private list is freed; at the end it is merged behind the caller's cursor.
\<close>

definition fr_radius_decode_tlv ::
  "decode_env \<Rightarrow> decoder \<Rightarrow> cursor \<Rightarrow> fr_dict_attr \<Rightarrow> u8 list \<Rightarrow> nat \<Rightarrow> nat
     \<Rightarrow> fault + (int \<times> cursor)" where
  "fr_radius_decode_tlv env dpv cursor parent mem data data_len =
     (if data_len < 3 then Inr (-1, cursor)
      else
        case fr_radius_decode_tlv_ok mem data data_len 1 1 of
          Inl e \<Rightarrow> Inl e
        | Inr ok \<Rightarrow>
            if ok < 0 then Inr (-1, cursor)
            else
              (case tlv_loop env dpv parent mem (data + data_len) data [] of
                 Inl e \<Rightarrow> Inl e
               | Inr (False, head) \<Rightarrow> Inr (-1, cursor)
               | Inr (True, head) \<Rightarrow> Inr (int data_len, cursor @ head)))"

subsection \<open>Vendor-Specific attributes\<close>

text \<open>
  \<^verbatim>\<open>decode_vsa_internal\<close>, with the check of the debug build
  (\<^verbatim>\<open>#ifndef NDEBUG\<close>). The attribute number is read big-endian from \<open>dv->type\<close> octets
  (the first of four is skipped).
\<close>

definition decode_vsa_internal ::
  "decode_env \<Rightarrow> decoder \<Rightarrow> cursor \<Rightarrow> fr_dict_attr \<Rightarrow> u8 list \<Rightarrow> nat \<Rightarrow> nat \<Rightarrow> fr_dict_vendor
     \<Rightarrow> fault + (int \<times> cursor)" where
  "decode_vsa_internal env dpv cursor parent mem data data_len dv =
     (let T = vendor_type dv; W = vendor_length dv in
      if da_type parent \<noteq> FR_TYPE_VENDOR then Inr (-1, cursor)
      else if data_len \<le> T + W then Inr (-1, cursor)
      else if T \<noteq> 4 \<and> T \<noteq> 2 \<and> T \<noteq> 1 then Inr (-1, cursor)
      else if length mem < data + T then Inl OutOfBounds
      else
        let attribute =
              (if T = 4 then unat (mem ! (data + 1)) * 65536 + unat (mem ! (data + 2)) * 256
                             + unat (mem ! (data + 3))
               else if T = 2 then unat (mem ! data) * 256 + unat (mem ! (data + 1))
               else unat (mem ! data))
        in if W \<noteq> 2 \<and> W \<noteq> 1 \<and> W \<noteq> 0 then Inr (-1, cursor)
           else if length mem < data + T + W then Inl OutOfBounds
           else
             let attrlen = (if W = 2 then unat (mem ! (data + T + 1))
                            else if W = 1 then unat (mem ! (data + T))
                            else data_len)
             in case (case child_by_num env parent attribute of
                        Some da \<Rightarrow> Some da
                      | None \<Rightarrow> unknown_afrom_fields env (Some parent) (vendor_pen dv) attribute) of
                  None \<Rightarrow> Inr (-1, cursor)
                | Some da \<Rightarrow>
                    (case dpv cursor da mem (data + T + W) (size_sub attrlen (T + W))
                            (size_sub attrlen (T + W)) of
                       Inl e \<Rightarrow> Inl e
                     | Inr (my_len, cursor') \<Rightarrow>
                         if my_len < 0 then Inr (my_len, cursor')
                         else Inr (int attrlen, cursor')))"

text \<open>
  The loop \<^verbatim>\<open>while (attr_len > 0)\<close> under \<^verbatim>\<open>create_attrs:\<close> in \<^verbatim>\<open>decode_vsa\<close>, with the
  private cursor; the result is \<open>False\<close> where the loop returns -1, and otherwise \<open>total_len\<close>
  (the variable \<^verbatim>\<open>total\<close>) and the private list. A \<open>vsa_len\<close> of 0 would repeat the round for
  ever; a \<open>vsa_len\<close> above \<open>attr_len\<close> wraps \<open>attr_len\<close> around and the loop leaves the
  attribute.
\<close>

function vsa_loop ::
  "decode_env \<Rightarrow> decoder \<Rightarrow> fr_dict_attr \<Rightarrow> fr_dict_vendor \<Rightarrow> u8 list \<Rightarrow> nat \<Rightarrow> nat \<Rightarrow> nat
     \<Rightarrow> cursor \<Rightarrow> fault + (bool \<times> nat \<times> cursor)" where
  "vsa_loop env dpv vendor_da dv mem data attr_len total_len tlv_cursor =
     (if attr_len > 0 then
        case decode_vsa_internal env dpv tlv_cursor vendor_da mem data attr_len dv of
          Inl e \<Rightarrow> Inl e
        | Inr (vsa_len, tlv_cursor') \<Rightarrow>
            if vsa_len < 0 then Inr (False, total_len, tlv_cursor')
            else if vsa_len = 0 then Inl Diverges
            else if nat vsa_len > attr_len then Inl OutOfBounds
            else vsa_loop env dpv vendor_da dv mem (data + nat vsa_len) (attr_len - nat vsa_len)
                   (total_len + nat vsa_len) tlv_cursor'
      else Inr (True, total_len, tlv_cursor))"
  by pat_completeness auto
termination
  by (relation "measure (\<lambda>(env, dpv, vendor_da, dv, mem, data, attr_len, t, c). attr_len)") auto

declare vsa_loop.simps [simp del]

text \<open>
  \<^verbatim>\<open>decode_vsa\<close> from the label \<^verbatim>\<open>create_attrs:\<close> on: skip the vendor id, decode the
  sub-attributes onto the private cursor, merge it behind the caller's cursor.
\<close>

definition vsa_create_attrs ::
  "decode_env \<Rightarrow> decoder \<Rightarrow> cursor \<Rightarrow> fr_dict_attr \<Rightarrow> fr_dict_vendor \<Rightarrow> u8 list \<Rightarrow> nat \<Rightarrow> nat
     \<Rightarrow> fault + (int \<times> cursor)" where
  "vsa_create_attrs env dpv cursor vendor_da dv mem data attr_len =
     (case vsa_loop env dpv vendor_da dv mem (data + 4) (attr_len - 4) 4 [] of
        Inl e \<Rightarrow> Inl e
      | Inr (False, total_len, head) \<Rightarrow> Inr (-1, cursor)
      | Inr (True, total_len, head) \<Rightarrow> Inr (int total_len, cursor @ head))"

subsection \<open>Long extended attributes\<close>

text \<open>
  The first loop of \<^verbatim>\<open>decode_extended\<close>, which counts the fragments. \<open>attr\<close> is the
  offset of the header of the first fragment. The result is \<open>end\<close>, \<open>fraglen\<close> and
  \<open>fragments\<close> after the loop.
\<close>

function extended_walk ::
  "u8 list \<Rightarrow> nat \<Rightarrow> nat \<Rightarrow> nat \<Rightarrow> nat \<Rightarrow> nat \<Rightarrow> bool \<Rightarrow> fault + (nat \<times> nat \<times> nat)" where
  "extended_walk mem attr end' frag fraglen fragments last_frag =
     (if frag < end' then
        if last_frag then Inr (frag, fraglen, fragments)
        else if length mem \<le> frag \<or> length mem \<le> attr then Inl OutOfBounds
        else if mem ! frag \<noteq> mem ! attr then Inr (frag, fraglen, fragments)
        else if length mem \<le> frag + 1 then Inl OutOfBounds
        else if unat (mem ! (frag + 1)) < 4 then Inr (frag, fraglen, fragments)
        else if length mem \<le> frag + 2 \<or> length mem \<le> attr + 2 then Inl OutOfBounds
        else if mem ! (frag + 2) \<noteq> mem ! (attr + 2) then Inr (frag, fraglen, fragments)
        else if frag + unat (mem ! (frag + 1)) > end' then Inr (frag, fraglen, fragments)
        else if length mem \<le> frag + 3 then Inl OutOfBounds
        else extended_walk mem attr end' (frag + unat (mem ! (frag + 1)))
               (fraglen + (unat (mem ! (frag + 1)) - 4)) (fragments + 1)
               ((mem ! (frag + 3)) AND 0x80 = 0)
      else Inr (end', fraglen, fragments))"
  by pat_completeness auto
termination
  by (relation "measure (\<lambda>(mem, attr, end', frag, fraglen, fragments, l). end' - frag)") auto

declare extended_walk.simps [simp del]

text \<open>The second loop of \<^verbatim>\<open>decode_extended\<close>, \<^verbatim>\<open>while (fragments > 0)\<close>.\<close>

fun extended_copy :: "u8 list \<Rightarrow> nat \<Rightarrow> nat \<Rightarrow> nat \<Rightarrow> u8 list \<Rightarrow> nat \<Rightarrow> fault + u8 list" where
  "extended_copy mem end' 0 frag dst doff = Inr dst"
| "extended_copy mem end' (Suc fragments) frag dst doff =
     (if length mem \<le> frag + 1 then Inl OutOfBounds
      else
        case memcpy_bounded dst doff mem (frag + 4) (size_sub (unat (mem ! (frag + 1))) 4) end' of
          Inl e \<Rightarrow> Inl e
        | Inr dst' \<Rightarrow>
            extended_copy mem end' fragments (frag + unat (mem ! (frag + 1))) dst'
              (doff + size_sub (unat (mem ! (frag + 1))) 4))"

text \<open>
  \<^verbatim>\<open>decode_extended(ctx, cursor, dict, parent, data, attr_len, packet_len, decoder_ctx)\<close>.
  \<^verbatim>\<open>attr = data - 2\<close> lies before the buffer when \<open>data < 2\<close>.
\<close>

definition decode_extended ::
  "decode_env \<Rightarrow> decoder \<Rightarrow> cursor \<Rightarrow> fr_dict_attr \<Rightarrow> u8 list \<Rightarrow> nat \<Rightarrow> nat \<Rightarrow> nat
     \<Rightarrow> fault + (int \<times> cursor)" where
  "decode_extended env dpv cursor parent mem data attr_len packet_len =
     (if attr_len < 3 then Inr (-1, cursor)
      else if length mem \<le> data + 1 then Inl OutOfBounds
      else if (mem ! (data + 1)) AND 0x80 = 0 then
        (case dpv cursor parent mem (data + 2) (attr_len - 2) (attr_len - 2) of
           Inl e \<Rightarrow> Inl e
         | Inr (rcode, cursor') \<Rightarrow>
             if rcode < 0 then Inr (-1, cursor') else Inr (int attr_len, cursor'))
      else if data < 2 then Inl OutOfBounds
      else
        case extended_walk mem (data - 2) (data + packet_len) (data + attr_len) (attr_len - 2)
               1 False of
          Inl e \<Rightarrow> Inl e
        | Inr (end', fraglen, fragments) \<Rightarrow>
            (case extended_copy mem end' fragments (data - 2)
                    (replicate fraglen (uninit env)) 0 of
               Inl e \<Rightarrow> Inl e
             | Inr head \<Rightarrow>
                 (case dpv cursor parent head 0 fraglen fraglen of
                    Inl e \<Rightarrow> Inl e
                  | Inr (rcode, cursor') \<Rightarrow>
                      if rcode < 0 then Inr (rcode, cursor')
                      else Inr (int end' - int data, cursor'))))"

subsection \<open>WiMAX\<close>

abbreviation (input) FR_VENDOR_SPECIFIC :: u8 where "FR_VENDOR_SPECIFIC \<equiv> 26"
abbreviation (input) VENDORPEC_WIMAX :: nat where "VENDORPEC_WIMAX \<equiv> 24757"

text \<open>
  The first loop of \<^verbatim>\<open>decode_wimax\<close>, over the fragments. \<open>data\<close> is the offset of the
  vendor id of the first fragment and \<open>attr\<close> the offset of the WiMAX attribute at hand.
  \<open>None\<close> is \<^verbatim>\<open>return -1\<close>; otherwise the result is \<open>end\<close> and \<open>wimax_len\<close> after the loop.
  Each octet is read where the source reads it, and a read behind the buffer is
  \<open>OutOfBounds\<close>; \<^verbatim>\<open>memcmp\<close> is given four octets on both sides.
\<close>

function wimax_walk ::
  "u8 list \<Rightarrow> nat \<Rightarrow> nat \<Rightarrow> nat \<Rightarrow> nat \<Rightarrow> fault + (nat \<times> nat) option" where
  "wimax_walk mem data end' attr wimax_len =
     (if attr < end' then
        if end' - attr < 3 then Inr None
        else if length mem \<le> attr + 1 then Inl OutOfBounds
        else if unat (mem ! (attr + 1)) \<le> 3 then Inr None
        else if attr + unat (mem ! (attr + 1)) > end' then Inr None
        else if length mem \<le> attr + 2 then Inl OutOfBounds
        else if (mem ! (attr + 2)) AND 0x80 = 0 then
          Inr (Some (attr + unat (mem ! (attr + 1)), wimax_len + (unat (mem ! (attr + 1)) - 3)))
        else if attr + unat (mem ! (attr + 1)) = end' then Inr None
        else
          let wimax_len' = wimax_len + (unat (mem ! (attr + 1)) - 3);
              attr' = attr + unat (mem ! (attr + 1))
          in if end' - attr' < 9 then Inr None
             else if length mem \<le> attr' then Inl OutOfBounds
             else if mem ! attr' \<noteq> FR_VENDOR_SPECIFIC then Inr None
             else if length mem \<le> attr' + 1 then Inl OutOfBounds
             else if unat (mem ! (attr' + 1)) < 9 then Inr None
             else if attr' + unat (mem ! (attr' + 1)) > end' then Inr None
             else if length mem < data + 4 \<or> length mem < attr' + 6 then Inl OutOfBounds
             else if take 4 (drop data mem) \<noteq> take 4 (drop (attr' + 2) mem) then Inr None
             else if length mem \<le> attr' + 7 then Inl OutOfBounds
             else if unat (mem ! (attr' + 1)) \<noteq> unat (mem ! (attr' + 7)) + 6 then Inr None
             else if length mem \<le> data + 4 then Inl OutOfBounds
             else if mem ! (data + 4) \<noteq> mem ! (attr' + 6) then Inr None
             else wimax_walk mem data end' (attr' + 6) wimax_len'
      else Inr (Some (end', wimax_len)))"
  by pat_completeness auto
termination
  by (relation "measure (\<lambda>(mem, data, end', attr, wimax_len). end' - attr)") auto

declare wimax_walk.simps [simp del]

text \<open>The second loop of \<^verbatim>\<open>decode_wimax\<close>, "this time trusting the attribute contents".\<close>

function wimax_copy :: "u8 list \<Rightarrow> nat \<Rightarrow> nat \<Rightarrow> u8 list \<Rightarrow> nat \<Rightarrow> fault + u8 list" where
  "wimax_copy mem end' attr dst doff =
     (if attr < end' then
        if length mem \<le> attr + 5 then Inl OutOfBounds
        else
          case memcpy_bounded dst doff mem (attr + 4 + 3)
                 (size_sub (unat (mem ! (attr + 4 + 1))) 3) end' of
            Inl e \<Rightarrow> Inl e
          | Inr dst' \<Rightarrow>
              wimax_copy mem end' (attr + 4 + unat (mem ! (attr + 4 + 1)) + 2) dst'
                (doff + size_sub (unat (mem ! (attr + 4 + 1))) 3)
      else Inr dst)"
  by pat_completeness auto
termination
  by (relation "measure (\<lambda>(mem, end', attr, dst, doff). end' - attr)") auto

declare wimax_copy.simps [simp del]

text \<open>
  \<^verbatim>\<open>decode_wimax(ctx, cursor, dict, parent, data, attr_len, packet_len, decoder_ctx, vendor)\<close>.
\<close>

definition decode_wimax ::
  "decode_env \<Rightarrow> decoder \<Rightarrow> cursor \<Rightarrow> fr_dict_attr \<Rightarrow> u8 list \<Rightarrow> nat \<Rightarrow> nat \<Rightarrow> nat \<Rightarrow> nat
     \<Rightarrow> fault + (int \<times> cursor)" where
  "decode_wimax env dpv cursor parent mem data attr_len packet_len vendor =
     (if attr_len < 8 then Inr (-1, cursor)
      else if length mem \<le> data + 5 then Inl OutOfBounds
      else if unat (mem ! (data + 5)) < 3 then Inr (-1, cursor)
      else if unat (mem ! (data + 5)) + 4 \<noteq> attr_len then Inr (-1, cursor)
      else
        case (case child_by_num env parent (unat (mem ! (data + 4))) of
                Some da \<Rightarrow> Some da
              | None \<Rightarrow> unknown_afrom_fields env (Some parent) vendor (unat (mem ! (data + 4)))) of
          None \<Rightarrow> Inr (-1, cursor)
        | Some da \<Rightarrow>
            if length mem \<le> data + 6 then Inl OutOfBounds
            else if (mem ! (data + 6)) AND 0x80 = 0 then
              (case dpv cursor da mem (data + 7) (unat (mem ! (data + 5)) - 3)
                      (unat (mem ! (data + 5)) - 3) of
                 Inl e \<Rightarrow> Inl e
               | Inr (rcode, cursor') \<Rightarrow>
                   if rcode < 0 then Inr (-1, cursor') else Inr (int attr_len, cursor'))
            else
              (case wimax_walk mem data (data + packet_len) (data + 4) 0 of
                 Inl e \<Rightarrow> Inl e
               | Inr None \<Rightarrow> Inr (-1, cursor)
               | Inr (Some (end', wimax_len)) \<Rightarrow>
                   if wimax_len = 0 then Inr (-1, cursor)
                   else
                     (case wimax_copy mem end' data (replicate wimax_len (uninit env)) 0 of
                        Inl e \<Rightarrow> Inl e
                      | Inr head \<Rightarrow>
                          (case dpv cursor da head 0 wimax_len wimax_len of
                             Inl e \<Rightarrow> Inl e
                           | Inr (rcode, cursor') \<Rightarrow>
                               if rcode < 0 then Inr (rcode, cursor')
                               else Inr (int end' - int data, cursor')))))"

text \<open>
  \<^verbatim>\<open>decode_vsa(ctx, cursor, dict, parent, data, attr_len, packet_len, decoder_ctx)\<close>. The
  vendor id is the four octets read big-endian (\<^verbatim>\<open>ntohl\<close>), the first being 0.
\<close>

definition decode_vsa ::
  "decode_env \<Rightarrow> decoder \<Rightarrow> cursor \<Rightarrow> fr_dict_attr \<Rightarrow> u8 list \<Rightarrow> nat \<Rightarrow> nat \<Rightarrow> nat
     \<Rightarrow> fault + (int \<times> cursor)" where
  "decode_vsa env dpv cursor parent mem data attr_len packet_len =
     (if da_type parent \<noteq> FR_TYPE_VSA then Inr (-1, cursor)
      else if attr_len > packet_len then Inr (-1, cursor)
      else if attr_len < 5 then Inr (-1, cursor)
      else if length mem < data + 4 then Inl OutOfBounds
      else if mem ! data \<noteq> 0 then Inr (-1, cursor)
      else
        let vendor = unat (mem ! data) * 16777216 + unat (mem ! (data + 1)) * 65536
                     + unat (mem ! (data + 2)) * 256 + unat (mem ! (data + 3))
        in case child_by_num env parent vendor of
             None \<Rightarrow>
               (case fr_radius_decode_tlv_ok mem (data + 4) (attr_len - 4) 1 1 of
                  Inl e \<Rightarrow> Inl e
                | Inr ok \<Rightarrow>
                    if ok < 0 then Inr (-1, cursor)
                    else
                      (case unknown_vendor_afrom_num env parent vendor of
                         None \<Rightarrow> Inr (-1, cursor)
                       | Some n \<Rightarrow>
                           vsa_create_attrs env dpv cursor n
                             \<lparr>vendor_pen = vendor, vendor_type = 1, vendor_length = 1,
                              vendor_flags = 0\<rparr> mem data attr_len))
           | Some vendor_da \<Rightarrow>
               (case vendor_by_num env vendor of
                  None \<Rightarrow> Inr (-1, cursor)
                | Some dv \<Rightarrow>
                    if vendor = VENDORPEC_WIMAX \<and> vendor_flags dv \<noteq> 0 then
                      decode_wimax env dpv cursor vendor_da mem data attr_len packet_len vendor
                    else
                      (case fr_radius_decode_tlv_ok mem (data + 4) (attr_len - 4)
                              (vendor_type dv) (vendor_length dv) of
                         Inl e \<Rightarrow> Inl e
                       | Inr ok \<Rightarrow>
                           if ok < 0 then Inr (-1, cursor)
                           else vsa_create_attrs env dpv cursor vendor_da dv mem data attr_len)))"

subsection \<open>The pair-value dispatcher\<close>

text \<open>
  The kinds of \<^verbatim>\<open>fr_value_box_from_network\<close> in the second switch of
  \<^verbatim>\<open>fr_radius_decode_pair_value\<close>, and \<^verbatim>\<open>FR_TYPE_VALUES\<close>: these and the three other kinds
  the second switch decodes.
\<close>

definition box_types :: "fr_type list" where
  "box_types =
     [FR_TYPE_STRING, FR_TYPE_OCTETS, FR_TYPE_IPV4_ADDR, FR_TYPE_IPV6_ADDR, FR_TYPE_BOOL,
      FR_TYPE_UINT8, FR_TYPE_UINT16, FR_TYPE_UINT32, FR_TYPE_UINT64,
      FR_TYPE_INT8, FR_TYPE_INT16, FR_TYPE_INT32, FR_TYPE_INT64,
      FR_TYPE_FLOAT32, FR_TYPE_FLOAT64, FR_TYPE_DATE, FR_TYPE_TIME_DELTA,
      FR_TYPE_ETHERNET, FR_TYPE_IFID, FR_TYPE_SIZE]"

definition FR_TYPE_VALUES :: "fr_type list" where
  "FR_TYPE_VALUES = box_types @ [FR_TYPE_IPV4_PREFIX, FR_TYPE_IPV6_PREFIX, FR_TYPE_ABINARY]"

text \<open>
  The "hacks for tags". The result is \<open>None\<close> for \<^verbatim>\<open>return -1\<close>, and otherwise the tag,
  the pointer \<open>p\<close> (a buffer and an offset), \<open>data_len\<close>, and whether \<open>p\<close> is the local
  \<^verbatim>\<open>buffer\<close> (256 octets, those not written being \<open>uninit\<close>). \<^verbatim>\<open>tag\<close> is an \<^verbatim>\<open>int8_t\<close>.
\<close>

definition decode_tag ::
  "decode_env \<Rightarrow> fr_dict_attr \<Rightarrow> u8 list \<Rightarrow> nat \<Rightarrow> nat
     \<Rightarrow> fault + (int \<times> u8 list \<times> nat \<times> nat \<times> bool) option" where
  "decode_tag env parent mem data attr_len =
     (if has_tag (da_flags parent) \<and> attr_len > 1 then
        if length mem \<le> data then Inl OutOfBounds
        else if unat (mem ! data) < 0x20
                \<or> subtype (da_flags parent) = FLAG_ENCRYPT_TUNNEL_PASSWORD then
          if attr_len \<ge> 256 then Inr None
          else if da_type parent = FR_TYPE_STRING then
            if length mem < data + attr_len then Inl OutOfBounds
            else Inr (Some (sint (mem ! data),
                            take (attr_len - 1) (drop (data + 1) mem)
                              @ replicate (256 - (attr_len - 1)) (uninit env),
                            0, attr_len - 1, True))
          else if da_type parent = FR_TYPE_UINT32 then
            if length mem < data + attr_len then Inl OutOfBounds
            else Inr (Some (sint (mem ! data),
                            0 # take (attr_len - 1) (drop (data + 1) mem)
                              @ replicate (256 - attr_len) (uninit env),
                            0, attr_len, True))
          else Inr None
        else Inr (Some (TAG_NONE, mem, data, attr_len, False))
      else Inr (Some (TAG_NONE, mem, data, attr_len, False)))"

text \<open>
  \<^verbatim>\<open>while ((data_len > 0) && (buffer[data_len - 1] == '\0')) data_len--\<close>.
\<close>

fun trim_zeros :: "u8 list \<Rightarrow> nat \<Rightarrow> nat" where
  "trim_zeros buffer 0 = 0"
| "trim_zeros buffer (Suc n) = (if buffer ! n = 0 then trim_zeros buffer n else Suc n)"

text \<open>
  The outcome of "decrypt the attribute": \<^verbatim>\<open>return -1\<close>, \<^verbatim>\<open>goto raw\<close>, or going on; the
  latter two with \<open>p\<close> and \<open>data_len\<close>.
\<close>

datatype decrypted =
    Decrypt_Fail
  | Decrypt_Raw "u8 list" nat nat
  | Decrypt_Ok "u8 list" nat nat

definition decrypt_value ::
  "decode_env \<Rightarrow> fr_radius_ctx option \<Rightarrow> fr_dict_attr \<Rightarrow> u8 list \<Rightarrow> nat \<Rightarrow> nat
     \<Rightarrow> u8 list \<Rightarrow> nat \<Rightarrow> nat \<Rightarrow> bool \<Rightarrow> fault + decrypted" where
  "decrypt_value env packet_ctx parent mem data attr_len pmem poff data_len in_buffer =
     (case packet_ctx of
        None \<Rightarrow> Inr (Decrypt_Ok pmem poff data_len)
      | Some pc \<Rightarrow>
          if subtype (da_flags parent) = FLAG_ENCRYPT_NONE then Inr (Decrypt_Ok pmem poff data_len)
          else if attr_len > 253 then Inr Decrypt_Fail
          else if \<not> in_buffer \<and> length mem < data + attr_len then Inl OutOfBounds
          else
            let buffer = (if in_buffer then pmem
                          else take attr_len (drop data mem)
                                 @ replicate (256 - attr_len) (uninit env))
            in if subtype (da_flags parent) = FLAG_ENCRYPT_USER_PASSWORD then
                 (case fr_radius_decode_password (env_md5 env) buffer attr_len (ctx_secret pc)
                         (ctx_vector pc) of
                    Inl e \<Rightarrow> Inl e
                  | Inr (buffer', l) \<Rightarrow>
                      let buffer'' = buffer'[253 := 0] in
                      if flags_length (da_flags parent) \<noteq> 0 then
                        Inr (Decrypt_Ok buffer'' 0
                               (if data_len > flags_length (da_flags parent)
                                then flags_length (da_flags parent) else data_len))
                      else Inr (Decrypt_Ok buffer'' 0 (trim_zeros buffer'' data_len)))
               else if subtype (da_flags parent) = FLAG_ENCRYPT_TUNNEL_PASSWORD then
                 (case fr_radius_decode_tunnel_password (env_md5 env) buffer data_len
                         (ctx_secret pc) (ctx_vector pc) (ctx_tunnel_password_zeros pc) of
                    Inl e \<Rightarrow> Inl e
                  | Inr (rc, buffer', data_len') \<Rightarrow>
                      if rc < 0 then Inr (Decrypt_Raw buffer' 0 data_len')
                      else Inr (Decrypt_Ok buffer' 0 data_len'))
               else if subtype (da_flags parent) = FLAG_ENCRYPT_ASCEND_SECRET then
                 (let buffer' = (take 16 (ascend_secret env (ctx_vector pc) (ctx_secret pc) buffer)
                                   @ drop 16 buffer)[RADIUS_AUTH_VECTOR_LENGTH := 0]
                  in case strlen buffer' of
                       Inl e \<Rightarrow> Inl e
                     | Inr l \<Rightarrow> Inr (Decrypt_Ok buffer' 0 l))
               else if da_type parent = FR_TYPE_OCTETS \<and> flags_length (da_flags parent) \<noteq> 0
                       \<and> data_len > flags_length (da_flags parent) then
                 Inr (Decrypt_Ok buffer 0 (flags_length (da_flags parent)))
               else Inr (Decrypt_Ok buffer 0 data_len))"

text \<open>
  The label \<^verbatim>\<open>raw:\<close>: the parent becomes the unknown attribute made from its own parent,
  vendor and number, which must be of kind octets (the check of the debug build).
\<close>

definition raw_parent :: "decode_env \<Rightarrow> fr_dict_attr \<Rightarrow> fr_dict_attr option" where
  "raw_parent env parent =
     (case unknown_afrom_fields env (da_parent parent) (vendor_num_by_da env parent)
             (da_attr parent) of
        None \<Rightarrow> None
      | Some u \<Rightarrow> if da_type u \<noteq> FR_TYPE_OCTETS then None else Some u)"

text \<open>The end of the function: the pair becomes data, is tainted and is appended.\<close>

definition append_pair :: "cursor \<Rightarrow> VALUE_PAIR \<Rightarrow> nat \<Rightarrow> fault + (int \<times> cursor)" where
  "append_pair cursor vp attr_len =
     Inr (int attr_len, cursor @ [vp\<lparr>vp_type := VT_DATA, vp_tainted := True\<rparr>])"

text \<open>
  From \<^verbatim>\<open>vp = fr_pair_afrom_da(ctx, parent)\<close> to the end: the second switch. A
  \<^verbatim>\<open>goto raw\<close> in it comes back here with the unknown parent and no tag; each such round
  takes one unit of fuel.
\<close>

fun emit_value ::
  "nat \<Rightarrow> decode_env \<Rightarrow> cursor \<Rightarrow> fr_dict_attr \<Rightarrow> int \<Rightarrow> u8 list \<Rightarrow> nat \<Rightarrow> nat \<Rightarrow> nat \<Rightarrow> nat
     \<Rightarrow> fault + (int \<times> cursor)" where
  "emit_value 0 env cursor parent tag pmem poff data_len min' attr_len = Inl OutOfFuel"
| "emit_value (Suc k) env cursor parent tag pmem poff data_len min' attr_len =
     (let vp = (pair_afrom_da env parent)\<lparr>vp_tag := tag\<rparr>;
          raw = (case raw_parent env parent of
                   None \<Rightarrow> Inr (-1, cursor)
                 | Some u \<Rightarrow> emit_value k env cursor u TAG_NONE pmem poff data_len min' attr_len)
      in if da_type parent \<in> set box_types then
           if length pmem < poff + data_len then Inl OutOfBounds
           else
             (case value_box_from_network env (da_type parent) parent
                     (take data_len (drop poff pmem)) of
                None \<Rightarrow> if is_unknown (da_flags parent) then Inr (-1, cursor) else raw
              | Some v \<Rightarrow> append_pair cursor (vp\<lparr>vp_data := v\<rparr>) attr_len)
         else if da_type parent = FR_TYPE_IPV4_PREFIX then
           if data_len \<noteq> min' then raw
           else if length pmem < poff + max 2 data_len then Inl OutOfBounds
           else if pmem ! poff \<noteq> 0 then raw
           else if unat ((pmem ! (poff + 1)) AND 0x3f) > 32 then raw
           else append_pair cursor
                  (vp\<lparr>vp_data := VP_IP
                          (ipaddr_mask env
                             (4, unat ((pmem ! (poff + 1)) AND 0x3f),
                              take (data_len - 2) (drop (poff + 2) pmem))
                             (unat ((pmem ! (poff + 1)) AND 0x3f)))\<rparr>) attr_len
         else if da_type parent = FR_TYPE_IPV6_PREFIX then
           if length pmem < poff + 2 then Inl OutOfBounds
           else if pmem ! poff \<noteq> 0 then raw
           else if unat (pmem ! (poff + 1)) > 128 then raw
           else if unat (pmem ! (poff + 1)) div 8 > size_sub data_len 2 then raw
           else if data_len < 2 \<or> length pmem < poff + data_len then Inl OutOfBounds
           else
             (let ip = ipaddr_mask env
                         (6, unat (pmem ! (poff + 1)) div 8,
                          take (data_len - 2) (drop (poff + 2) pmem))
                         (unat (pmem ! (poff + 1)))
              in if take (data_len - 2) (drop (poff + 2) pmem)
                      \<noteq> take (data_len - 2) (snd (snd ip)) then raw
                 else append_pair cursor (vp\<lparr>vp_data := VP_IP ip\<rparr>) attr_len)
         else if da_type parent = FR_TYPE_ABINARY then
           (let data_len' = (if data_len > sizeof_vp_filter env then sizeof_vp_filter env
                             else data_len)
            in if length pmem < poff + data_len' then Inl OutOfBounds
               else append_pair cursor
                      (vp\<lparr>vp_data := VP_FILTER (take data_len' (drop poff pmem))\<rparr>) attr_len)
         else Inr (-1, cursor))"

text \<open>\<^verbatim>\<open>goto raw\<close> from before the second switch.\<close>

definition goto_raw ::
  "nat \<Rightarrow> decode_env \<Rightarrow> cursor \<Rightarrow> fr_dict_attr \<Rightarrow> u8 list \<Rightarrow> nat \<Rightarrow> nat \<Rightarrow> nat \<Rightarrow> nat
     \<Rightarrow> fault + (int \<times> cursor)" where
  "goto_raw k env cursor parent pmem poff data_len min' attr_len =
     (case raw_parent env parent of
        None \<Rightarrow> Inr (-1, cursor)
      | Some u \<Rightarrow> emit_value k env cursor u TAG_NONE pmem poff data_len min' attr_len)"

text \<open>
  The body of \<^verbatim>\<open>fr_radius_decode_pair_value\<close>; \<open>dpv\<close> is the function itself where it
  calls itself, and \<open>k\<close> the fuel of the second switch. \<open>parent\<close> is never \<^verbatim>\<open>NULL\<close> here.
  \<^verbatim>\<open>fr_struct_from_network\<close> yields the pairs it appends, the \<^verbatim>\<open>child\<close> it sets and its
  return value, or \<open>None\<close> when it fails. \<^verbatim>\<open>fr_pair_afrom_da\<close> of a \<^verbatim>\<open>NULL\<close> attribute yields
  \<^verbatim>\<open>NULL\<close>.
\<close>

definition extended_child ::
  "nat \<Rightarrow> decode_env \<Rightarrow> decoder \<Rightarrow> cursor \<Rightarrow> fr_dict_attr \<Rightarrow> u8 list \<Rightarrow> nat \<Rightarrow> nat \<Rightarrow> nat
     \<Rightarrow> u8 list \<Rightarrow> nat \<Rightarrow> nat \<Rightarrow> fault + (int \<times> cursor)" where
  "extended_child k env dpv cursor parent mem data attr_len packet_len pmem poff data_len =
     (let min' = 1 + (if extra (da_flags parent) then 1 else 0 :: nat) in
      if data_len \<le> min' then goto_raw k env cursor parent pmem poff data_len min' attr_len
      else if length pmem \<le> poff then Inl OutOfBounds
      else
        let invalid_extended = (\<lambda>cursor.
              case unknown_afrom_fields env (Some parent) 0 (unat (pmem ! poff)) of
                None \<Rightarrow> goto_raw k env cursor parent pmem poff data_len min' attr_len
              | Some child \<Rightarrow>
                  (case (if extra (da_flags parent)
                         then decode_extended env dpv cursor child mem data attr_len packet_len
                         else Inr (-1, cursor)) of
                     Inl e \<Rightarrow> Inl e
                   | Inr (rcode, cursor') \<Rightarrow>
                       if extra (da_flags parent) \<and> rcode \<ge> 0 then Inr (rcode, cursor')
                       else
                         (case dpv cursor' child pmem (poff + min') (attr_len - min')
                                 (attr_len - min') of
                            Inl e \<Rightarrow> Inl e
                          | Inr (rcode', cursor'') \<Rightarrow>
                              if rcode' < 0 then Inr (-1, cursor'')
                              else Inr (int attr_len, cursor''))))
        in case child_by_num env parent (unat (pmem ! poff)) of
             None \<Rightarrow> invalid_extended cursor
           | Some child \<Rightarrow>
               if extra (da_flags parent) \<and> length pmem \<le> poff + 1 then Inl OutOfBounds
               else if \<not> extra (da_flags parent) \<or> (pmem ! (poff + 1)) AND 0x80 = 0 then
                 (case dpv cursor child pmem (poff + min') (attr_len - min') (attr_len - min') of
                    Inl e \<Rightarrow> Inl e
                  | Inr (rcode, cursor') \<Rightarrow>
                      if rcode < 0 then invalid_extended cursor'
                      else Inr (int attr_len, cursor'))
               else if data_len = 1 then invalid_extended cursor
               else
                 (case decode_extended env dpv cursor child mem data attr_len packet_len of
                    Inl e \<Rightarrow> Inl e
                  | Inr (rcode, cursor') \<Rightarrow>
                      if rcode \<ge> 0 then Inr (rcode, cursor')
                      else invalid_extended cursor'))"

definition pair_value_body ::
  "nat \<Rightarrow> decode_env \<Rightarrow> fr_radius_ctx option \<Rightarrow> decoder \<Rightarrow> decoder" where
  "pair_value_body k env packet_ctx dpv cursor parent mem data attr_len packet_len =
     (if attr_len > packet_len \<or> attr_len > 128 * 1024 then Inr (-1, cursor)
      else if attr_len = 0 then Inr (0, cursor)
      else
        case decode_tag env parent mem data attr_len of
          Inl e \<Rightarrow> Inl e
        | Inr None \<Rightarrow> Inr (-1, cursor)
        | Inr (Some (tag, tmem, toff, tlen, in_buffer)) \<Rightarrow>
        (case decrypt_value env packet_ctx parent mem data attr_len tmem toff tlen in_buffer of
          Inl e \<Rightarrow> Inl e
        | Inr Decrypt_Fail \<Rightarrow> Inr (-1, cursor)
        | Inr (Decrypt_Raw pmem poff data_len) \<Rightarrow>
            goto_raw k env cursor parent pmem poff data_len 0 attr_len
        | Inr (Decrypt_Ok pmem poff data_len) \<Rightarrow>
        (let min' = fst (attr_sizes env (da_type parent));
             max' = snd (attr_sizes env (da_type parent));
             raw = (\<lambda>cursor. goto_raw k env cursor parent pmem poff data_len min' attr_len)
         in
         if data_len < min' then raw cursor
         else if data_len > max' then raw cursor
         else if da_type parent \<in> set FR_TYPE_VALUES then
           emit_value k env cursor parent tag pmem poff data_len min' attr_len
         else if da_type parent = FR_TYPE_COMBO_IP_PREFIX
                 \<or> da_type parent = FR_TYPE_COMBO_IP_ADDR then
           (let v4 = (if da_type parent = FR_TYPE_COMBO_IP_PREFIX then FR_TYPE_IPV4_PREFIX
                      else FR_TYPE_IPV4_ADDR);
                v6 = (if da_type parent = FR_TYPE_COMBO_IP_PREFIX then FR_TYPE_IPV6_PREFIX
                      else FR_TYPE_IPV6_ADDR)
            in if data_len \<noteq> min' \<and> data_len \<noteq> max' then raw cursor
               else
                 (case attr_by_type env parent (if data_len = min' then v4 else v6) of
                    None \<Rightarrow> raw cursor
                  | Some child \<Rightarrow>
                      emit_value k env cursor child tag pmem poff data_len min' attr_len))
         else if da_type parent = FR_TYPE_EXTENDED then
           extended_child k env dpv cursor parent mem data attr_len packet_len pmem poff data_len
         else if da_type parent = FR_TYPE_VSA then
           (if (case da_parent parent of None \<Rightarrow> True
                | Some pp \<Rightarrow> da_type pp \<noteq> FR_TYPE_EXTENDED) then
              (case decode_vsa env dpv cursor parent pmem poff attr_len packet_len of
                 Inl e \<Rightarrow> Inl e
               | Inr (rcode, cursor') \<Rightarrow>
                   if rcode < 0 then raw cursor' else Inr (rcode, cursor'))
            else if data_len < 6 then raw cursor
            else if length pmem < poff + 5 then Inl OutOfBounds
            else
              (let vendor = unat (pmem ! poff) * 16777216 + unat (pmem ! (poff + 1)) * 65536
                            + unat (pmem ! (poff + 2)) * 256 + unat (pmem ! (poff + 3));
                   unknown = (case unknown_afrom_fields env (Some parent) vendor
                                     (unat (pmem ! (poff + 4))) of
                                None \<Rightarrow> Inr (-1, cursor)
                              | Some u \<Rightarrow>
                                  emit_value k env cursor u tag pmem (poff + 5)
                                    (data_len - 5) min' attr_len)
               in case child_by_num env parent vendor of
                    None \<Rightarrow> unknown
                  | Some vendor_child \<Rightarrow>
                      (case child_by_num env vendor_child (unat (pmem ! (poff + 4))) of
                         None \<Rightarrow> unknown
                       | Some child \<Rightarrow>
                           (case dpv cursor child pmem (poff + 5) (attr_len - 5) (attr_len - 5) of
                              Inl e \<Rightarrow> Inl e
                            | Inr (rcode, cursor') \<Rightarrow>
                                if rcode < 0 then raw cursor'
                                else Inr (int attr_len, cursor')))))
         else if da_type parent = FR_TYPE_TLV then
           (case fr_radius_decode_tlv env dpv cursor parent pmem poff attr_len of
              Inl e \<Rightarrow> Inl e
            | Inr (rcode, cursor') \<Rightarrow>
                if rcode < 0 then raw cursor' else Inr (int attr_len, cursor'))
         else if da_type parent = FR_TYPE_STRUCT then
           (if length pmem < poff + attr_len then Inl OutOfBounds
            else
              case struct_from_network env parent (take attr_len (drop poff pmem)) of
                None \<Rightarrow> raw cursor
              | Some (vps, child, rcode) \<Rightarrow>
                  (case child of
                     None \<Rightarrow> Inr (int attr_len, cursor @ vps)
                   | Some c \<Rightarrow>
                       if \<not> rcode < attr_len then Inr (int attr_len, cursor @ vps)
                       else
                         (case fr_radius_decode_tlv env dpv (cursor @ vps) c pmem (poff + rcode)
                                 (attr_len - rcode) of
                            Inl e \<Rightarrow> Inl e
                          | Inr (tlv_len, cursor') \<Rightarrow>
                              if tlv_len < 0 then
                                (case unknown_from_network env c
                                        (take (attr_len - rcode) (drop (poff + rcode) pmem)) of
                                   None \<Rightarrow> Inr (int attr_len, cursor')
                                 | Some vp \<Rightarrow> Inr (int attr_len, cursor' @ [vp]))
                              else Inr (int attr_len, cursor'))))
         else raw cursor)))"

text \<open>
  \<^verbatim>\<open>fr_radius_decode_pair_value\<close>: the recursion, by fuel. The function calls itself on
  children of the dictionary only, to a depth the dictionary bounds; the fuel bounds it
  here, together with the rounds of \<^verbatim>\<open>goto raw\<close>.
\<close>

primrec fr_radius_decode_pair_value ::
  "nat \<Rightarrow> decode_env \<Rightarrow> fr_radius_ctx option \<Rightarrow> decoder" where
  "fr_radius_decode_pair_value 0 env packet_ctx =
     (\<lambda>cursor parent mem data attr_len packet_len. Inl OutOfFuel)"
| "fr_radius_decode_pair_value (Suc n) env packet_ctx =
     pair_value_body n env packet_ctx (fr_radius_decode_pair_value n env packet_ctx)"

subsection \<open>The top-level pair decoder\<close>

abbreviation (input) FR_CHARGEABLE_USER_IDENTITY :: nat where "FR_CHARGEABLE_USER_IDENTITY \<equiv> 89"

text \<open>
  \<^verbatim>\<open>fr_radius_decode_pair(ctx, cursor, dict, data, data_len, decoder_ctx)\<close>, with the fuel
  of \<^verbatim>\<open>fr_radius_decode_pair_value\<close>.
\<close>

definition fr_radius_decode_pair ::
  "nat \<Rightarrow> decode_env \<Rightarrow> fr_radius_ctx option \<Rightarrow> cursor \<Rightarrow> u8 list \<Rightarrow> nat \<Rightarrow> nat
     \<Rightarrow> fault + (int \<times> cursor)" where
  "fr_radius_decode_pair n env packet_ctx cursor mem data data_len =
     (if data_len < 2 then Inr (-1, cursor)
      else if length mem \<le> data + 1 then Inl OutOfBounds
      else if unat (mem ! (data + 1)) < 2 \<or> unat (mem ! (data + 1)) > data_len
      then Inr (-1, cursor)
      else
        case (case child_by_num env (dict_root env) (unat (mem ! data)) of
                Some da \<Rightarrow> Some da
              | None \<Rightarrow> unknown_afrom_fields env (Some (dict_root env)) 0 (unat (mem ! data))) of
          None \<Rightarrow> Inr (-1, cursor)
        | Some da \<Rightarrow>
            if data_len = 2 then
              (if \<not> is_root (da_flags (dict_root env)) then Inr (2, cursor)
               else if unat (mem ! data) \<noteq> FR_CHARGEABLE_USER_IDENTITY then Inr (2, cursor)
               else Inr (2, cursor @ [(pair_afrom_da env da)\<lparr>vp_tainted := True\<rparr>]))
            else if concat_flag (da_flags da) then
              decode_concat env cursor da mem data data_len
            else
              (case fr_radius_decode_pair_value n env packet_ctx cursor da mem (data + 2)
                      (unat (mem ! (data + 1)) - 2) (data_len - 2) of
                 Inl e \<Rightarrow> Inl e
               | Inr (rcode, cursor') \<Rightarrow>
                   if rcode < 0 then Inr (rcode, cursor') else Inr (2 + rcode, cursor')))"

subsection \<open>An example dictionary\<close>

text \<open>
  A small dictionary and stand-ins for the other collaborators, for running the decoder on
  concrete packets: a protocol root; User-Name (1, string); a long extended attribute 27
  (0x1B) with the octets child 1; the tagged string Tunnel-Client-Endpoint (66);
  EAP-Message (79, octets, concat); Chargeable-User-Identity (89); Vendor-Specific (26) with
  the vendor 9 in the format (1, 1) and its string child 1. Unknown attributes are octets
  flagged unknown, a value box keeps the octets it is made from, and every digest is 16
  octets 5a.
\<close>

definition no_flags :: fr_dict_attr_flags where
  "no_flags = \<lparr>is_root = False, is_unknown = False, has_tag = False, concat_flag = False,
               extra = False, subtype = FLAG_ENCRYPT_NONE, flags_length = 0\<rparr>"

definition ex_root :: fr_dict_attr where
  "ex_root = DA 0 FR_TYPE_TLV (no_flags\<lparr>is_root := True\<rparr>) None"

definition ex_user_name :: fr_dict_attr where
  "ex_user_name = DA 1 FR_TYPE_STRING no_flags (Some ex_root)"

definition ex_extended :: fr_dict_attr where
  "ex_extended = DA 27 FR_TYPE_EXTENDED (no_flags\<lparr>extra := True\<rparr>) (Some ex_root)"

definition ex_extended_1 :: fr_dict_attr where
  "ex_extended_1 = DA 1 FR_TYPE_OCTETS no_flags (Some ex_extended)"

definition ex_tunnel_endpoint :: fr_dict_attr where
  "ex_tunnel_endpoint = DA 66 FR_TYPE_STRING (no_flags\<lparr>has_tag := True\<rparr>) (Some ex_root)"

definition ex_eap_message :: fr_dict_attr where
  "ex_eap_message = DA 79 FR_TYPE_OCTETS (no_flags\<lparr>concat_flag := True\<rparr>) (Some ex_root)"

definition ex_cui :: fr_dict_attr where
  "ex_cui = DA 89 FR_TYPE_OCTETS no_flags (Some ex_root)"

definition ex_vsa :: fr_dict_attr where
  "ex_vsa = DA 26 FR_TYPE_VSA no_flags (Some ex_root)"

definition ex_vendor_9 :: fr_dict_attr where
  "ex_vendor_9 = DA 9 FR_TYPE_VENDOR no_flags (Some ex_vsa)"

definition ex_vendor_9_1 :: fr_dict_attr where
  "ex_vendor_9_1 = DA 1 FR_TYPE_STRING no_flags (Some ex_vendor_9)"

definition ex_unknown :: "fr_dict_attr option \<Rightarrow> nat \<Rightarrow> fr_dict_attr" where
  "ex_unknown parent n = DA n FR_TYPE_OCTETS (no_flags\<lparr>is_unknown := True\<rparr>) parent"

definition ex_child_by_num :: "fr_dict_attr \<Rightarrow> nat \<Rightarrow> fr_dict_attr option" where
  "ex_child_by_num parent n =
     (if da_type parent = FR_TYPE_TLV \<and> da_attr parent = 0 then
        (if n = 1 then Some ex_user_name
         else if n = 26 then Some ex_vsa
         else if n = 27 then Some ex_extended
         else if n = 66 then Some ex_tunnel_endpoint
         else if n = 79 then Some ex_eap_message
         else if n = 89 then Some ex_cui
         else None)
      else if da_type parent = FR_TYPE_EXTENDED \<and> da_attr parent = 27 then
        (if n = 1 then Some ex_extended_1 else None)
      else if da_type parent = FR_TYPE_VSA \<and> da_attr parent = 26 then
        (if n = 9 then Some ex_vendor_9 else None)
      else if da_type parent = FR_TYPE_VENDOR \<and> da_attr parent = 9 then
        (if n = 1 then Some ex_vendor_9_1 else None)
      else None)"

definition ex_attr_sizes :: "fr_type \<Rightarrow> nat \<times> nat" where
  "ex_attr_sizes t =
     (if t = FR_TYPE_STRING \<or> t = FR_TYPE_OCTETS then (0, 2 ^ 64 - 1)
      else if t = FR_TYPE_IPV4_ADDR then (4, 4)
      else if t = FR_TYPE_IPV4_PREFIX then (6, 6)
      else if t = FR_TYPE_IPV6_ADDR then (16, 16)
      else if t = FR_TYPE_IPV6_PREFIX then (2, 18)
      else if t = FR_TYPE_COMBO_IP_PREFIX then (6, 18)
      else if t = FR_TYPE_COMBO_IP_ADDR then (4, 16)
      else if t = FR_TYPE_IFID then (8, 8)
      else if t = FR_TYPE_ETHERNET then (6, 6)
      else if t = FR_TYPE_BOOL \<or> t = FR_TYPE_UINT8 \<or> t = FR_TYPE_INT8 then (1, 1)
      else if t = FR_TYPE_UINT16 \<or> t = FR_TYPE_INT16 then (2, 2)
      else if t = FR_TYPE_UINT32 \<or> t = FR_TYPE_INT32 \<or> t = FR_TYPE_FLOAT32
              \<or> t = FR_TYPE_DATE \<or> t = FR_TYPE_TIME_DELTA then (4, 4)
      else if t = FR_TYPE_UINT64 \<or> t = FR_TYPE_INT64 \<or> t = FR_TYPE_FLOAT64
              \<or> t = FR_TYPE_SIZE then (8, 8)
      else if t = FR_TYPE_ABINARY then (32, 2 ^ 64 - 1)
      else if t = FR_TYPE_TLV then (2, 2 ^ 64 - 1)
      else if t = FR_TYPE_STRUCT then (1, 2 ^ 64 - 1)
      else if t = FR_TYPE_EXTENDED then (2, 2 ^ 64 - 1)
      else if t = FR_TYPE_VSA then (4, 2 ^ 64 - 1)
      else (2 ^ 64 - 1, 0))"

definition ex_pair :: "fr_dict_attr \<Rightarrow> VALUE_PAIR" where
  "ex_pair da = \<lparr>vp_da = da, vp_tag = TAG_NONE, vp_type = VT_NONE, vp_tainted = False,
                 vp_data = VP_EMPTY\<rparr>"

definition example_env :: decode_env where
  "example_env =
     \<lparr>env_md5 = (\<lambda>m. replicate 16 0x5a),
      ascend_secret = (\<lambda>v s p. replicate 16 0x5a),
      attr_sizes = ex_attr_sizes,
      dict_root = ex_root,
      child_by_num = ex_child_by_num,
      attr_by_type = (\<lambda>parent t. None),
      unknown_afrom_fields = (\<lambda>parent vendor n. Some (ex_unknown parent n)),
      unknown_vendor_afrom_num =
        (\<lambda>parent vendor. Some (DA vendor FR_TYPE_VENDOR (no_flags\<lparr>is_unknown := True\<rparr>)
                                  (Some parent))),
      vendor_num_by_da = (\<lambda>da. 0),
      vendor_by_num =
        (\<lambda>vendor. if vendor = 9
                   then Some \<lparr>vendor_pen = 9, vendor_type = 1, vendor_length = 1,
                              vendor_flags = 0\<rparr>
                   else None),
      pair_afrom_da = ex_pair,
      value_box_from_network = (\<lambda>t da bytes. Some (VP_BOX t bytes)),
      struct_from_network = (\<lambda>da bytes. None),
      unknown_from_network = (\<lambda>da bytes. None),
      ipaddr_mask = (\<lambda>ip prefix. ip),
      sizeof_vp_filter = 32,
      uninit = 0xcd\<rparr>"

text \<open>
  The same dictionary where no unknown attribute can be built
  (\<^verbatim>\<open>fr_dict_unknown_afrom_fields\<close> returns \<^verbatim>\<open>NULL\<close>): a number the dictionary does not know
  makes the decoder fail.
\<close>

definition strict_env :: decode_env where
  "strict_env = example_env\<lparr>unknown_afrom_fields := (\<lambda>parent vendor n. None)\<rparr>"

text \<open>
  A long extended attribute in two fragments: the anchor \<open>1B 09 01 80 AA BB CC DD EE\<close>
  (extended type 1, the "more" bit set, five octets of data) and the continuation
  \<open>1B 06 01 00 FF 11\<close> (the "more" bit clear, two octets of data).
\<close>

definition long_extended_packet :: "u8 list" where
  "long_extended_packet =
     [0x1B, 0x09, 0x01, 0x80, 0xAA, 0xBB, 0xCC, 0xDD, 0xEE, 0x1B, 0x06, 0x01, 0x00, 0xFF, 0x11]"

subsection \<open>Rounds of the container loops\<close>

text \<open>
  One round of the loop of \<^verbatim>\<open>fr_radius_decode_tlv\<close>, at the sub-attribute at \<open>p\<close> and with
  the private list \<open>tlv_cursor\<close>: the child is looked up or built as an unknown attribute
  and its value is decoded. The result is that of \<^verbatim>\<open>fr_radius_decode_pair_value\<close>, and -1
  where there is no child (the first \<^verbatim>\<open>goto error\<close>).
\<close>

definition tlv_sub ::
  "decode_env \<Rightarrow> decoder \<Rightarrow> fr_dict_attr \<Rightarrow> u8 list \<Rightarrow> nat \<Rightarrow> cursor \<Rightarrow> fault + (int \<times> cursor)" where
  "tlv_sub env dpv parent mem p tlv_cursor =
     (case (case child_by_num env parent (unat (mem ! p)) of
              Some child \<Rightarrow> Some child
            | None \<Rightarrow> unknown_afrom_fields env (Some parent) (vendor_num_by_da env parent)
                        (unat (mem ! p))) of
        None \<Rightarrow> Inr (-1, tlv_cursor)
      | Some child \<Rightarrow>
          dpv tlv_cursor child mem (p + 2) (size_sub (unat (mem ! (p + 1))) 2)
            (size_sub (unat (mem ! (p + 1))) 2))"

text \<open>
  The state of that loop, \<open>p\<close> and the private list, after \<open>k\<close> rounds in each of which the
  sub-attribute was decoded; \<open>None\<close> if the loop does not get that far.
\<close>

primrec tlv_run ::
  "decode_env \<Rightarrow> decoder \<Rightarrow> fr_dict_attr \<Rightarrow> u8 list \<Rightarrow> nat \<Rightarrow> nat \<Rightarrow> nat
     \<Rightarrow> (nat \<times> cursor) option" where
  "tlv_run env dpv parent mem end' data 0 = Some (data, [])"
| "tlv_run env dpv parent mem end' data (Suc k) =
     (case tlv_run env dpv parent mem end' data k of
        None \<Rightarrow> None
      | Some (p, c) \<Rightarrow>
          if \<not> p < end' \<or> length mem \<le> p + 1 then None
          else
            case tlv_sub env dpv parent mem p c of
              Inl e \<Rightarrow> None
            | Inr (n, c') \<Rightarrow>
                if n < 0 \<or> unat (mem ! (p + 1)) = 0 then None
                else Some (p + unat (mem ! (p + 1)), c'))"

text \<open>
  The same for the loop of \<^verbatim>\<open>decode_vsa\<close>, whose round is \<^verbatim>\<open>decode_vsa_internal\<close>: the
  state is \<open>data\<close>, \<open>attr_len\<close>, \<open>total\<close> and the private list, from the values they have
  behind the label \<^verbatim>\<open>create_attrs:\<close>.
\<close>

primrec vsa_run ::
  "decode_env \<Rightarrow> decoder \<Rightarrow> fr_dict_attr \<Rightarrow> fr_dict_vendor \<Rightarrow> u8 list \<Rightarrow> nat \<Rightarrow> nat \<Rightarrow> nat
     \<Rightarrow> (nat \<times> nat \<times> nat \<times> cursor) option" where
  "vsa_run env dpv vendor_da dv mem data attr_len 0 = Some (data + 4, attr_len - 4, 4, [])"
| "vsa_run env dpv vendor_da dv mem data attr_len (Suc k) =
     (case vsa_run env dpv vendor_da dv mem data attr_len k of
        None \<Rightarrow> None
      | Some (d, a, t, c) \<Rightarrow>
          if a = 0 then None
          else
            case decode_vsa_internal env dpv c vendor_da mem d a dv of
              Inl e \<Rightarrow> None
            | Inr (n, c') \<Rightarrow>
                if n \<le> 0 \<or> nat n > a then None
                else Some (d + nat n, a - nat n, t + nat n, c'))"

subsection \<open>Chains of WiMAX fragments\<close>

text \<open>
  What the reassembly is specified to demand of a continuation, in the words of the
  specification. The fragment at \<open>outer\<close> starts a new outer Vendor-Specific attribute:
  there is room for its header, the vendor id and a WiMAX header with its continuation
  octet (9 octets); its first octet is 26; its length is at least 9 and stays inside the
  packet; it carries exactly the four octets of the vendor id of the anchor, which are at
  \<open>data\<close>, and the WiMAX attribute id of the anchor, which is at \<open>data + 4\<close>; and its
  outer length is its WiMAX length plus 6.
\<close>

definition wimax_continuation :: "u8 list \<Rightarrow> nat \<Rightarrow> nat \<Rightarrow> nat \<Rightarrow> bool" where
  "wimax_continuation mem data end' outer \<longleftrightarrow>
     outer + 9 \<le> end' \<and>
     mem ! outer = FR_VENDOR_SPECIFIC \<and>
     9 \<le> unat (mem ! (outer + 1)) \<and> outer + unat (mem ! (outer + 1)) \<le> end' \<and>
     take 4 (drop (outer + 2) mem) = take 4 (drop data mem) \<and>
     mem ! (outer + 6) = mem ! (data + 4) \<and>
     unat (mem ! (outer + 1)) = unat (mem ! (outer + 7)) + 6"

text \<open>
  A chain of fragments from the WiMAX header at \<open>a\<close> (id, length, continuation octet) to
  a last fragment: every fragment has its three header octets inside the packet and some
  data behind them; a fragment whose "more" bit is clear is the last one and stays inside
  the packet; a fragment whose "more" bit is set is followed by a continuation as above,
  from whose WiMAX header the chain goes on.
\<close>

inductive wimax_chain :: "u8 list \<Rightarrow> nat \<Rightarrow> nat \<Rightarrow> nat \<Rightarrow> bool"
  for mem :: "u8 list" and data :: nat and end' :: nat where
  last_fragment:
    "a + 3 \<le> end' \<Longrightarrow> 3 < unat (mem ! (a + 1)) \<Longrightarrow> a + unat (mem ! (a + 1)) \<le> end' \<Longrightarrow>
     (mem ! (a + 2)) AND 0x80 = 0 \<Longrightarrow> wimax_chain mem data end' a"
| more_fragments:
    "a + 3 \<le> end' \<Longrightarrow> 3 < unat (mem ! (a + 1)) \<Longrightarrow> (mem ! (a + 2)) AND 0x80 \<noteq> 0 \<Longrightarrow>
     wimax_continuation mem data end' (a + unat (mem ! (a + 1))) \<Longrightarrow>
     wimax_chain mem data end' (a + unat (mem ! (a + 1)) + 6) \<Longrightarrow>
     wimax_chain mem data end' a"

section \<open>Properties\<close>

lemma xor_digest_length: "length (xor_digest passwd n digest) = length passwd"
proof -
  have "length (foldl (\<lambda>p i. p[i + n := (p ! (i + n)) XOR (digest ! i)]) passwd is) = length passwd"
    for "is"
    by (induction "is" arbitrary: passwd) simp_all
  then show ?thesis by (simp add: xor_digest_def)
qed

lemma xor_fold_nth:
  "n + k \<le> length p \<Longrightarrow>
   length (foldl (\<lambda>p i. p[i + n := (p ! (i + n)) XOR (d ! i)]) p [0..<k]) = length p \<and>
   (\<forall>j < length p. foldl (\<lambda>p i. p[i + n := (p ! (i + n)) XOR (d ! i)]) p [0..<k] ! j =
        (if n \<le> j \<and> j < n + k then (p ! j) XOR (d ! (j - n)) else p ! j))"
proof (induction k)
  case 0
  then show ?case by auto
next
  case (Suc k)
  then show ?case
    by (auto simp: nth_list_update less_Suc_eq add.commute)
qed

lemma xor_digest_nth:
  assumes "n + 16 \<le> length p" and "j < length p"
  shows "xor_digest p n d ! j = (if n \<le> j \<and> j < n + 16 then (p ! j) XOR (d ! (j - n)) else p ! j)"
  using xor_fold_nth [of n 16 p d] assms by (simp add: xor_digest_def)

lemma xor_digest_xor_block:
  assumes "length P = 16"
  shows "xor_digest (xor_block P d @ rest) 0 d = P @ rest"
proof (rule nth_equalityI)
  show "length (xor_digest (xor_block P d @ rest) 0 d) = length (P @ rest)"
    using assms by (simp add: xor_digest_length xor_block_def)
next
  fix j assume "j < length (xor_digest (xor_block P d @ rest) 0 d)"
  then have j: "j < 16 + length rest" using assms by (simp add: xor_digest_length xor_block_def)
  show "xor_digest (xor_block P d @ rest) 0 d ! j = (P @ rest) ! j"
    using j assms by (simp add: xor_digest_nth nth_append xor.assoc xor_block_def)
qed

text \<open>
  C1. With the secret \<^verbatim>\<open>"testing123"\<close> and the request authenticator 00 01 .. 0f, the sixteen
  octets \<^verbatim>\<open>"hello"\<close> + 11 NULs XORed with MD5(secret || vector) decode to \<^verbatim>\<open>"hello"\<close>: for
  every digest function and every buffer that holds the ciphertext and at least one octet
  more (for the terminating NUL), \<^verbatim>\<open>fr_radius_decode_password\<close> leaves \<^verbatim>\<open>"hello"\<close>, NULs up to
  and including offset 16, in the buffer and returns 5.
\<close>

theorem decode_password_hello:
  assumes "rest \<noteq> []"
  shows "fr_radius_decode_password md5
           (xor_block hello_block (md5 (test_secret @ test_vector)) @ rest) 16
           test_secret test_vector
         = Inr (hello_block @ 0 # tl rest, 5)"
proof -
  have len: "length hello_block = 16" by (simp add: hello_block_def)
  have lv: "length test_vector = 16" by (simp add: test_vector_def)
  let ?c = "xor_block hello_block (md5 (test_secret @ test_vector)) @ rest"
  have lc: "length ?c = 16 + length rest" by (simp add: xor_block_def)
  have loop: "password_loop md5 (fr_md5_update [] test_secret) test_vector 16 0
                (fr_md5_update [] test_secret) ?c = Inr (hello_block @ rest)"
    using len lv lc
    by (subst password_loop.simps, subst password_loop.simps)
       (simp add: fr_md5_update_def xor_digest_xor_block xor_digest_length Let_def)
  have upd: "(hello_block @ rest)[16 := 0] = hello_block @ 0 # tl rest"
    using assms len by (cases rest) (simp_all add: list_update_append)
  have sl: "strlen (hello_block @ 0 # tl rest) = Inr 5"
    by (simp add: strlen_def hello_block_def)
  show ?thesis
    using assms len loop upd sl by (simp add: fr_radius_decode_password_def)
qed

theorem decode_password_hello_witness:
  "\<forall>md5. fr_radius_decode_password md5
           (xor_block hello_block (md5 (test_secret @ test_vector)) @ [0xff]) 16
           test_secret test_vector
         = Inr (hello_block @ [0], 5)"
  using decode_password_hello [of "[0xff]"] by simp

lemma tunnel_xor_length: "length (tunnel_xor passwd n base block_len digest) = length passwd"
proof -
  have "length (foldl (\<lambda>p i. p[n + i - 1 := (p ! (n + i + 2)) XOR (digest ! i)]) passwd is)
        = length passwd" for "is"
    by (induction "is" arbitrary: passwd) simp_all
  then show ?thesis by (simp add: tunnel_xor_def)
qed

lemma tunnel_loop_rest:
  "0 < n \<Longrightarrow> pwlen \<le> length passwd \<Longrightarrow> elen = pwlen - 2 \<Longrightarrow>
   \<exists>plain. tunnel_loop md5 old pwlen elen n ctx e passwd = Inr (True, plain, e)
           \<and> length plain = length passwd"
proof (induction md5 old pwlen elen n ctx e passwd rule: tunnel_loop.induct)
  case (1 md5 old pwlen elen n ctx e passwd)
  show ?case
  proof (cases "n < elen")
    case False
    then show ?thesis by (subst tunnel_loop.simps) simp
  next
    case True
    let ?bl = "if n + 2 + 16 > pwlen then pwlen - n - 2 else 16"
    have fit: "\<not> length passwd < n + 2 + ?bl" using True 1(4,5) by auto
    have "\<exists>plain. tunnel_loop md5 old pwlen elen (n + 16)
              (fr_md5_update old (take ?bl (drop (n + 2) passwd))) e
              (tunnel_xor passwd n 0 ?bl (md5 ctx)) = Inr (True, plain, e)
            \<and> length plain = length (tunnel_xor passwd n 0 ?bl (md5 ctx))"
      using 1(2) [OF True refl _ refl refl fit] 1(3,4,5) True fit
      by (simp add: tunnel_xor_length)
    then show ?thesis
      using True 1(3) fit
      by (subst tunnel_loop.simps) (simp add: Let_def tunnel_xor_length)
  qed
qed

lemma tunnel_decrypt_too_long:
  assumes "3 < pwlen" "2 < length passwd"
    and "pwlen - 2 < unat (passwd ! 2 XOR md5 (secret @ take 16 vector @ take 2 passwd) ! 0)"
  shows "tunnel_decrypt md5 passwd pwlen secret vector
         = Inr (False, passwd, unat (passwd ! 2 XOR md5 (secret @ take 16 vector @ take 2 passwd) ! 0))"
  using assms
  by (simp add: tunnel_decrypt_def Let_def fr_md5_update_def, subst tunnel_loop.simps)
     (simp add: Let_def)

lemma tunnel_decrypt_ok:
  assumes "3 < pwlen" "pwlen \<le> length passwd"
    and "E = unat (passwd ! 2 XOR md5 (secret @ take 16 vector @ take 2 passwd) ! 0)"
    and "E \<le> pwlen - 2"
  shows "\<exists>plain. tunnel_decrypt md5 passwd pwlen secret vector = Inr (True, plain, E)
           \<and> length plain = length passwd"
proof -
  let ?bl = "if 0 + 2 + 16 > pwlen then pwlen - 0 - 2 else 16"
  let ?d = "md5 (secret @ take 16 vector @ take 2 passwd)"
  have fit: "\<not> length passwd < 2 + ?bl" using assms(1,2) by auto
  have "\<exists>plain. tunnel_loop md5 (fr_md5_update [] secret) pwlen (pwlen - 2) (0 + 16)
            (fr_md5_update (fr_md5_update [] secret) (take ?bl (drop 2 passwd))) E
            (tunnel_xor passwd 0 1 ?bl ?d) = Inr (True, plain, E)
          \<and> length plain = length (tunnel_xor passwd 0 1 ?bl ?d)"
    by (rule tunnel_loop_rest) (use assms in \<open>simp_all add: tunnel_xor_length\<close>)
  then show ?thesis
    using assms fit
    by (simp add: tunnel_decrypt_def Let_def fr_md5_update_def, subst tunnel_loop.simps)
       (simp add: Let_def tunnel_xor_length fr_md5_update_def)
qed

lemma trailing_garbage_iff:
  "trailing_garbage p e (pwlen - 2) \<longleftrightarrow> (\<exists>i. e \<le> i \<and> i + 4 \<le> pwlen \<and> p ! i \<noteq> 0)"
proof
  assume "trailing_garbage p e (pwlen - 2)"
  then obtain i where i: "e \<le> i" "i < pwlen - 2 - 1" "p ! i \<noteq> 0"
    by (auto simp: trailing_garbage_def list_ex_iff)
  then have "i + 4 \<le> pwlen" by arith
  with i show "\<exists>i. e \<le> i \<and> i + 4 \<le> pwlen \<and> p ! i \<noteq> 0" by blast
next
  assume "\<exists>i. e \<le> i \<and> i + 4 \<le> pwlen \<and> p ! i \<noteq> 0"
  then obtain i where i: "e \<le> i" "i + 4 \<le> pwlen" "p ! i \<noteq> 0" by blast
  then have "i < pwlen - 2 - 1" by arith
  with i show "trailing_garbage p e (pwlen - 2)"
    by (auto simp: trailing_garbage_def list_ex_iff)
qed

text \<open>
  C5. \<^verbatim>\<open>fr_radius_decode_tunnel_password\<close>, called on a buffer that holds the \<open>pwlen\<close> octets
  and with a 16-octet vector: it returns -1 when \<open>pwlen < 2\<close>; when \<open>2 \<le> pwlen \<le> 3\<close> it returns
  0, sets \<^verbatim>\<open>*pwlen\<close> to 0 and leaves an empty NUL-terminated string; and when \<open>pwlen > 3\<close> it
  returns -1 whenever the embedded length E, the first decrypted octet
  \<open>passwd[2] XOR MD5(secret || vector || salt)[0]\<close>, exceeds \<open>pwlen - 2\<close>.
\<close>

theorem tunnel_password_length_checks:
  assumes "pwlen \<le> length passwd" and "16 \<le> length vector"
  shows "(pwlen < 2 \<longrightarrow>
            fr_radius_decode_tunnel_password md5 passwd pwlen secret vector zeros
            = Inr (-1, passwd, pwlen)) \<and>
         (2 \<le> pwlen \<and> pwlen \<le> 3 \<longrightarrow>
            fr_radius_decode_tunnel_password md5 passwd pwlen secret vector zeros
            = Inr (0, passwd[0 := 0], 0) \<and> passwd[0 := 0] ! 0 = 0) \<and>
         (3 < pwlen \<and>
          pwlen - 2 < unat (passwd ! 2 XOR md5 (secret @ take 16 vector @ take 2 passwd) ! 0) \<longrightarrow>
            fr_radius_decode_tunnel_password md5 passwd pwlen secret vector zeros
            = Inr (-1, passwd, pwlen))"
proof (intro conjI impI)
  assume "pwlen < 2"
  then show "fr_radius_decode_tunnel_password md5 passwd pwlen secret vector zeros
             = Inr (-1, passwd, pwlen)"
    by (simp add: fr_radius_decode_tunnel_password_def)
next
  assume a: "2 \<le> pwlen \<and> pwlen \<le> 3"
  then have ne: "passwd \<noteq> []" using assms(1) by auto
  show "fr_radius_decode_tunnel_password md5 passwd pwlen secret vector zeros
        = Inr (0, passwd[0 := 0], 0)"
    using a ne by (simp add: fr_radius_decode_tunnel_password_def)
  show "passwd[0 := 0] ! 0 = 0" using ne by simp
next
  assume a: "3 < pwlen \<and>
     pwlen - 2 < unat (passwd ! 2 XOR md5 (secret @ take 16 vector @ take 2 passwd) ! 0)"
  then have "tunnel_decrypt md5 passwd pwlen secret vector
     = Inr (False, passwd, unat (passwd ! 2 XOR md5 (secret @ take 16 vector @ take 2 passwd) ! 0))"
    using assms(1) by (intro tunnel_decrypt_too_long) auto
  then show "fr_radius_decode_tunnel_password md5 passwd pwlen secret vector zeros
             = Inr (-1, passwd, pwlen)"
    using a assms by (simp add: fr_radius_decode_tunnel_password_def)
qed

text \<open>
  C2, as amended. With \<open>pwlen > 3\<close> and embedded length \<open>E \<le> pwlen - 2\<close> the decryption loop
  succeeds and leaves the plaintext \<open>plain\<close> in the buffer (password octets from offset 0;
  the loop writes offsets \<open>0 .. pwlen - 4\<close> only). With \<^verbatim>\<open>tunnel_password_zeros\<close> clear the call
  succeeds and returns E. With the flag set it returns -1 if and only if some octet of
  \<open>plain\<close> at an offset in \<open>[E, pwlen - 4]\<close> is not zero (the loop bound is
  \<^verbatim>\<open>i < encrypted_len - 1\<close>, "-1 for length field"), and otherwise returns E as well.
\<close>

theorem tunnel_password_trailing_check:
  assumes "3 < pwlen" "pwlen \<le> length passwd" "16 \<le> length vector"
    and "E = unat (passwd ! 2 XOR md5 (secret @ take 16 vector @ take 2 passwd) ! 0)"
    and "E \<le> pwlen - 2"
  shows "\<exists>plain. tunnel_decrypt md5 passwd pwlen secret vector = Inr (True, plain, E) \<and>
           fr_radius_decode_tunnel_password md5 passwd pwlen secret vector False
             = Inr (int E, plain[E := 0], E) \<and>
           fr_radius_decode_tunnel_password md5 passwd pwlen secret vector True
             = (if \<exists>i. E \<le> i \<and> i + 4 \<le> pwlen \<and> plain ! i \<noteq> 0
                then Inr (-1, plain, pwlen) else Inr (int E, plain[E := 0], E))"
proof -
  obtain plain where p: "tunnel_decrypt md5 passwd pwlen secret vector = Inr (True, plain, E)"
    and l: "length plain = length passwd"
    using tunnel_decrypt_ok [of pwlen passwd E md5 secret vector] assms by blast
  have room: "\<not> length plain \<le> E" using assms(1,2,5) l by auto
  have "fr_radius_decode_tunnel_password md5 passwd pwlen secret vector False
          = Inr (int E, plain[E := 0], E)"
    using assms(1,2,3) p room by (simp add: fr_radius_decode_tunnel_password_def)
  moreover have "fr_radius_decode_tunnel_password md5 passwd pwlen secret vector True
          = (if \<exists>i. E \<le> i \<and> i + 4 \<le> pwlen \<and> plain ! i \<noteq> 0
             then Inr (-1, plain, pwlen) else Inr (int E, plain[E := 0], E))"
    using assms(1,2,3) p room
    by (auto simp: fr_radius_decode_tunnel_password_def trailing_garbage_iff)
  ultimately show ?thesis using p by blast
qed

lemma xor_cancel_u8: "(a XOR b) XOR a = (b :: u8)"
  by (simp add: xor.commute xor.left_commute)

lemma upt_1_4: "[Suc 0..<4] = [1, 2, 3]"
  by (simp add: upt_conv_Cons)

lemma upt_1_3: "[Suc 0..<3] = [1, 2]"
  by (simp add: upt_conv_Cons)

text \<open>
  C2 as stated, with the range \<open>[E, pwlen - 3]\<close>, fails: offset \<open>pwlen - 3\<close> is not inspected.
  For every digest function, with d = MD5(secret || vector || 80 00), the six octets
  \<open>80 00 (d0 XOR 1) 01 d2 d3\<close> decrypt to E = 1 and the buffer
  \<open>(d1 XOR 1) 00 00 01 d2 d3\<close>; the octet at offset \<open>pwlen - 3 = 3\<close> is 01, which lies in
  \<open>[E, pwlen - 3]\<close>, and the call with the flag set succeeds all the same.
\<close>

theorem tunnel_password_trailing_counterexample:
  "\<forall>md5. let d = md5 (test_secret @ test_vector @ [0x80, 0x00]);
              passwd = [0x80, 0x00, d ! 0 XOR 1, 1, d ! 2, d ! 3];
              plain = [1 XOR d ! 1, 0, 0, 1, d ! 2, d ! 3]
          in tunnel_decrypt md5 passwd 6 test_secret test_vector = Inr (True, plain, 1)
             \<and> (1::nat) \<le> 6 - 3 \<and> plain ! (6 - 3) \<noteq> 0
             \<and> fr_radius_decode_tunnel_password md5 passwd 6 test_secret test_vector True
                 = Inr (1, plain, 1)"
proof (intro allI)
  fix md5 :: "u8 list \<Rightarrow> u8 list"
  define d where "d = md5 (test_secret @ test_vector @ [0x80, 0x00])"
  have lv: "length test_vector = 16" by (simp add: test_vector_def)
  have dec: "tunnel_decrypt md5 [0x80, 0x00, d ! 0 XOR 1, 1, d ! 2, d ! 3] 6 test_secret test_vector
             = Inr (True, [1 XOR d ! 1, 0, 0, 1, d ! 2, d ! 3], 1)"
    using lv
    by (simp add: tunnel_decrypt_def Let_def fr_md5_update_def d_def [symmetric],
        subst tunnel_loop.simps, subst tunnel_loop.simps)
       (simp add: Let_def xor_cancel_u8 tunnel_xor_def upt_1_4 d_def [symmetric])
  have tg: "\<not> trailing_garbage [1 XOR d ! 1, 0, 0, 1, d ! 2, d ! 3] 1 4"
    by (simp add: trailing_garbage_def upt_1_3)
  show "let d = md5 (test_secret @ test_vector @ [0x80, 0x00]);
              passwd = [0x80, 0x00, d ! 0 XOR 1, 1, d ! 2, d ! 3];
              plain = [1 XOR d ! 1, 0, 0, 1, d ! 2, d ! 3]
          in tunnel_decrypt md5 passwd 6 test_secret test_vector = Inr (True, plain, 1)
             \<and> (1::nat) \<le> 6 - 3 \<and> plain ! (6 - 3) \<noteq> 0
             \<and> fr_radius_decode_tunnel_password md5 passwd 6 test_secret test_vector True
                 = Inr (1, plain, 1)"
    unfolding Let_def d_def [symmetric]
    using dec tg lv by (simp add: fr_radius_decode_tunnel_password_def)
qed

theorem tunnel_password_length_checks_witness:
  "\<forall>md5. (let d = md5 (test_secret @ test_vector @ [0x80, 0x00]) in
     fr_radius_decode_tunnel_password md5 [0x80] 1 test_secret test_vector True
       = Inr (-1, [0x80], 1) \<and>
     fr_radius_decode_tunnel_password md5 [0x80, 0x00, 0x07] 3 test_secret test_vector True
       = Inr (0, [0x00, 0x00, 0x07], 0) \<and>
     fr_radius_decode_tunnel_password md5 [0x80, 0x00, d ! 0 XOR 0xff, 0x09] 4
         test_secret test_vector True
       = Inr (-1, [0x80, 0x00, d ! 0 XOR 0xff, 0x09], 4))"
proof (intro allI)
  fix md5 :: "u8 list \<Rightarrow> u8 list"
  define d where "d = md5 (test_secret @ test_vector @ [0x80, 0x00])"
  have lv: "length test_vector = 16" by (simp add: test_vector_def)
  have a: "fr_radius_decode_tunnel_password md5 [0x80] 1 test_secret test_vector True
       = Inr (-1, [0x80], 1)"
    using tunnel_password_length_checks [of 1 "[0x80]" test_vector md5 test_secret True] lv by simp
  have b: "fr_radius_decode_tunnel_password md5 [0x80, 0x00, 0x07] 3 test_secret test_vector True
       = Inr (0, [0x00, 0x00, 0x07], 0)"
    using tunnel_password_length_checks [of 3 "[0x80, 0x00, 0x07]" test_vector md5 test_secret True] lv by simp
  have c: "fr_radius_decode_tunnel_password md5 [0x80, 0x00, d ! 0 XOR 0xff, 0x09] 4
         test_secret test_vector True
       = Inr (-1, [0x80, 0x00, d ! 0 XOR 0xff, 0x09], 4)"
    using tunnel_password_length_checks [of 4 "[0x80, 0x00, d ! 0 XOR 0xff, 0x09]" test_vector md5 test_secret True] lv
    by (simp add: xor_cancel_u8 d_def)
  show "let d = md5 (test_secret @ test_vector @ [0x80, 0x00]) in
     fr_radius_decode_tunnel_password md5 [0x80] 1 test_secret test_vector True
       = Inr (-1, [0x80], 1) \<and>
     fr_radius_decode_tunnel_password md5 [0x80, 0x00, 0x07] 3 test_secret test_vector True
       = Inr (0, [0x00, 0x00, 0x07], 0) \<and>
     fr_radius_decode_tunnel_password md5 [0x80, 0x00, d ! 0 XOR 0xff, 0x09] 4
         test_secret test_vector True
       = Inr (-1, [0x80, 0x00, d ! 0 XOR 0xff, 0x09], 4)"
    unfolding Let_def d_def [symmetric] using a b c by simp
qed

theorem tunnel_password_trailing_check_witness:
  "\<forall>md5. (let d = md5 (test_secret @ test_vector @ [0x80, 0x00]);
               passwd = [0x80, 0x00, d ! 0 XOR 1, 1, d ! 2, d ! 3]
     in \<exists>plain. tunnel_decrypt md5 passwd 6 test_secret test_vector = Inr (True, plain, 1) \<and>
           fr_radius_decode_tunnel_password md5 passwd 6 test_secret test_vector False
             = Inr (int 1, plain[1 := 0], 1) \<and>
           fr_radius_decode_tunnel_password md5 passwd 6 test_secret test_vector True
             = (if \<exists>i. 1 \<le> i \<and> i + 4 \<le> 6 \<and> plain ! i \<noteq> 0
                then Inr (-1, plain, 6) else Inr (int 1, plain[1 := 0], 1)))"
  unfolding Let_def
  by (intro allI, rule tunnel_password_trailing_check) (simp_all add: test_vector_def test_secret_def xor_cancel_u8)

lemma tlv_units_step:
  assumes T: "T \<in> {1, 2, 4}" and W: "W \<in> {1, 2}"
  shows "(\<exists>us. xs = concat us \<and> list_all (tlv_unit T W) us) \<longleftrightarrow>
         (xs = [] \<or>
          (T + W \<le> length xs \<and> tlv_id_ok T xs \<and> (W = 2 \<longrightarrow> xs ! T = 0) \<and>
           T + W \<le> unat (xs ! (T + W - 1)) \<and> unat (xs ! (T + W - 1)) \<le> length xs \<and>
           (\<exists>us. drop (unat (xs ! (T + W - 1))) xs = concat us \<and> list_all (tlv_unit T W) us)))"
    (is "?L \<longleftrightarrow> ?R")
proof
  assume ?L
  then obtain us where us: "xs = concat us" "list_all (tlv_unit T W) us" by blast
  show ?R
  proof (cases us)
    case Nil
    with us show ?thesis by simp
  next
    case (Cons u us')
    then have u: "tlv_unit T W u" and r: "list_all (tlv_unit T W) us'" and x: "xs = u @ concat us'"
      using us by simp_all
    have lu: "T + W \<le> length u" using u by (simp add: tlv_unit_def)
    have hd: "\<And>k. k < T + W \<Longrightarrow> xs ! k = u ! k" using lu x by (simp add: nth_append)
    have a: "unat (xs ! (T + W - 1)) = length u"
      using u hd [of "T + W - 1"] T W by (auto simp: tlv_unit_def)
    have id: "tlv_id_ok T xs"
      using u hd T W unfolding tlv_unit_def tlv_id_ok_def by auto
    have z: "W = 2 \<longrightarrow> xs ! T = 0"
      using u hd [of T] T W by (auto simp: tlv_unit_def)
    have d: "drop (unat (xs ! (T + W - 1))) xs = concat us'" using a x by simp
    show ?thesis using lu x a id z d r by auto
  qed
next
  assume R: ?R
  show ?L
  proof (cases "xs = []")
    case True
    then have "xs = concat [] \<and> list_all (tlv_unit T W) []" by simp
    then show ?thesis by blast
  next
    case False
    define a where "a = unat (xs ! (T + W - 1))"
    from R False obtain us' where
      h: "T + W \<le> length xs" "tlv_id_ok T xs" "W = 2 \<longrightarrow> xs ! T = 0" "T + W \<le> a" "a \<le> length xs"
      and us': "drop a xs = concat us'" "list_all (tlv_unit T W) us'"
      unfolding a_def by blast
    have tk: "\<And>k. k < T + W \<Longrightarrow> take a xs ! k = xs ! k" using h(4) by simp
    have t0: "take a xs ! 0 = xs ! 0" using tk [of 0] T by auto
    have t1: "1 < T \<Longrightarrow> take a xs ! 1 = xs ! 1" using tk [of 1] by auto
    have t2: "T = 4 \<Longrightarrow> take a xs ! 2 = xs ! 2" using tk [of 2] by auto
    have t3: "T = 4 \<Longrightarrow> take a xs ! 3 = xs ! 3" using tk [of 3] by auto
    have tT: "take a xs ! T = xs ! T" using tk [of T] W by auto
    have tL: "take a xs ! (T + W - 1) = xs ! (T + W - 1)" using tk [of "T + W - 1"] T by auto
    have id: "tlv_id_ok T (take a xs)"
      using h(2) T t0 t1 t2 t3 unfolding tlv_id_ok_def by auto
    have "tlv_unit T W (take a xs)"
      unfolding tlv_unit_def tT tL using h id by (simp add: a_def)
    moreover have "xs = concat (take a xs # us')"
      using us' append_take_drop_id [of a xs] by simp
    ultimately have "xs = concat (take a xs # us') \<and> list_all (tlv_unit T W) (take a xs # us')"
      using us' by simp
    then show ?thesis by blast
  qed
qed

lemma tlv_ok_loop_step_raw:
  assumes T: "T \<in> {1, 2, 4}" and W: "W \<in> {1, 2}" and fit: "data + len \<le> length mem"
    and pos: "0 < len"
  shows "tlv_ok_loop mem T W (data + len) data len =
         (if T + W \<le> len \<and>
             (\<not> (T = 4 \<and> mem ! data = 0 \<and> mem ! (data + 1) = 0 \<and> mem ! (data + 2) = 0
                 \<and> mem ! (data + 3) = 0) \<and>
              \<not> (T = 4 \<and> mem ! data \<noteq> 0) \<and>
              \<not> (T = 2 \<and> mem ! data = 0 \<and> mem ! (data + 1) = 0))
              \<and> (W = 2 \<longrightarrow> mem ! (data + T) = 0)
              \<and> T + W \<le> unat (mem ! (data + T + W - 1))
              \<and> unat (mem ! (data + T + W - 1)) \<le> len
          then tlv_ok_loop mem T W (data + len)
                 (data + unat (mem ! (data + T + W - 1)))
                 (len - unat (mem ! (data + T + W - 1)))
          else Inr (-1))"
proof -
  have "T = 1 \<or> T = 2 \<or> T = 4" and "W = 1 \<or> W = 2" using T W by auto
  then show ?thesis
    using fit pos by (elim disjE; subst tlv_ok_loop.simps; auto simp: Let_def)
qed

lemma tlv_ok_loop_step:
  assumes T: "T \<in> {1, 2, 4}" and W: "W \<in> {1, 2}" and fit: "data + len \<le> length mem"
    and pos: "0 < len" and xs: "xs = take len (drop data mem)"
  shows "tlv_ok_loop mem T W (data + len) data len =
         (if T + W \<le> len \<and> tlv_id_ok T xs
              \<and> (W = 2 \<longrightarrow> xs ! T = 0)
              \<and> T + W \<le> unat (xs ! (T + W - 1))
              \<and> unat (xs ! (T + W - 1)) \<le> len
          then tlv_ok_loop mem T W (data + len)
                 (data + unat (xs ! (T + W - 1)))
                 (len - unat (xs ! (T + W - 1)))
          else Inr (-1))"
proof (cases "T + W \<le> len")
  case False
  then show ?thesis using pos by (subst tlv_ok_loop.simps) simp
next
  case True
  have nx: "\<And>k. k < T + W \<Longrightarrow> xs ! k = mem ! (data + k)"
    using True fit xs by simp
  have n0: "xs ! 0 = mem ! data" using nx [of 0] T by auto
  have n1: "1 < T \<Longrightarrow> xs ! 1 = mem ! (data + 1)" using nx [of 1] by auto
  have n2: "T = 4 \<Longrightarrow> xs ! 2 = mem ! (data + 2)" using nx [of 2] by auto
  have n3: "T = 4 \<Longrightarrow> xs ! 3 = mem ! (data + 3)" using nx [of 3] by auto
  have nT: "xs ! T = mem ! (data + T)" using nx [of T] W by auto
  have nL: "xs ! (T + W - 1) = mem ! (data + T + W - 1)"
    using nx [of "T + W - 1"] T W by (auto simp: add.assoc)
  have id: "tlv_id_ok T xs \<longleftrightarrow>
            (\<not> (T = 4 \<and> mem ! data = 0 \<and> mem ! (data + 1) = 0 \<and> mem ! (data + 2) = 0
                 \<and> mem ! (data + 3) = 0) \<and>
             \<not> (T = 4 \<and> mem ! data \<noteq> 0) \<and>
             \<not> (T = 2 \<and> mem ! data = 0 \<and> mem ! (data + 1) = 0))"
    unfolding tlv_id_ok_def using n0 n1 n2 n3 by auto
  show ?thesis
    unfolding id nT nL by (rule tlv_ok_loop_step_raw [OF T W fit pos])
qed

lemma tlv_ok_loop_units:
  assumes T: "T \<in> {1, 2, 4}" and W: "W \<in> {1, 2}"
  shows "data + len \<le> length mem \<Longrightarrow>
         tlv_ok_loop mem T W (data + len) data len =
         (if \<exists>us. take len (drop data mem) = concat us \<and> list_all (tlv_unit T W) us
          then Inr 0 else Inr (-1))"
proof (induction len arbitrary: data rule: less_induct)
  case (less len)
  define xs where "xs = take len (drop data mem)"
  show ?case
  proof (cases "len = 0")
    case True
    have "xs = concat [] \<and> list_all (tlv_unit T W) []" using True by (simp add: xs_def)
    then have "\<exists>us. xs = concat us \<and> list_all (tlv_unit T W) us" by blast
    then show ?thesis
      unfolding xs_def [symmetric] using True by (subst tlv_ok_loop.simps) simp
  next
    case False
    define a where "a = unat (xs ! (T + W - 1))"
    have lx: "length xs = len" using less.prems by (simp add: xs_def)
    have ne: "xs \<noteq> []" using lx False by auto
    have step: "tlv_ok_loop mem T W (data + len) data len =
         (if T + W \<le> len \<and> tlv_id_ok T xs \<and> (W = 2 \<longrightarrow> xs ! T = 0) \<and> T + W \<le> a \<and> a \<le> len
          then tlv_ok_loop mem T W (data + len) (data + a) (len - a) else Inr (-1))"
      unfolding a_def using tlv_ok_loop_step [OF T W less.prems _ xs_def] False by simp
    have spec: "(\<exists>us. xs = concat us \<and> list_all (tlv_unit T W) us) \<longleftrightarrow>
          (T + W \<le> len \<and> tlv_id_ok T xs \<and> (W = 2 \<longrightarrow> xs ! T = 0) \<and> T + W \<le> a \<and> a \<le> len \<and>
           (\<exists>us. drop a xs = concat us \<and> list_all (tlv_unit T W) us))"
      unfolding a_def using tlv_units_step [OF T W, of xs] ne lx by simp
    show ?thesis
    proof (cases "T + W \<le> len \<and> tlv_id_ok T xs \<and> (W = 2 \<longrightarrow> xs ! T = 0) \<and> T + W \<le> a \<and> a \<le> len")
      case ok: True
      have apos: "0 < a" using ok T by auto
      have dr: "drop a xs = take (len - a) (drop (data + a) mem)"
        by (simp add: xs_def drop_take add.commute)
      have e: "data + a + (len - a) = data + len" using ok by simp
      have "tlv_ok_loop mem T W (data + a + (len - a)) (data + a) (len - a) =
                (if \<exists>us. take (len - a) (drop (data + a) mem) = concat us
                        \<and> list_all (tlv_unit T W) us
                 then Inr 0 else Inr (-1))"
        by (rule less.IH) (use less.prems ok apos False in auto)
      then have ih: "tlv_ok_loop mem T W (data + len) (data + a) (len - a) =
                (if \<exists>us. drop a xs = concat us \<and> list_all (tlv_unit T W) us
                 then Inr 0 else Inr (-1))"
        unfolding dr e .
      show ?thesis
        unfolding xs_def [symmetric] spec step ih using ok by simp
    next
      case bad: False
      show ?thesis
        unfolding xs_def [symmetric] spec step using bad by auto
    qed
  qed
qed

lemma tlv_ok_loop_single:
  assumes T: "T \<in> {1, 2, 4}" and fit: "data + len \<le> length mem"
  shows "tlv_ok_loop mem T 0 (data + len) data len =
         (if take len (drop data mem) = [] \<or> (T \<le> len \<and> tlv_id_ok T (take len (drop data mem)))
          then Inr 0 else Inr (-1))"
proof (cases "T \<le> len")
  case False
  then show ?thesis using fit by (subst tlv_ok_loop.simps) auto
next
  case True
  have nx: "\<And>k. k < T \<Longrightarrow> take len (drop data mem) ! k = mem ! (data + k)"
    using True fit by simp
  have n0: "take len (drop data mem) ! 0 = mem ! data" using nx [of 0] T by auto
  have n1: "1 < T \<Longrightarrow> take len (drop data mem) ! 1 = mem ! (data + 1)" using nx [of 1] by auto
  have n2: "T = 4 \<Longrightarrow> take len (drop data mem) ! 2 = mem ! (data + 2)" using nx [of 2] by auto
  have n3: "T = 4 \<Longrightarrow> take len (drop data mem) ! 3 = mem ! (data + 3)" using nx [of 3] by auto
  have id: "tlv_id_ok T (take len (drop data mem)) \<longleftrightarrow>
            \<not> (T = 4 \<and> mem ! data = 0 \<and> mem ! (data + 1) = 0 \<and> mem ! (data + 2) = 0
                 \<and> mem ! (data + 3) = 0) \<and>
            \<not> (T = 4 \<and> mem ! data \<noteq> 0) \<and>
            \<not> (T = 2 \<and> mem ! data = 0 \<and> mem ! (data + 1) = 0)"
    unfolding tlv_id_ok_def using n0 n1 n2 n3 by auto
  have "T = 1 \<or> T = 2 \<or> T = 4" using T by auto
  then show ?thesis
    unfolding id using True fit
    by (elim disjE; subst tlv_ok_loop.simps; auto simp: Let_def)
qed

text \<open>
  C4. For T in {1, 2, 4} and W in {0, 1, 2}, on a slice that lies inside the buffer,
  \<^verbatim>\<open>fr_radius_decode_tlv_ok\<close> returns 0 if the slice is well formed in the sense of
  \<open>tlv_stream\<close> (a concatenation of units [T-octet id | W-octet length | value] with the
  demands on ids, on the high length octet and on the reported length; with W = 0 only the
  first header is validated), and returns -1 otherwise.
\<close>

theorem tlv_ok_iff_stream:
  assumes "T \<in> {1, 2, 4}" and "W \<in> {0, 1, 2}" and "data + len \<le> length mem"
  shows "fr_radius_decode_tlv_ok mem data len T W =
         (if tlv_stream T W (take len (drop data mem)) then Inr 0 else Inr (-1))"
proof (cases "W = 0")
  case True
  then show ?thesis
    using assms tlv_ok_loop_single [OF assms(1,3)]
    by (auto simp: fr_radius_decode_tlv_ok_def tlv_stream_def)
next
  case False
  then have W: "W \<in> {1, 2}" using assms(2) by auto
  show ?thesis
    using assms(1) W False tlv_ok_loop_units [OF assms(1) W assms(3)]
    by (auto simp: fr_radius_decode_tlv_ok_def tlv_stream_def)
qed

theorem tlv_ok_iff_stream_witness:
  "fr_radius_decode_tlv_ok [1, 3, 0xAA, 2, 2] 0 5 1 1 = Inr 0 \<and>
   tlv_stream 1 1 [1, 3, 0xAA, 2, 2 :: u8] \<and>
   fr_radius_decode_tlv_ok [1, 1, 0] 0 3 1 1 = Inr (-1) \<and>
   \<not> tlv_stream 1 1 [1, 1, 0 :: u8] \<and>
   fr_radius_decode_tlv_ok [0, 0, 9, 7] 0 4 4 0 = Inr 0 \<and>
   tlv_stream 4 0 [0, 0, 9, 7 :: u8]"
proof -
  have a: "fr_radius_decode_tlv_ok [1, 3, 0xAA, 2, 2] 0 5 1 1 = Inr 0"
    by code_simp
  have b: "fr_radius_decode_tlv_ok [1, 1, 0] 0 3 1 1 = Inr (-1)"
    by code_simp
  have c: "fr_radius_decode_tlv_ok [0, 0, 9, 7] 0 4 4 0 = Inr 0"
    by code_simp
  show ?thesis
    using tlv_ok_iff_stream [of 1 1 0 5 "[1, 3, 0xAA, 2, 2]"] tlv_ok_iff_stream [of 1 1 0 3 "[1, 1, 0]"]
      tlv_ok_iff_stream [of 4 0 0 4 "[0, 0, 9, 7]"] a b c
    by (simp split: if_splits)
qed

lemma concat_walk_total:
  "concat_walk mem attr end' ptr t = Inr (Some (e, t')) \<Longrightarrow> t \<le> t' \<and> (ptr < end' \<longrightarrow> t < t')"
proof (induction mem attr end' ptr t rule: concat_walk.induct)
  case (1 mem attr end' ptr t)
  show ?case
  proof (cases "ptr < end'")
    case False
    then show ?thesis using 1(2) by (subst (asm) concat_walk.simps) simp
  next
    case True
    let ?l = "unat (mem ! (ptr + 1))"
    from 1(2) True have ok: "\<not> length mem \<le> ptr + 1" "\<not> ?l \<le> 2" "\<not> ptr + ?l > end'"
      by (subst (asm) concat_walk.simps, auto split: if_splits)+
    show ?thesis
    proof (cases "ptr + ?l = end' \<or> mem ! (ptr + ?l) \<noteq> attr")
      case True
      with 1(2) \<open>ptr < end'\<close> ok show ?thesis
        by (subst (asm) concat_walk.simps) (auto simp: Let_def split: if_splits)
    next
      case False
      with 1(2) \<open>ptr < end'\<close> ok
      have len: "\<not> length mem \<le> ptr + ?l"
        and rec: "concat_walk mem attr end' (ptr + ?l) (t + (?l - 2)) = Inr (Some (e, t'))"
        by (subst (asm) concat_walk.simps, auto simp: Let_def split: if_splits)+
      have "t + (?l - 2) \<le> t'"
        using 1(1) [OF \<open>ptr < end'\<close> ok refl refl _ len _ rec] False by simp
      then show ?thesis using ok by auto
    qed
  qed
qed

lemma concat_walk_end:
  "concat_walk mem attr end' ptr t = Inr (Some (e, t')) \<Longrightarrow> ptr < end' \<Longrightarrow> ptr + 2 < e"
proof (induction mem attr end' ptr t rule: concat_walk.induct)
  case (1 mem attr end' ptr t)
  let ?l = "unat (mem ! (ptr + 1))"
  from 1(2,3) have ok: "\<not> length mem \<le> ptr + 1" "\<not> ?l \<le> 2" "\<not> ptr + ?l > end'"
    by (subst (asm) concat_walk.simps, auto split: if_splits)+
  show ?case
  proof (cases "ptr + ?l = end' \<or> mem ! (ptr + ?l) \<noteq> attr")
    case True
    with 1(2,3) ok show ?thesis
      by (subst (asm) concat_walk.simps) (auto simp: Let_def split: if_splits)
  next
    case False
    with 1(2,3) ok
    have len: "\<not> length mem \<le> ptr + ?l"
      and rec: "concat_walk mem attr end' (ptr + ?l) (t + (?l - 2)) = Inr (Some (e, t'))"
      by (subst (asm) concat_walk.simps, auto simp: Let_def split: if_splits)+
    have lt: "ptr + ?l < end'" using ok False by simp
    have "ptr + ?l + 2 < e"
      using 1(1) [OF 1(3) ok refl refl _ len _ rec lt] False by simp
    then show ?thesis by simp
  qed
qed

lemma concat_walk_empty_value:
  "ptr < end' \<Longrightarrow> ptr + 1 < length mem \<Longrightarrow> unat (mem ! (ptr + 1)) \<le> 2 \<Longrightarrow>
   concat_walk mem attr end' ptr t = Inr None"
  by (subst concat_walk.simps) simp

text \<open>
  C9, amended. \<^verbatim>\<open>decode_concat\<close> ends its first loop with a total of zero on the empty
  slice only (\<open>packet_len = 0\<close>); there it emits no pair and returns 2. On a slice that is
  not empty it never does so: a first attribute with an empty value (a length octet of 2 or
  less) makes it return -1 with nothing emitted; and where it returns at all, it returns
  either -1 with the cursor as it was, or more than 2 with exactly one pair appended.
\<close>

theorem decode_concat_empty_value:
  assumes "data < length mem"
  shows "(packet_len = 0 \<longrightarrow>
            decode_concat env cursor parent mem data packet_len = Inr (2, cursor)) \<and>
         (0 < packet_len \<and> data + 1 < length mem \<and> unat (mem ! (data + 1)) \<le> 2 \<longrightarrow>
            decode_concat env cursor parent mem data packet_len = Inr (-1, cursor)) \<and>
         (\<forall>e t. concat_walk mem (mem ! data) (data + packet_len) data 0 = Inr (Some (e, t)) \<longrightarrow>
            (t = 0 \<longleftrightarrow> packet_len = 0)) \<and>
         (\<forall>rc cursor'. 0 < packet_len \<and>
            decode_concat env cursor parent mem data packet_len = Inr (rc, cursor') \<longrightarrow>
            rc = -1 \<and> cursor' = cursor \<or> 2 < rc \<and> (\<exists>vp. cursor' = cursor @ [vp]))"
proof (intro conjI allI impI)
  assume "packet_len = 0"
  then show "decode_concat env cursor parent mem data packet_len = Inr (2, cursor)"
    using assms by (simp add: decode_concat_def concat_walk.simps [of mem _ data data])
next
  assume "0 < packet_len \<and> data + 1 < length mem \<and> unat (mem ! (data + 1)) \<le> 2"
  then show "decode_concat env cursor parent mem data packet_len = Inr (-1, cursor)"
    using assms concat_walk_empty_value [of data "data + packet_len" mem "mem ! data" 0]
    by (simp add: decode_concat_def)
next
  fix e t
  assume w: "concat_walk mem (mem ! data) (data + packet_len) data 0 = Inr (Some (e, t))"
  show "t = 0 \<longleftrightarrow> packet_len = 0"
  proof
    assume "t = 0"
    then show "packet_len = 0" using concat_walk_total [OF w] by auto
  next
    assume "packet_len = 0"
    then show "t = 0" using w by (subst (asm) concat_walk.simps) simp
  qed
next
  fix rc cursor'
  assume a: "0 < packet_len \<and>
             decode_concat env cursor parent mem data packet_len = Inr (rc, cursor')"
  then have pos: "data < data + packet_len" by simp
  show "rc = -1 \<and> cursor' = cursor \<or> 2 < rc \<and> (\<exists>vp. cursor' = cursor @ [vp])"
  proof (cases "concat_walk mem (mem ! data) (data + packet_len) data 0")
    case (Inl e)
    then show ?thesis using a assms by (simp add: decode_concat_def)
  next
    case (Inr r)
    show ?thesis
    proof (cases r)
      case None
      then show ?thesis using a assms Inr by (simp add: decode_concat_def)
    next
      case (Some et)
      obtain e t where et: "et = (e, t)" by (cases et)
      have w: "concat_walk mem (mem ! data) (data + packet_len) data 0 = Inr (Some (e, t))"
        using Inr Some et by simp
      have t: "t \<noteq> 0" using concat_walk_total [OF w] pos by auto
      have e: "data + 2 < e" using concat_walk_end [OF w pos] .
      show ?thesis
        using a assms w t e
        by (auto simp: decode_concat_def split: sum.splits)
    qed
  qed
qed

theorem decode_concat_empty_value_witness:
  "(\<forall>env cursor parent. decode_concat env cursor parent [79, 2, 1, 3, 0x41] 0 0
                          = Inr (2, cursor)) \<and>
   (\<forall>env cursor parent. decode_concat env cursor parent [79, 2, 1, 3, 0x41] 0 5
                          = Inr (-1, cursor))"
proof (intro conjI allI)
  fix env :: decode_env and cursor :: cursor and parent :: fr_dict_attr
  show "decode_concat env cursor parent [79, 2, 1, 3, 0x41] 0 0 = Inr (2, cursor)"
    using decode_concat_empty_value [of 0 "[79, 2, 1, 3, 0x41]" 0 env cursor parent] by simp
  show "decode_concat env cursor parent [79, 2, 1, 3, 0x41] 0 5 = Inr (-1, cursor)"
    using decode_concat_empty_value [of 0 "[79, 2, 1, 3, 0x41]" 5 env cursor parent] by simp
qed

text \<open>
  C9 as stated fails on the inputs it is about. An EAP-Message with an empty value, alone
  (\<open>4F 02\<close>) or in front of another attribute, has a concatenated value of length zero;
  \<^verbatim>\<open>decode_concat\<close> does not return 2 for it but -1, from the check of the length octet
  in the first loop, which comes before the test of the total.
\<close>

theorem decode_concat_zero_total_counterexample:
  "(\<forall>env cursor parent. decode_concat env cursor parent [79, 2] 0 2 = Inr (-1, cursor)) \<and>
   (\<forall>env cursor parent. decode_concat env cursor parent [79, 2, 1, 3, 0x41] 0 5
                          = Inr (-1, cursor)) \<and>
   fr_radius_decode_pair (Suc 0) example_env None [] [79, 2, 1, 3, 0x41] 0 5 = Inr (-1, [])"
proof -
  have a: "concat_walk [79, 2] 79 (0 + 2) 0 0 = Inr None"
    by (subst concat_walk.simps) simp
  have b: "concat_walk [79, 2, 1, 3, 0x41] 79 (0 + 5) 0 0 = Inr None"
    by (subst concat_walk.simps) simp
  show ?thesis
    using a b
    by (simp add: decode_concat_def fr_radius_decode_pair_def example_env_def
        ex_child_by_num_def ex_root_def ex_eap_message_def no_flags_def)
qed

subsection \<open>Running the decoder on the example dictionary\<close>

lemmas ex_defs = example_env_def ex_child_by_num_def ex_attr_sizes_def ex_root_def
  ex_user_name_def ex_extended_def ex_extended_1_def ex_tunnel_endpoint_def ex_eap_message_def
  ex_cui_def ex_vsa_def ex_vendor_9_def ex_vendor_9_1_def ex_unknown_def no_flags_def ex_pair_def

lemma decode_tag_untagged:
  "\<not> has_tag (da_flags parent) \<Longrightarrow>
   decode_tag env parent mem data attr_len = Inr (Some (TAG_NONE, mem, data, attr_len, False))"
  by (simp add: decode_tag_def)

lemma decrypt_value_none:
  "packet_ctx = None \<or> subtype (da_flags parent) = FLAG_ENCRYPT_NONE \<Longrightarrow>
   decrypt_value env packet_ctx parent mem data attr_len pmem poff data_len in_buffer
   = Inr (Decrypt_Ok pmem poff data_len)"
  by (cases packet_ctx) (auto simp: decrypt_value_def)

lemma emit_value_box:
  assumes "da_type parent \<in> set box_types" and "poff + data_len \<le> length pmem"
    and "value_box_from_network env (da_type parent) parent (take data_len (drop poff pmem))
         = Some v"
  shows "emit_value (Suc k) env cursor parent tag pmem poff data_len min' attr_len
         = Inr (int attr_len, cursor @ [(pair_afrom_da env parent)
              \<lparr>vp_tag := tag, vp_data := v, vp_type := VT_DATA, vp_tainted := True\<rparr>])"
  using assms by (simp add: append_pair_def Let_def)

lemma box_types_values: "t \<in> set box_types \<Longrightarrow> t \<in> set FR_TYPE_VALUES"
  by (simp add: FR_TYPE_VALUES_def)

lemma pair_value_body_plain:
  assumes "\<not> has_tag (da_flags parent)"
    and "packet_ctx = None \<or> subtype (da_flags parent) = FLAG_ENCRYPT_NONE"
    and "0 < attr_len" "attr_len \<le> packet_len" "attr_len \<le> 128 * 1024"
    and "fst (attr_sizes env (da_type parent)) \<le> attr_len"
    and "attr_len \<le> snd (attr_sizes env (da_type parent))"
    and "da_type parent \<in> set box_types" and "data + attr_len \<le> length mem"
    and "value_box_from_network env (da_type parent) parent (take attr_len (drop data mem))
         = Some v"
  shows "pair_value_body (Suc k) env packet_ctx dpv cursor parent mem data attr_len packet_len
         = Inr (int attr_len, cursor @ [(pair_afrom_da env parent)
              \<lparr>vp_tag := TAG_NONE, vp_data := v, vp_type := VT_DATA, vp_tainted := True\<rparr>])"
  using assms
  by (simp add: pair_value_body_def decode_tag_untagged decrypt_value_none emit_value_box
      box_types_values Let_def del: emit_value.simps)

lemma strict_env_simps:
  "child_by_num strict_env = ex_child_by_num"
  "unknown_afrom_fields strict_env = (\<lambda>parent vendor n. None)"
  "attr_sizes strict_env = ex_attr_sizes"
  "pair_afrom_da strict_env = ex_pair"
  "value_box_from_network strict_env = (\<lambda>t da bytes. Some (VP_BOX t bytes))"
  "vendor_num_by_da strict_env = (\<lambda>da. 0)"
  by (simp_all add: strict_env_def example_env_def)

lemma example_env_simps:
  "child_by_num example_env = ex_child_by_num"
  "unknown_afrom_fields example_env = (\<lambda>parent vendor n. Some (ex_unknown parent n))"
  "attr_sizes example_env = ex_attr_sizes"
  "pair_afrom_da example_env = ex_pair"
  "value_box_from_network example_env = (\<lambda>t da bytes. Some (VP_BOX t bytes))"
  "vendor_num_by_da example_env = (\<lambda>da. 0)"
  "dict_root example_env = ex_root"
  "uninit example_env = 0xcd"
  by (simp_all add: example_env_def)

lemma string_leaf:
  assumes "da_type da = FR_TYPE_STRING \<or> da_type da = FR_TYPE_OCTETS"
    and "\<not> has_tag (da_flags da)" and "0 < n" "n \<le> 1024" "data + n \<le> length mem"
    and "env = example_env \<or> env = strict_env"
  shows "fr_radius_decode_pair_value (Suc (Suc k)) env None cursor da mem data n n
         = Inr (int n, cursor @ [\<lparr>vp_da = da, vp_tag = TAG_NONE, vp_type = VT_DATA,
                  vp_tainted = True,
                  vp_data = VP_BOX (da_type da) (take n (drop data mem))\<rparr>])"
  using assms
    pair_value_body_plain [of da None n n env data mem
      "VP_BOX (da_type da) (take n (drop data mem))" k
      "fr_radius_decode_pair_value (Suc k) env None" cursor]
  by (auto simp add: example_env_simps strict_env_simps ex_attr_sizes_def box_types_def
      ex_pair_def simp del: fr_radius_decode_pair_value.simps(2) emit_value.simps
      simp add: fr_radius_decode_pair_value.simps(2) [of "Suc k"])


subsection \<open>Empty attributes\<close>

text \<open>
  C10. A call of \<^verbatim>\<open>fr_radius_decode_pair\<close> with \<open>data_len = 2\<close> on a lone empty attribute
  (the length octet is 2), for an attribute the dictionary finds or can build as an unknown
  attribute, returns 2. It appends nothing to the cursor, unless the root of the dictionary
  is a protocol root and the type octet is Chargeable-User-Identity (89): then it appends
  exactly one pair, made by \<^verbatim>\<open>fr_pair_afrom_da\<close> with no value, and tainted. An empty
  attribute that is followed by more data (\<open>data_len > 2\<close>) is not treated so: nothing is
  appended for it, Chargeable-User-Identity or not; the result is 2, or -1 from
  \<^verbatim>\<open>decode_concat\<close> for an attribute flagged concat.
\<close>

theorem decode_pair_empty_attribute:
  assumes "(case child_by_num env (dict_root env) (unat (mem ! data)) of
              Some da \<Rightarrow> Some da
            | None \<Rightarrow> unknown_afrom_fields env (Some (dict_root env)) 0 (unat (mem ! data)))
           = Some da"
    and "data + 1 < length mem" and "mem ! (data + 1) = 2"
  shows "fr_radius_decode_pair n env packet_ctx cursor mem data 2 =
           Inr (2, if is_root (da_flags (dict_root env))
                      \<and> unat (mem ! data) = FR_CHARGEABLE_USER_IDENTITY
                   then cursor @ [(pair_afrom_da env da)\<lparr>vp_tainted := True\<rparr>]
                   else cursor) \<and>
         (\<forall>data_len > 2.
            fr_radius_decode_pair (Suc n) env packet_ctx cursor mem data data_len =
              (if concat_flag (da_flags da) then Inr (-1, cursor) else Inr (2, cursor)))"
proof (intro conjI allI impI)
  show "fr_radius_decode_pair n env packet_ctx cursor mem data 2 =
           Inr (2, if is_root (da_flags (dict_root env))
                      \<and> unat (mem ! data) = FR_CHARGEABLE_USER_IDENTITY
                   then cursor @ [(pair_afrom_da env da)\<lparr>vp_tainted := True\<rparr>]
                   else cursor)"
    using assms by (simp add: fr_radius_decode_pair_def)
next
  fix data_len :: nat
  assume big: "2 < data_len"
  have len: "\<not> length mem \<le> data" using assms(2) by simp
  have walk: "concat_walk mem (mem ! data) (data + data_len) data 0 = Inr None"
    using assms(2,3) big by (subst concat_walk.simps) simp
  show "fr_radius_decode_pair (Suc n) env packet_ctx cursor mem data data_len =
          (if concat_flag (da_flags da) then Inr (-1, cursor) else Inr (2, cursor))"
    using assms big walk len
    by (simp add: fr_radius_decode_pair_def decode_concat_def pair_value_body_def)
qed

theorem decode_pair_empty_attribute_witness:
  "fr_radius_decode_pair 0 example_env None [] [89, 2] 0 2
     = Inr (2, [(ex_pair ex_cui)\<lparr>vp_tainted := True\<rparr>]) \<and>
   fr_radius_decode_pair 0 example_env None [] [1, 2] 0 2 = Inr (2, []) \<and>
   fr_radius_decode_pair (Suc 0) example_env None [] [89, 2, 1, 3, 0x41] 0 5 = Inr (2, []) \<and>
   fr_radius_decode_pair (Suc 0) example_env None [] [79, 2, 1, 3, 0x41] 0 5 = Inr (-1, [])"
proof -
  have a: "fr_radius_decode_pair 0 example_env None [] [89, 2] 0 2
     = Inr (2, [(ex_pair ex_cui)\<lparr>vp_tainted := True\<rparr>])"
    using decode_pair_empty_attribute [of example_env "[89, 2]" 0 ex_cui 0 None "[]"]
    by (simp add: example_env_def ex_child_by_num_def ex_root_def no_flags_def)
  have b: "fr_radius_decode_pair 0 example_env None [] [1, 2] 0 2 = Inr (2, [])"
    using decode_pair_empty_attribute [of example_env "[1, 2]" 0 ex_user_name 0 None "[]"]
    by (simp add: example_env_def ex_child_by_num_def ex_root_def no_flags_def)
  have c: "fr_radius_decode_pair (Suc 0) example_env None [] [89, 2, 1, 3, 0x41] 0 5 = Inr (2, [])"
    using decode_pair_empty_attribute [of example_env "[89, 2, 1, 3, 0x41]" 0 ex_cui 0 None "[]"]
    by (simp add: example_env_def ex_child_by_num_def ex_root_def no_flags_def ex_cui_def)
  have d: "fr_radius_decode_pair (Suc 0) example_env None [] [79, 2, 1, 3, 0x41] 0 5 = Inr (-1, [])"
    using decode_pair_empty_attribute [of example_env "[79, 2, 1, 3, 0x41]" 0 ex_eap_message 0 None "[]"]
    by (simp add: example_env_def ex_child_by_num_def ex_root_def no_flags_def ex_eap_message_def)
  show ?thesis using a b c d by simp
qed

subsection \<open>Containers\<close>

lemma tlv_loop_round:
  assumes "p < end'" and "p + 1 < length mem"
  shows "tlv_loop env dpv parent mem end' p c =
           (case tlv_sub env dpv parent mem p c of
              Inl e \<Rightarrow> Inl e
            | Inr (n, c') \<Rightarrow>
                if n < 0 then Inr (False, c')
                else if unat (mem ! (p + 1)) = 0 then Inl Diverges
                else tlv_loop env dpv parent mem end' (p + unat (mem ! (p + 1))) c')"
  using assms
  by (subst tlv_loop.simps) (simp add: tlv_sub_def split: option.splits)

lemma tlv_loop_end:
  "\<not> p < end' \<Longrightarrow> tlv_loop env dpv parent mem end' p c = Inr (True, c)"
  by (subst tlv_loop.simps) simp

lemma tlv_run_loop:
  "tlv_run env dpv parent mem end' data k = Some (p, c) \<Longrightarrow>
   tlv_loop env dpv parent mem end' data [] = tlv_loop env dpv parent mem end' p c"
proof (induction k arbitrary: p c)
  case 0
  then show ?case by simp
next
  case (Suc k)
  from Suc.prems obtain q d n where
    prev: "tlv_run env dpv parent mem end' data k = Some (q, d)"
    and q: "q < end'" "q + 1 < length mem"
    and sub: "tlv_sub env dpv parent mem q d = Inr (n, c)"
    and n: "\<not> n < 0" "unat (mem ! (q + 1)) \<noteq> 0"
    and p: "p = q + unat (mem ! (q + 1))"
    by (auto split: option.splits if_splits sum.splits)
  show ?case
    using Suc.IH [OF prev] tlv_loop_round [OF q, of env dpv parent d] sub n p by simp
qed

lemma tlv_loop_true:
  "tlv_loop env dpv parent mem end' p c = Inr (True, head) \<Longrightarrow>
   tlv_run env dpv parent mem end' data k = Some (p, c) \<Longrightarrow>
   \<exists>k' q. tlv_run env dpv parent mem end' data k' = Some (q, head) \<and> end' \<le> q"
proof (induction "end' - p" arbitrary: p c k rule: less_induct)
  case less
  show ?case
  proof (cases "p < end'")
    case False
    then have "head = c" using less.prems(1) by (simp add: tlv_loop_end)
    then show ?thesis using less.prems(2) False by (intro exI [of _ k] exI [of _ p]) simp
  next
    case True
    have inb: "p + 1 < length mem"
      using less.prems(1) True by (subst (asm) tlv_loop.simps) (auto split: if_splits)
    from less.prems(1) obtain n c' where
      sub: "tlv_sub env dpv parent mem p c = Inr (n, c')"
      and n: "\<not> n < 0" "unat (mem ! (p + 1)) \<noteq> 0"
      and rest: "tlv_loop env dpv parent mem end' (p + unat (mem ! (p + 1))) c' = Inr (True, head)"
      unfolding tlv_loop_round [OF True inb]
      by (auto split: sum.splits if_splits)
    have next': "tlv_run env dpv parent mem end' data (Suc k)
                 = Some (p + unat (mem ! (p + 1)), c')"
      using less.prems(2) True inb sub n by simp
    have "end' - (p + unat (mem ! (p + 1))) < end' - p" using True n by simp
    from less.hyps [OF this rest next'] show ?thesis .
  qed
qed

lemma tlv_loop_false:
  "tlv_loop env dpv parent mem end' p c = Inr (False, x) \<Longrightarrow>
   tlv_run env dpv parent mem end' data k = Some (p, c) \<Longrightarrow>
   \<exists>k' q c' n. tlv_run env dpv parent mem end' data k' = Some (q, c') \<and> q < end' \<and>
      q + 1 < length mem \<and> tlv_sub env dpv parent mem q c' = Inr (n, x) \<and> n < 0"
proof (induction "end' - p" arbitrary: p c k rule: less_induct)
  case less
  show ?case
  proof (cases "p < end'")
    case False
    then show ?thesis using less.prems(1) by (simp add: tlv_loop_end)
  next
    case True
    have inb: "p + 1 < length mem"
      using less.prems(1) True by (subst (asm) tlv_loop.simps) (auto split: if_splits)
    from less.prems(1) obtain n c' where
      sub: "tlv_sub env dpv parent mem p c = Inr (n, c')"
      and cases': "n < 0 \<and> c' = x \<or>
        \<not> n < 0 \<and> unat (mem ! (p + 1)) \<noteq> 0 \<and>
        tlv_loop env dpv parent mem end' (p + unat (mem ! (p + 1))) c' = Inr (False, x)"
      unfolding tlv_loop_round [OF True inb]
      by (auto split: sum.splits if_splits)
    from cases' show ?thesis
    proof
      assume "n < 0 \<and> c' = x"
      then show ?thesis using less.prems(2) True inb sub by blast
    next
      assume a: "\<not> n < 0 \<and> unat (mem ! (p + 1)) \<noteq> 0 \<and>
        tlv_loop env dpv parent mem end' (p + unat (mem ! (p + 1))) c' = Inr (False, x)"
      have next': "tlv_run env dpv parent mem end' data (Suc k)
                   = Some (p + unat (mem ! (p + 1)), c')"
        using less.prems(2) True inb sub a by simp
      have "unat (mem ! (p + 1)) \<noteq> 0" using a by simp
      then have "end' - (p + unat (mem ! (p + 1))) < end' - p" using True by simp
      from less.hyps [OF this _ next'] a show ?thesis by blast
    qed
  qed
qed

lemma vsa_loop_round:
  assumes "0 < a"
  shows "vsa_loop env dpv vendor_da dv mem d a t c =
           (case decode_vsa_internal env dpv c vendor_da mem d a dv of
              Inl e \<Rightarrow> Inl e
            | Inr (n, c') \<Rightarrow>
                if n < 0 then Inr (False, t, c')
                else if n = 0 then Inl Diverges
                else if nat n > a then Inl OutOfBounds
                else vsa_loop env dpv vendor_da dv mem (d + nat n) (a - nat n) (t + nat n) c')"
  using assms by (subst vsa_loop.simps) simp

lemma vsa_loop_end:
  "vsa_loop env dpv vendor_da dv mem d 0 t c = Inr (True, t, c)"
  by (subst vsa_loop.simps) simp

lemma vsa_run_loop:
  "vsa_run env dpv vendor_da dv mem data attr_len k = Some (d, a, t, c) \<Longrightarrow>
   vsa_loop env dpv vendor_da dv mem (data + 4) (attr_len - 4) 4 []
   = vsa_loop env dpv vendor_da dv mem d a t c"
proof (induction k arbitrary: d a t c)
  case 0
  then show ?case by simp
next
  case (Suc k)
  from Suc.prems obtain d0 a0 t0 c0 n where
    prev: "vsa_run env dpv vendor_da dv mem data attr_len k = Some (d0, a0, t0, c0)"
    and a0: "0 < a0"
    and sub: "decode_vsa_internal env dpv c0 vendor_da mem d0 a0 dv = Inr (n, c)"
    and n: "0 < n" "nat n \<le> a0"
    and st: "d = d0 + nat n" "a = a0 - nat n" "t = t0 + nat n"
    by (auto split: option.splits if_splits sum.splits)
  show ?case
    using Suc.IH [OF prev] vsa_loop_round [OF a0, of env dpv vendor_da dv mem d0 t0 c0] sub n st
    by simp
qed

lemma vsa_loop_true:
  "vsa_loop env dpv vendor_da dv mem d a t c = Inr (True, total_len, head) \<Longrightarrow>
   vsa_run env dpv vendor_da dv mem data attr_len k = Some (d, a, t, c) \<Longrightarrow>
   \<exists>k' d'. vsa_run env dpv vendor_da dv mem data attr_len k' = Some (d', 0, total_len, head)"
proof (induction a arbitrary: d t c k rule: less_induct)
  case (less a)
  show ?case
  proof (cases "0 < a")
    case False
    then have "total_len = t \<and> head = c \<and> a = 0"
      using less.prems(1) by (simp add: vsa_loop_end)
    then show ?thesis using less.prems(2) by blast
  next
    case True
    from less.prems(1) obtain n c' where
      sub: "decode_vsa_internal env dpv c vendor_da mem d a dv = Inr (n, c')"
      and n: "0 < n" "nat n \<le> a"
      and rest: "vsa_loop env dpv vendor_da dv mem (d + nat n) (a - nat n) (t + nat n) c'
                 = Inr (True, total_len, head)"
      unfolding vsa_loop_round [OF True]
      by (auto split: sum.splits if_splits)
    have next': "vsa_run env dpv vendor_da dv mem data attr_len (Suc k)
                 = Some (d + nat n, a - nat n, t + nat n, c')"
      using less.prems(2) True sub n by simp
    have "a - nat n < a" using True n by simp
    from less.IH [OF this rest next'] show ?thesis .
  qed
qed

lemma vsa_loop_false:
  "vsa_loop env dpv vendor_da dv mem d a t c = Inr (False, total_len, x) \<Longrightarrow>
   vsa_run env dpv vendor_da dv mem data attr_len k = Some (d, a, t, c) \<Longrightarrow>
   \<exists>k' d' a' t' c' n. vsa_run env dpv vendor_da dv mem data attr_len k' = Some (d', a', t', c')
      \<and> 0 < a' \<and> decode_vsa_internal env dpv c' vendor_da mem d' a' dv = Inr (n, x) \<and> n < 0"
proof (induction a arbitrary: d t c k rule: less_induct)
  case (less a)
  show ?case
  proof (cases "0 < a")
    case False
    then show ?thesis using less.prems(1) by (simp add: vsa_loop_end)
  next
    case True
    from less.prems(1) obtain n c' where
      sub: "decode_vsa_internal env dpv c vendor_da mem d a dv = Inr (n, c')"
      and cases': "n < 0 \<and> c' = x \<or>
        0 < n \<and> nat n \<le> a \<and>
        vsa_loop env dpv vendor_da dv mem (d + nat n) (a - nat n) (t + nat n) c'
          = Inr (False, total_len, x)"
      unfolding vsa_loop_round [OF True]
      by (auto split: sum.splits if_splits)
    from cases' show ?thesis
    proof
      assume "n < 0 \<and> c' = x"
      then show ?thesis using less.prems(2) True sub by blast
    next
      assume a: "0 < n \<and> nat n \<le> a \<and>
        vsa_loop env dpv vendor_da dv mem (d + nat n) (a - nat n) (t + nat n) c'
          = Inr (False, total_len, x)"
      have next': "vsa_run env dpv vendor_da dv mem data attr_len (Suc k)
                   = Some (d + nat n, a - nat n, t + nat n, c')"
        using less.prems(2) True sub a by simp
      have "0 < nat n" using a by simp
      then have "a - nat n < a" using True by simp
      from less.IH [OF this _ next'] a show ?thesis by blast
    qed
  qed
qed

text \<open>The container functions in terms of their loops.\<close>

lemma fr_radius_decode_tlv_frame:
  "fr_radius_decode_tlv env dpv cursor parent mem data data_len =
     (case fr_radius_decode_tlv env dpv [] parent mem data data_len of
        Inl e \<Rightarrow> Inl e
      | Inr (rc, head) \<Rightarrow> Inr (rc, cursor @ head))"
  by (auto simp: fr_radius_decode_tlv_def split: sum.splits prod.splits bool.splits)

lemma vsa_create_attrs_frame:
  "vsa_create_attrs env dpv cursor vendor_da dv mem data attr_len =
     (case vsa_create_attrs env dpv [] vendor_da dv mem data attr_len of
        Inl e \<Rightarrow> Inl e
      | Inr (rc, head) \<Rightarrow> Inr (rc, cursor @ head))"
  by (auto simp: vsa_create_attrs_def split: sum.splits prod.splits bool.splits)

lemma fr_radius_decode_tlv_sub_failure:
  assumes "fr_radius_decode_tlv_ok mem data data_len 1 1 = Inr ok"
    and "tlv_run env dpv parent mem (data + data_len) data k = Some (p, c)"
    and "p < data + data_len" and "p + 1 < length mem"
    and "tlv_sub env dpv parent mem p c = Inr (n, c')" and "n < 0"
  shows "fr_radius_decode_tlv env dpv cursor parent mem data data_len = Inr (-1, cursor)"
proof -
  have "tlv_loop env dpv parent mem (data + data_len) data [] = Inr (False, c')"
    using tlv_run_loop [OF assms(2)] tlv_loop_round [OF assms(3,4), of env dpv parent c] assms(5,6)
    by simp
  then show ?thesis using assms(1) by (simp add: fr_radius_decode_tlv_def)
qed

lemma fr_radius_decode_tlv_all_decoded:
  assumes "fr_radius_decode_tlv_ok mem data data_len 1 1 = Inr ok" and "0 \<le> ok"
    and "3 \<le> data_len"
    and "tlv_run env dpv parent mem (data + data_len) data k = Some (p, c)"
    and "data + data_len \<le> p"
  shows "fr_radius_decode_tlv env dpv cursor parent mem data data_len
         = Inr (int data_len, cursor @ c)"
proof -
  have "tlv_loop env dpv parent mem (data + data_len) data [] = Inr (True, c)"
    using tlv_run_loop [OF assms(4)] assms(5) by (simp add: tlv_loop_end)
  then show ?thesis using assms(1,2,3) by (simp add: fr_radius_decode_tlv_def)
qed

lemma fr_radius_decode_tlv_result:
  assumes "fr_radius_decode_tlv env dpv cursor parent mem data data_len = Inr (rc, cursor')"
  shows "(rc = -1 \<and> cursor' = cursor \<and>
            (data_len < 3 \<or> (\<exists>ok. fr_radius_decode_tlv_ok mem data data_len 1 1 = Inr ok \<and> ok < 0)
             \<or> (\<exists>k p c n c'. tlv_run env dpv parent mem (data + data_len) data k = Some (p, c)
                   \<and> p < data + data_len \<and> p + 1 < length mem
                   \<and> tlv_sub env dpv parent mem p c = Inr (n, c') \<and> n < 0)))
         \<or> (rc = int data_len \<and>
             (\<exists>k p c. tlv_run env dpv parent mem (data + data_len) data k = Some (p, c)
                   \<and> data + data_len \<le> p \<and> cursor' = cursor @ c))"
proof (cases "data_len < 3")
  case True
  then show ?thesis using assms by (simp add: fr_radius_decode_tlv_def)
next
  case False
  from assms False obtain ok where
    ok: "fr_radius_decode_tlv_ok mem data data_len 1 1 = Inr ok"
    by (auto simp: fr_radius_decode_tlv_def split: sum.splits)
  show ?thesis
  proof (cases "ok < 0")
    case True
    then show ?thesis using assms False ok by (simp add: fr_radius_decode_tlv_def)
  next
    case nonneg: False
    from assms False ok nonneg obtain b head where
      loop: "tlv_loop env dpv parent mem (data + data_len) data [] = Inr (b, head)"
      by (auto simp: fr_radius_decode_tlv_def split: sum.splits)
    have start: "tlv_run env dpv parent mem (data + data_len) data 0 = Some (data, [])"
      by simp
    show ?thesis
    proof (cases b)
      case True
      then have res: "rc = int data_len" "cursor' = cursor @ head"
        using assms False ok nonneg loop by (simp_all add: fr_radius_decode_tlv_def)
      have "tlv_loop env dpv parent mem (data + data_len) data [] = Inr (True, head)"
        using loop True by simp
      from tlv_loop_true [OF this start] res show ?thesis by blast
    next
      case b: False
      then have res: "rc = -1" "cursor' = cursor"
        using assms False ok nonneg loop by (simp_all add: fr_radius_decode_tlv_def)
      have "tlv_loop env dpv parent mem (data + data_len) data [] = Inr (False, head)"
        using loop b by simp
      from tlv_loop_false [OF this start] res show ?thesis by blast
    qed
  qed
qed

lemma vsa_create_attrs_sub_failure:
  assumes "vsa_run env dpv vendor_da dv mem data attr_len k = Some (d, a, t, c)"
    and "0 < a"
    and "decode_vsa_internal env dpv c vendor_da mem d a dv = Inr (n, c')" and "n < 0"
  shows "vsa_create_attrs env dpv cursor vendor_da dv mem data attr_len = Inr (-1, cursor)"
proof -
  have "vsa_loop env dpv vendor_da dv mem (data + 4) (attr_len - 4) 4 [] = Inr (False, t, c')"
    using vsa_run_loop [OF assms(1)] vsa_loop_round [OF assms(2), of env dpv vendor_da dv mem d t c]
      assms(3,4)
    by simp
  then show ?thesis by (simp add: vsa_create_attrs_def)
qed

lemma vsa_create_attrs_all_decoded:
  assumes "vsa_run env dpv vendor_da dv mem data attr_len k = Some (d, 0, t, c)"
  shows "vsa_create_attrs env dpv cursor vendor_da dv mem data attr_len
         = Inr (int t, cursor @ c)"
proof -
  have "vsa_loop env dpv vendor_da dv mem (data + 4) (attr_len - 4) 4 [] = Inr (True, t, c)"
    using vsa_run_loop [OF assms] by (simp add: vsa_loop_end)
  then show ?thesis by (simp add: vsa_create_attrs_def)
qed

lemma vsa_create_attrs_result:
  assumes "vsa_create_attrs env dpv cursor vendor_da dv mem data attr_len = Inr (rc, cursor')"
  shows "(rc = -1 \<and> cursor' = cursor \<and>
            (\<exists>k d a t c n c'. vsa_run env dpv vendor_da dv mem data attr_len k = Some (d, a, t, c)
                \<and> 0 < a \<and> decode_vsa_internal env dpv c vendor_da mem d a dv = Inr (n, c')
                \<and> n < 0))
         \<or> (\<exists>k d t c. vsa_run env dpv vendor_da dv mem data attr_len k = Some (d, 0, t, c)
                \<and> rc = int t \<and> cursor' = cursor @ c)"
proof -
  from assms obtain b t head where
    loop: "vsa_loop env dpv vendor_da dv mem (data + 4) (attr_len - 4) 4 [] = Inr (b, t, head)"
    by (auto simp: vsa_create_attrs_def split: sum.splits)
  have start: "vsa_run env dpv vendor_da dv mem data attr_len 0
               = Some (data + 4, attr_len - 4, 4, [])"
    by simp
  show ?thesis
  proof (cases b)
    case True
    then have res: "rc = int t" "cursor' = cursor @ head"
      using assms loop by (simp_all add: vsa_create_attrs_def)
    have "vsa_loop env dpv vendor_da dv mem (data + 4) (attr_len - 4) 4 [] = Inr (True, t, head)"
      using loop True by simp
    from vsa_loop_true [OF this start] res show ?thesis by blast
  next
    case b: False
    then have res: "rc = -1" "cursor' = cursor"
      using assms loop by (simp_all add: vsa_create_attrs_def)
    have "vsa_loop env dpv vendor_da dv mem (data + 4) (attr_len - 4) 4 [] = Inr (False, t, head)"
      using loop b by simp
    from vsa_loop_false [OF this start] res show ?thesis by blast
  qed
qed

text \<open>
  C7. \<^verbatim>\<open>fr_radius_decode_tlv\<close> and the sub-attribute loop of \<^verbatim>\<open>decode_vsa\<close> are atomic with
  respect to the caller's cursor. For \<^verbatim>\<open>fr_radius_decode_tlv\<close>, with any decoder \<open>dpv\<close> in the
  place of \<^verbatim>\<open>fr_radius_decode_pair_value\<close>:
  \<^item> the result on a cursor is the result on the empty cursor, with the list that one
    returns put behind the caller's pairs, which are unchanged;
  \<^item> if, after any number of sub-attributes that were decoded, the next sub-attribute fails
    (its child can be neither found nor built, or its value is not decoded), the function
    returns -1 and the cursor is as it was, the pairs staged so far being dropped;
  \<^item> if the loop decodes every sub-attribute up to the end of the slice, the function returns
    \<open>data_len\<close> and the cursor is followed by the staged pairs;
  \<^item> and these are the only results: -1 with the cursor as it was, for a slice under three
    octets, one that is not well formed, or a sub-attribute that fails; or \<open>data_len\<close> with
    the pairs staged by a run of the loop through the whole slice.

  The same holds for \<^verbatim>\<open>decode_vsa\<close> from the label \<^verbatim>\<open>create_attrs:\<close> on, where a round of the
  loop is a call of \<^verbatim>\<open>decode_vsa_internal\<close> and the result on success is the total.
\<close>

theorem container_decoding_atomic:
  "(\<forall>cursor. fr_radius_decode_tlv env dpv cursor parent mem data data_len =
      (case fr_radius_decode_tlv env dpv [] parent mem data data_len of
         Inl e \<Rightarrow> Inl e
       | Inr (rc, head) \<Rightarrow> Inr (rc, cursor @ head))) \<and>
   (\<forall>cursor ok k p c n c'.
      fr_radius_decode_tlv_ok mem data data_len 1 1 = Inr ok \<and>
      tlv_run env dpv parent mem (data + data_len) data k = Some (p, c) \<and>
      p < data + data_len \<and> p + 1 < length mem \<and>
      tlv_sub env dpv parent mem p c = Inr (n, c') \<and> n < 0 \<longrightarrow>
      fr_radius_decode_tlv env dpv cursor parent mem data data_len = Inr (-1, cursor)) \<and>
   (\<forall>cursor k p c.
      fr_radius_decode_tlv_ok mem data data_len 1 1 = Inr 0 \<and> 3 \<le> data_len \<and>
      tlv_run env dpv parent mem (data + data_len) data k = Some (p, c) \<and>
      data + data_len \<le> p \<longrightarrow>
      fr_radius_decode_tlv env dpv cursor parent mem data data_len
        = Inr (int data_len, cursor @ c)) \<and>
   (\<forall>cursor rc cursor'.
      fr_radius_decode_tlv env dpv cursor parent mem data data_len = Inr (rc, cursor') \<longrightarrow>
      (rc = -1 \<and> cursor' = cursor \<and>
         (data_len < 3 \<or>
          (\<exists>ok. fr_radius_decode_tlv_ok mem data data_len 1 1 = Inr ok \<and> ok < 0) \<or>
          (\<exists>k p c n c'. tlv_run env dpv parent mem (data + data_len) data k = Some (p, c)
              \<and> p < data + data_len \<and> p + 1 < length mem
              \<and> tlv_sub env dpv parent mem p c = Inr (n, c') \<and> n < 0)))
      \<or> (rc = int data_len \<and>
          (\<exists>k p c. tlv_run env dpv parent mem (data + data_len) data k = Some (p, c)
              \<and> data + data_len \<le> p \<and> cursor' = cursor @ c))) \<and>
   (\<forall>cursor. vsa_create_attrs env dpv cursor vendor_da dv vmem vdata attr_len =
      (case vsa_create_attrs env dpv [] vendor_da dv vmem vdata attr_len of
         Inl e \<Rightarrow> Inl e
       | Inr (rc, head) \<Rightarrow> Inr (rc, cursor @ head))) \<and>
   (\<forall>cursor k d a t c n c'.
      vsa_run env dpv vendor_da dv vmem vdata attr_len k = Some (d, a, t, c) \<and> 0 < a \<and>
      decode_vsa_internal env dpv c vendor_da vmem d a dv = Inr (n, c') \<and> n < 0 \<longrightarrow>
      vsa_create_attrs env dpv cursor vendor_da dv vmem vdata attr_len = Inr (-1, cursor)) \<and>
   (\<forall>cursor k d t c.
      vsa_run env dpv vendor_da dv vmem vdata attr_len k = Some (d, 0, t, c) \<longrightarrow>
      vsa_create_attrs env dpv cursor vendor_da dv vmem vdata attr_len
        = Inr (int t, cursor @ c)) \<and>
   (\<forall>cursor rc cursor'.
      vsa_create_attrs env dpv cursor vendor_da dv vmem vdata attr_len = Inr (rc, cursor') \<longrightarrow>
      (rc = -1 \<and> cursor' = cursor \<and>
         (\<exists>k d a t c n c'.
            vsa_run env dpv vendor_da dv vmem vdata attr_len k = Some (d, a, t, c) \<and> 0 < a
            \<and> decode_vsa_internal env dpv c vendor_da vmem d a dv = Inr (n, c') \<and> n < 0))
      \<or> (\<exists>k d t c. vsa_run env dpv vendor_da dv vmem vdata attr_len k = Some (d, 0, t, c)
            \<and> rc = int t \<and> cursor' = cursor @ c))"
proof (intro conjI allI impI)
  fix cursor
  show "fr_radius_decode_tlv env dpv cursor parent mem data data_len =
      (case fr_radius_decode_tlv env dpv [] parent mem data data_len of
         Inl e \<Rightarrow> Inl e
       | Inr (rc, head) \<Rightarrow> Inr (rc, cursor @ head))"
    by (rule fr_radius_decode_tlv_frame)
next
  fix cursor ok k p c n c'
  assume "fr_radius_decode_tlv_ok mem data data_len 1 1 = Inr ok \<and>
      tlv_run env dpv parent mem (data + data_len) data k = Some (p, c) \<and>
      p < data + data_len \<and> p + 1 < length mem \<and>
      tlv_sub env dpv parent mem p c = Inr (n, c') \<and> n < 0"
  then show "fr_radius_decode_tlv env dpv cursor parent mem data data_len = Inr (-1, cursor)"
    using fr_radius_decode_tlv_sub_failure by blast
next
  fix cursor k p c
  assume "fr_radius_decode_tlv_ok mem data data_len 1 1 = Inr 0 \<and> 3 \<le> data_len \<and>
      tlv_run env dpv parent mem (data + data_len) data k = Some (p, c) \<and>
      data + data_len \<le> p"
  then show "fr_radius_decode_tlv env dpv cursor parent mem data data_len
        = Inr (int data_len, cursor @ c)"
    using fr_radius_decode_tlv_all_decoded [of mem data data_len 0 env dpv parent k p c cursor]
    by simp
next
  fix cursor rc cursor'
  assume "fr_radius_decode_tlv env dpv cursor parent mem data data_len = Inr (rc, cursor')"
  then show "(rc = -1 \<and> cursor' = cursor \<and>
         (data_len < 3 \<or>
          (\<exists>ok. fr_radius_decode_tlv_ok mem data data_len 1 1 = Inr ok \<and> ok < 0) \<or>
          (\<exists>k p c n c'. tlv_run env dpv parent mem (data + data_len) data k = Some (p, c)
              \<and> p < data + data_len \<and> p + 1 < length mem
              \<and> tlv_sub env dpv parent mem p c = Inr (n, c') \<and> n < 0)))
      \<or> (rc = int data_len \<and>
          (\<exists>k p c. tlv_run env dpv parent mem (data + data_len) data k = Some (p, c)
              \<and> data + data_len \<le> p \<and> cursor' = cursor @ c))"
    by (rule fr_radius_decode_tlv_result)
next
  fix cursor
  show "vsa_create_attrs env dpv cursor vendor_da dv vmem vdata attr_len =
      (case vsa_create_attrs env dpv [] vendor_da dv vmem vdata attr_len of
         Inl e \<Rightarrow> Inl e
       | Inr (rc, head) \<Rightarrow> Inr (rc, cursor @ head))"
    by (rule vsa_create_attrs_frame)
next
  fix cursor k d a t c n c'
  assume "vsa_run env dpv vendor_da dv vmem vdata attr_len k = Some (d, a, t, c) \<and> 0 < a \<and>
      decode_vsa_internal env dpv c vendor_da vmem d a dv = Inr (n, c') \<and> n < 0"
  then show "vsa_create_attrs env dpv cursor vendor_da dv vmem vdata attr_len = Inr (-1, cursor)"
    using vsa_create_attrs_sub_failure by blast
next
  fix cursor k d t c
  assume "vsa_run env dpv vendor_da dv vmem vdata attr_len k = Some (d, 0, t, c)"
  then show "vsa_create_attrs env dpv cursor vendor_da dv vmem vdata attr_len
        = Inr (int t, cursor @ c)"
    by (rule vsa_create_attrs_all_decoded)
next
  fix cursor rc cursor'
  assume "vsa_create_attrs env dpv cursor vendor_da dv vmem vdata attr_len = Inr (rc, cursor')"
  then show "(rc = -1 \<and> cursor' = cursor \<and>
         (\<exists>k d a t c n c'.
            vsa_run env dpv vendor_da dv vmem vdata attr_len k = Some (d, a, t, c) \<and> 0 < a
            \<and> decode_vsa_internal env dpv c vendor_da vmem d a dv = Inr (n, c') \<and> n < 0))
      \<or> (\<exists>k d t c. vsa_run env dpv vendor_da dv vmem vdata attr_len k = Some (d, 0, t, c)
            \<and> rc = int t \<and> cursor' = cursor @ c)"
    by (rule vsa_create_attrs_result)
qed

theorem container_decoding_atomic_witness:
  "tlv_run strict_env (fr_radius_decode_pair_value (Suc (Suc 0)) strict_env None) ex_root
       [1, 3, 0x41, 200, 3, 0x42] (0 + 6) 0 (Suc 0)
     = Some (3, [\<lparr>vp_da = ex_user_name, vp_tag = TAG_NONE, vp_type = VT_DATA,
                   vp_tainted = True, vp_data = VP_BOX FR_TYPE_STRING [0x41]\<rparr>]) \<and>
   tlv_sub strict_env (fr_radius_decode_pair_value (Suc (Suc 0)) strict_env None) ex_root
       [1, 3, 0x41, 200, 3, 0x42] 3
       [\<lparr>vp_da = ex_user_name, vp_tag = TAG_NONE, vp_type = VT_DATA,
         vp_tainted = True, vp_data = VP_BOX FR_TYPE_STRING [0x41]\<rparr>]
     = Inr (-1, [\<lparr>vp_da = ex_user_name, vp_tag = TAG_NONE, vp_type = VT_DATA,
                   vp_tainted = True, vp_data = VP_BOX FR_TYPE_STRING [0x41]\<rparr>]) \<and>
   (\<forall>cursor. fr_radius_decode_tlv strict_env
               (fr_radius_decode_pair_value (Suc (Suc 0)) strict_env None) cursor ex_root
               [1, 3, 0x41, 200, 3, 0x42] 0 6 = Inr (-1, cursor)) \<and>
   (\<forall>cursor. fr_radius_decode_tlv example_env
               (fr_radius_decode_pair_value (Suc (Suc 0)) example_env None) cursor ex_root
               [1, 3, 0x41, 200, 3, 0x42] 0 6
             = Inr (6, cursor @
                 [\<lparr>vp_da = ex_user_name, vp_tag = TAG_NONE, vp_type = VT_DATA,
                   vp_tainted = True, vp_data = VP_BOX FR_TYPE_STRING [0x41]\<rparr>,
                  \<lparr>vp_da = ex_unknown (Some ex_root) 200, vp_tag = TAG_NONE, vp_type = VT_DATA,
                   vp_tainted = True, vp_data = VP_BOX FR_TYPE_OCTETS [0x42]\<rparr>])) \<and>
   (\<forall>cursor. vsa_create_attrs strict_env
               (fr_radius_decode_pair_value (Suc (Suc 0)) strict_env None) cursor ex_vendor_9
               \<lparr>vendor_pen = 9, vendor_type = 1, vendor_length = 1, vendor_flags = 0\<rparr>
               [0, 0, 0, 9, 1, 3, 0x41, 200, 3, 0x42] 0 10 = Inr (-1, cursor)) \<and>
   (\<forall>cursor. vsa_create_attrs example_env
               (fr_radius_decode_pair_value (Suc (Suc 0)) example_env None) cursor ex_vendor_9
               \<lparr>vendor_pen = 9, vendor_type = 1, vendor_length = 1, vendor_flags = 0\<rparr>
               [0, 0, 0, 9, 1, 3, 0x41, 200, 3, 0x42] 0 10
             = Inr (10, cursor @
                 [\<lparr>vp_da = ex_vendor_9_1, vp_tag = TAG_NONE, vp_type = VT_DATA,
                   vp_tainted = True, vp_data = VP_BOX FR_TYPE_STRING [0x41]\<rparr>,
                  \<lparr>vp_da = ex_unknown (Some ex_vendor_9) 200, vp_tag = TAG_NONE,
                   vp_type = VT_DATA, vp_tainted = True,
                   vp_data = VP_BOX FR_TYPE_OCTETS [0x42]\<rparr>]))"
proof -
  define ds where "ds = fr_radius_decode_pair_value (Suc (Suc 0)) strict_env None"
  define de where "de = fr_radius_decode_pair_value (Suc (Suc 0)) example_env None"
  define tm :: "u8 list" where "tm = [1, 3, 0x41, 200, 3, 0x42]"
  define vm :: "u8 list" where "vm = [0, 0, 0, 9, 1, 3, 0x41, 200, 3, 0x42]"
  define dv where "dv = \<lparr>vendor_pen = 9, vendor_type = 1, vendor_length = 1, vendor_flags = 0\<rparr>"
  define pa where "pa = \<lparr>vp_da = ex_user_name, vp_tag = TAG_NONE, vp_type = VT_DATA,
                      vp_tainted = True, vp_data = VP_BOX FR_TYPE_STRING [0x41]\<rparr>"
  define pu where "pu = \<lparr>vp_da = ex_unknown (Some ex_root) 200, vp_tag = TAG_NONE,
                      vp_type = VT_DATA, vp_tainted = True,
                      vp_data = VP_BOX FR_TYPE_OCTETS [0x42]\<rparr>"
  define va where "va = \<lparr>vp_da = ex_vendor_9_1, vp_tag = TAG_NONE, vp_type = VT_DATA,
                      vp_tainted = True, vp_data = VP_BOX FR_TYPE_STRING [0x41]\<rparr>"
  define vu where "vu = \<lparr>vp_da = ex_unknown (Some ex_vendor_9) 200, vp_tag = TAG_NONE,
                      vp_type = VT_DATA, vp_tainted = True,
                      vp_data = VP_BOX FR_TYPE_OCTETS [0x42]\<rparr>"
  note thm_s = container_decoding_atomic [where env = strict_env and dpv = ds
      and parent = ex_root and mem = tm and data = 0 and data_len = 6
      and vendor_da = ex_vendor_9 and dv = dv and vmem = vm and vdata = 0 and attr_len = 10]
  note thm_e = container_decoding_atomic [where env = example_env and dpv = de
      and parent = ex_root and mem = tm and data = 0 and data_len = 6
      and vendor_da = ex_vendor_9 and dv = dv and vmem = vm and vdata = 0 and attr_len = 10]
  have ok: "fr_radius_decode_tlv_ok tm 0 6 1 1 = Inr 0"
    unfolding tm_def by code_simp
  have tmf: "length tm = 6" "tm ! 0 = 1" "tm ! Suc 0 = 3" "tm ! 2 = 0x41" "tm ! 3 = 200"
    "tm ! 4 = 3" "tm ! 5 = 0x42"
    by (simp_all add: tm_def)
  have s1: "ds [] ex_user_name tm (0 + 2) 1 1 = Inr (1, [pa])"
    using string_leaf [of ex_user_name 1 "0 + 2" tm strict_env 0 "[]"]
    by (simp add: ds_def ex_user_name_def no_flags_def pa_def tm_def
        del: fr_radius_decode_pair_value.simps)
  have e1: "de [] ex_user_name tm (0 + 2) 1 1 = Inr (1, [pa])"
    using string_leaf [of ex_user_name 1 "0 + 2" tm example_env 0 "[]"]
    by (simp add: de_def ex_user_name_def no_flags_def pa_def tm_def
        del: fr_radius_decode_pair_value.simps)
  have e2: "de [pa] (ex_unknown (Some ex_root) 200) tm (3 + 2) 1 1 = Inr (1, [pa, pu])"
    using string_leaf [of "ex_unknown (Some ex_root) 200" 1 "3 + 2" tm example_env 0 "[pa]"]
    by (simp add: de_def ex_unknown_def no_flags_def pu_def tm_def
        del: fr_radius_decode_pair_value.simps)
  have rs: "tlv_run strict_env ds ex_root tm (0 + 6) 0 (Suc 0) = Some (3, [pa])"
    using s1 tmf
    by (simp add: tlv_sub_def strict_env_simps ex_child_by_num_def ex_root_def size_sub_def)
  have fs: "tlv_sub strict_env ds ex_root tm 3 [pa] = Inr (-1, [pa])"
    using tmf
    by (simp add: tlv_sub_def strict_env_simps ex_child_by_num_def ex_root_def)
  have re: "tlv_run example_env de ex_root tm (0 + 6) 0 (Suc (Suc 0)) = Some (6, [pa, pu])"
    using e1 e2 tmf
    by (simp add: tlv_sub_def example_env_simps ex_child_by_num_def ex_root_def size_sub_def)
  have a: "\<forall>cursor. fr_radius_decode_tlv strict_env ds cursor ex_root tm 0 6 = Inr (-1, cursor)"
  proof
    fix cursor
    have "fr_radius_decode_tlv_ok tm 0 6 1 1 = Inr 0 \<and>
      tlv_run strict_env ds ex_root tm (0 + 6) 0 (Suc 0) = Some (3, [pa]) \<and>
      3 < (0::nat) + 6 \<and> 3 + 1 < length tm \<and>
      tlv_sub strict_env ds ex_root tm 3 [pa] = Inr (-1, [pa]) \<and> (-1::int) < 0"
      using ok rs fs tmf by simp
    then show "fr_radius_decode_tlv strict_env ds cursor ex_root tm 0 6 = Inr (-1, cursor)"
      by (rule thm_s [THEN conjunct2, THEN conjunct1, rule_format])
  qed
  have b: "\<forall>cursor. fr_radius_decode_tlv example_env de cursor ex_root tm 0 6
                     = Inr (6, cursor @ [pa, pu])"
  proof
    fix cursor
    have "fr_radius_decode_tlv_ok tm 0 6 1 1 = Inr 0 \<and> (3::nat) \<le> 6 \<and>
      tlv_run example_env de ex_root tm (0 + 6) 0 (Suc (Suc 0)) = Some (6, [pa, pu]) \<and>
      (0::nat) + 6 \<le> 6"
      using ok re by simp
    then have "fr_radius_decode_tlv example_env de cursor ex_root tm 0 6
                 = Inr (int 6, cursor @ [pa, pu])"
      by (rule thm_e [THEN conjunct2, THEN conjunct2, THEN conjunct1, rule_format])
    then show "fr_radius_decode_tlv example_env de cursor ex_root tm 0 6
                 = Inr (6, cursor @ [pa, pu])"
      by simp
  qed
  have vmf: "length vm = 10" "vm ! 4 = 1" "vm ! 5 = 3" "vm ! 7 = 200" "vm ! 8 = 3"
    by (simp_all add: vm_def)
  have vs1: "ds [] ex_vendor_9_1 vm (4 + 2) 1 1 = Inr (1, [va])"
    using string_leaf [of ex_vendor_9_1 1 "4 + 2" vm strict_env 0 "[]"]
    by (simp add: ds_def ex_vendor_9_1_def no_flags_def va_def vm_def
        del: fr_radius_decode_pair_value.simps)
  have ve1: "de [] ex_vendor_9_1 vm (4 + 2) 1 1 = Inr (1, [va])"
    using string_leaf [of ex_vendor_9_1 1 "4 + 2" vm example_env 0 "[]"]
    by (simp add: de_def ex_vendor_9_1_def no_flags_def va_def vm_def
        del: fr_radius_decode_pair_value.simps)
  have ve2: "de [va] (ex_unknown (Some ex_vendor_9) 200) vm (7 + 2) 1 1 = Inr (1, [va, vu])"
    using string_leaf [of "ex_unknown (Some ex_vendor_9) 200" 1 "7 + 2" vm example_env 0 "[va]"]
    by (simp add: de_def ex_unknown_def no_flags_def vu_def vm_def
        del: fr_radius_decode_pair_value.simps)
  have is1: "decode_vsa_internal strict_env ds [] ex_vendor_9 vm 4 6 dv = Inr (3, [va])"
    using vs1 vmf
    by (simp add: decode_vsa_internal_def dv_def strict_env_simps ex_child_by_num_def
        ex_vendor_9_def size_sub_def)
  have is2: "decode_vsa_internal strict_env ds [va] ex_vendor_9 vm 7 3 dv = Inr (-1, [va])"
    using vmf
    by (simp add: decode_vsa_internal_def dv_def strict_env_simps ex_child_by_num_def
        ex_vendor_9_def size_sub_def)
  have ie1: "decode_vsa_internal example_env de [] ex_vendor_9 vm 4 6 dv = Inr (3, [va])"
    using ve1 vmf
    by (simp add: decode_vsa_internal_def dv_def example_env_simps ex_child_by_num_def
        ex_vendor_9_def size_sub_def)
  have ie2: "decode_vsa_internal example_env de [va] ex_vendor_9 vm 7 3 dv = Inr (3, [va, vu])"
    using ve2 vmf
    by (simp add: decode_vsa_internal_def dv_def example_env_simps ex_child_by_num_def
        ex_vendor_9_def size_sub_def)
  have vrs: "vsa_run strict_env ds ex_vendor_9 dv vm 0 10 (Suc 0) = Some (7, 3, 7, [va])"
    using is1 by simp
  have vre: "vsa_run example_env de ex_vendor_9 dv vm 0 10 (Suc (Suc 0))
             = Some (10, 0, 10, [va, vu])"
    using ie1 ie2 by simp
  have c: "\<forall>cursor. vsa_create_attrs strict_env ds cursor ex_vendor_9 dv vm 0 10
                     = Inr (-1, cursor)"
  proof
    fix cursor
    have "vsa_run strict_env ds ex_vendor_9 dv vm 0 10 (Suc 0) = Some (7, 3, 7, [va]) \<and>
      (0::nat) < 3 \<and>
      decode_vsa_internal strict_env ds [va] ex_vendor_9 vm 7 3 dv = Inr (-1, [va]) \<and>
      (-1::int) < 0"
      using vrs is2 by simp
    then show "vsa_create_attrs strict_env ds cursor ex_vendor_9 dv vm 0 10 = Inr (-1, cursor)"
      by (rule thm_s [THEN conjunct2, THEN conjunct2, THEN conjunct2, THEN conjunct2,
            THEN conjunct2, THEN conjunct1, rule_format])
  qed
  have d: "\<forall>cursor. vsa_create_attrs example_env de cursor ex_vendor_9 dv vm 0 10
                     = Inr (10, cursor @ [va, vu])"
  proof
    fix cursor
    from vre have "vsa_create_attrs example_env de cursor ex_vendor_9 dv vm 0 10
            = Inr (int 10, cursor @ [va, vu])"
      by (rule thm_e [THEN conjunct2, THEN conjunct2, THEN conjunct2, THEN conjunct2,
            THEN conjunct2, THEN conjunct2, THEN conjunct1, rule_format])
    then show "vsa_create_attrs example_env de cursor ex_vendor_9 dv vm 0 10
            = Inr (10, cursor @ [va, vu])"
      by simp
  qed
  show ?thesis
    using rs fs a b c d
    unfolding ds_def de_def tm_def vm_def dv_def pa_def pu_def va_def vu_def
    by (intro conjI)
qed

subsection \<open>Long extended attributes\<close>

lemma extended_copy_unfold:
  "extended_copy mem end' n frag dst doff =
     (if n = 0 then Inr dst
      else if length mem \<le> frag + 1 then Inl OutOfBounds
      else
        case memcpy_bounded dst doff mem (frag + 4) (size_sub (unat (mem ! (frag + 1))) 4) end' of
          Inl e \<Rightarrow> Inl e
        | Inr dst' \<Rightarrow>
            extended_copy mem end' (n - 1) (frag + unat (mem ! (frag + 1))) dst'
              (doff + size_sub (unat (mem ! (frag + 1))) 4))"
  by (cases n) (auto split: sum.splits)

lemma long_extended_walk:
  "extended_walk (long_extended_packet @ rest) 0 (2 + (13 + length rest)) 9 5 1 False
   = Inr (15, 7, 2)"
  by (cases rest) (simp_all add: long_extended_packet_def extended_walk.simps)

lemma long_extended_copy:
  "extended_copy (long_extended_packet @ rest) 15 2 0 (replicate 7 u) 0
   = Inr [0xAA, 0xBB, 0xCC, 0xDD, 0xEE, 0xFF, 0x11]"
  by (simp add: long_extended_packet_def extended_copy_unfold memcpy_bounded_def size_sub_def
      del: extended_copy.simps)

text \<open>
  The value of the attribute 27 at the head of \<open>long_extended_packet\<close>, whatever follows the
  packet: the two fragments are put together and decoded as the child 1.
\<close>

lemma long_extended_value:
  assumes ext_type: "da_type ext = FR_TYPE_EXTENDED" "extra (da_flags ext)"
      "\<not> has_tag (da_flags ext)" "subtype (da_flags ext) = FLAG_ENCRYPT_NONE"
    and child: "child_by_num env ext 1 = Some child"
    and child_type: "da_type child = FR_TYPE_OCTETS" "\<not> has_tag (da_flags child)"
      "subtype (da_flags child) = FLAG_ENCRYPT_NONE"
    and sizes: "fst (attr_sizes env FR_TYPE_EXTENDED) \<le> 7"
      "7 \<le> snd (attr_sizes env FR_TYPE_EXTENDED)"
      "fst (attr_sizes env FR_TYPE_OCTETS) \<le> 7" "7 \<le> snd (attr_sizes env FR_TYPE_OCTETS)"
    and box: "value_box_from_network env FR_TYPE_OCTETS child
                [0xAA, 0xBB, 0xCC, 0xDD, 0xEE, 0xFF, 0x11] = Some v"
  shows "fr_radius_decode_pair_value (Suc (Suc (Suc n))) env packet_ctx cursor ext
           (long_extended_packet @ rest) (Suc (Suc 0)) 7 (13 + length rest)
         = Inr (13, cursor @ [(pair_afrom_da env child)
                   \<lparr>vp_tag := TAG_NONE, vp_data := v, vp_type := VT_DATA, vp_tainted := True\<rparr>])"
proof -
  let ?mem = "long_extended_packet @ rest"
  let ?vp = "(pair_afrom_da env child)
                   \<lparr>vp_tag := TAG_NONE, vp_data := v, vp_type := VT_DATA, vp_tainted := True\<rparr>"
  define dpv where "dpv = fr_radius_decode_pair_value (Suc (Suc n)) env packet_ctx"
  have m: "length ?mem = 15 + length rest" "?mem ! 0 = 0x1B" "?mem ! 1 = 9" "?mem ! 2 = 1"
    "?mem ! 3 = 0x80"
    by (simp_all add: long_extended_packet_def)
  have inner: "dpv cursor child [0xAA, 0xBB, 0xCC, 0xDD, 0xEE, 0xFF, 0x11] 0 7 7
               = Inr (7, cursor @ [?vp])"
    unfolding dpv_def fr_radius_decode_pair_value.simps
    using pair_value_body_plain [of child packet_ctx 7 7 env 0
        "[0xAA, 0xBB, 0xCC, 0xDD, 0xEE, 0xFF, 0x11]" v n
        "fr_radius_decode_pair_value (Suc n) env packet_ctx" cursor]
      child_type sizes box
    by (simp add: box_types_def)
  have dext: "decode_extended env dpv cursor child ?mem 2 7 (13 + length rest)
              = Inr (13, cursor @ [?vp])"
    using m long_extended_walk [of rest] long_extended_copy [of rest "uninit env"] inner
    by (simp add: decode_extended_def)
  have outer: "pair_value_body (Suc (Suc n)) env packet_ctx dpv cursor ext
                 ?mem 2 7 (13 + length rest) = Inr (13, cursor @ [?vp])"
    using ext_type child sizes m dext
    by (simp add: pair_value_body_def decode_tag_untagged decrypt_value_none
        FR_TYPE_VALUES_def box_types_def extended_child_def Let_def del: emit_value.simps)
  show ?thesis
    using outer unfolding dpv_def
    by (simp only: fr_radius_decode_pair_value.simps numeral_2_eq_2)
qed

text \<open>
  C3, amended. Under a dictionary in which the top-level type 0x1B is a long extended
  attribute whose child 1 is known, an octets attribute here, decoding the 15 octets
  \<open>1B 09 01 80 AA BB CC DD EE 1B 06 01 00 FF 11\<close>, with anything behind them in the buffer,
  gives exactly one pair, for the child 1, with the value \<open>AA BB CC DD EE FF 11\<close> of seven
  octets, and returns 15. The length octet 06 of the continuation leaves it the two octets
  of data \<open>FF 11\<close>.
\<close>

theorem long_extended_reassembly:
  assumes ext: "child_by_num env (dict_root env) 27 = Some ext"
    and ext_type: "da_type ext = FR_TYPE_EXTENDED" "extra (da_flags ext)"
      "\<not> has_tag (da_flags ext)" "\<not> concat_flag (da_flags ext)"
      "subtype (da_flags ext) = FLAG_ENCRYPT_NONE"
    and child: "child_by_num env ext 1 = Some child"
    and child_type: "da_type child = FR_TYPE_OCTETS" "\<not> has_tag (da_flags child)"
      "subtype (da_flags child) = FLAG_ENCRYPT_NONE"
    and sizes: "fst (attr_sizes env FR_TYPE_EXTENDED) \<le> 7"
      "7 \<le> snd (attr_sizes env FR_TYPE_EXTENDED)"
      "fst (attr_sizes env FR_TYPE_OCTETS) \<le> 7" "7 \<le> snd (attr_sizes env FR_TYPE_OCTETS)"
    and box: "value_box_from_network env FR_TYPE_OCTETS child
                [0xAA, 0xBB, 0xCC, 0xDD, 0xEE, 0xFF, 0x11] = Some v"
  shows "fr_radius_decode_pair (Suc (Suc (Suc n))) env packet_ctx cursor
           (long_extended_packet @ rest) 0 (15 + length rest)
         = Inr (15, cursor @ [(pair_afrom_da env child)
                   \<lparr>vp_tag := TAG_NONE, vp_data := v, vp_type := VT_DATA, vp_tainted := True\<rparr>])"
proof -
  have m: "length (long_extended_packet @ rest) = 15 + length rest"
    "(long_extended_packet @ rest) ! 0 = 0x1B" "(long_extended_packet @ rest) ! 1 = 9"
    by (simp_all add: long_extended_packet_def)
  show ?thesis
    using ext ext_type(4) m
      long_extended_value [OF ext_type(1,2,3,5) child child_type sizes box,
        of n packet_ctx cursor rest]
    by (simp add: fr_radius_decode_pair_def del: fr_radius_decode_pair_value.simps)
qed

theorem long_extended_reassembly_witness:
  "fr_radius_decode_pair (Suc (Suc (Suc 0))) example_env None []
     (long_extended_packet @ []) 0 (15 + length ([] :: u8 list))
   = Inr (15, [] @ [(pair_afrom_da example_env ex_extended_1)
        \<lparr>vp_tag := TAG_NONE,
           vp_data := VP_BOX FR_TYPE_OCTETS [0xAA, 0xBB, 0xCC, 0xDD, 0xEE, 0xFF, 0x11],
           vp_type := VT_DATA, vp_tainted := True\<rparr>])"
  by (rule long_extended_reassembly [where ext = ex_extended])
     (simp_all add: ex_defs)

text \<open>
  C3 as stated fails. The buffer it lists has 16 octets; decoding all of them, or the first
  15 alone, gives the value \<open>AA BB CC DD EE FF 11\<close> and returns 15. The last octet, 22, lies
  behind the continuation and is not part of the value, which is not
  \<open>AA BB CC DD EE FF 11 22\<close>.
\<close>

theorem long_extended_reassembly_counterexample:
  "fr_radius_decode_pair (Suc (Suc (Suc 0))) example_env None []
     [0x1B, 0x09, 0x01, 0x80, 0xAA, 0xBB, 0xCC, 0xDD, 0xEE,
      0x1B, 0x06, 0x01, 0x00, 0xFF, 0x11, 0x22] 0 16
   = Inr (15, [\<lparr>vp_da = ex_extended_1, vp_tag = TAG_NONE, vp_type = VT_DATA,
                 vp_tainted = True,
                 vp_data = VP_BOX FR_TYPE_OCTETS [0xAA, 0xBB, 0xCC, 0xDD, 0xEE, 0xFF, 0x11]\<rparr>])
   \<and>
   fr_radius_decode_pair (Suc (Suc (Suc 0))) example_env None []
     [0x1B, 0x09, 0x01, 0x80, 0xAA, 0xBB, 0xCC, 0xDD, 0xEE,
      0x1B, 0x06, 0x01, 0x00, 0xFF, 0x11] 0 15
   = Inr (15, [\<lparr>vp_da = ex_extended_1, vp_tag = TAG_NONE, vp_type = VT_DATA,
                 vp_tainted = True,
                 vp_data = VP_BOX FR_TYPE_OCTETS [0xAA, 0xBB, 0xCC, 0xDD, 0xEE, 0xFF, 0x11]\<rparr>])
   \<and>
   fr_radius_decode_pair (Suc (Suc (Suc 0))) example_env None []
     [0x1B, 0x09, 0x01, 0x80, 0xAA, 0xBB, 0xCC, 0xDD, 0xEE,
      0x1B, 0x06, 0x01, 0x00, 0xFF, 0x11, 0x22] 0 16
   \<noteq> Inr (15, [\<lparr>vp_da = ex_extended_1, vp_tag = TAG_NONE, vp_type = VT_DATA,
                 vp_tainted = True,
                 vp_data = VP_BOX FR_TYPE_OCTETS
                   [0xAA, 0xBB, 0xCC, 0xDD, 0xEE, 0xFF, 0x11, 0x22]\<rparr>])"
proof -
  define p16 :: "u8 list" where "p16 = long_extended_packet @ [0x22]"
  define p15 :: "u8 list" where "p15 = long_extended_packet @ []"
  define vp where "vp = \<lparr>vp_da = ex_extended_1, vp_tag = TAG_NONE, vp_type = VT_DATA,
                 vp_tainted = True,
                 vp_data = VP_BOX FR_TYPE_OCTETS [0xAA, 0xBB, 0xCC, 0xDD, 0xEE, 0xFF, 0x11]\<rparr>"
  have v16: "fr_radius_decode_pair_value (Suc (Suc (Suc 0))) example_env None [] ex_extended
           p16 (Suc (Suc 0)) 7 (13 + length [0x22 :: u8]) = Inr (13, [] @ [vp])"
    unfolding p16_def vp_def
    using long_extended_value [of ex_extended example_env ex_extended_1
        "VP_BOX FR_TYPE_OCTETS [0xAA, 0xBB, 0xCC, 0xDD, 0xEE, 0xFF, 0x11]" 0 None "[]" "[0x22]"]
    by (simp add: ex_defs del: fr_radius_decode_pair_value.simps)
  have v15: "fr_radius_decode_pair_value (Suc (Suc (Suc 0))) example_env None [] ex_extended
           p15 (Suc (Suc 0)) 7 (13 + length ([] :: u8 list)) = Inr (13, [] @ [vp])"
    unfolding p15_def vp_def
    using long_extended_value [of ex_extended example_env ex_extended_1
        "VP_BOX FR_TYPE_OCTETS [0xAA, 0xBB, 0xCC, 0xDD, 0xEE, 0xFF, 0x11]" 0 None "[]" "[]"]
    by (simp add: ex_defs del: fr_radius_decode_pair_value.simps)
  have m: "length p16 = 16" "p16 ! 0 = 0x1B" "p16 ! 1 = 9"
    "length p15 = 15" "p15 ! 0 = 0x1B" "p15 ! 1 = 9"
    by (simp_all add: p16_def p15_def long_extended_packet_def)
  have r16: "fr_radius_decode_pair (Suc (Suc (Suc 0))) example_env None [] p16 0 16
             = Inr (15, [vp])"
    using v16 m
    by (simp add: fr_radius_decode_pair_def example_env_simps ex_child_by_num_def ex_root_def
        ex_extended_def no_flags_def del: fr_radius_decode_pair_value.simps)
  have r15: "fr_radius_decode_pair (Suc (Suc (Suc 0))) example_env None [] p15 0 15
             = Inr (15, [vp])"
    using v15 m
    by (simp add: fr_radius_decode_pair_def example_env_simps ex_child_by_num_def ex_root_def
        ex_extended_def no_flags_def del: fr_radius_decode_pair_value.simps)
  show ?thesis
    using r16 r15 by (simp add: p16_def p15_def vp_def long_extended_packet_def
        del: fr_radius_decode_pair_value.simps)
qed

subsection \<open>Tags\<close>

lemma sint_small_u8: "unat (b :: u8) < 0x20 \<Longrightarrow> sint b = int (unat b)"
proof -
  assume a: "unat b < 0x20"
  have ub: "uint b < 32"
    using a by (simp only: uint_nat)
  have "sint b = signed_take_bit 7 (uint b)"
    by (simp only: sint_uint) simp
  also have "\<dots> = uint b"
  proof (rule signed_take_bit_int_eq_self)
    have "(- (2 ^ 7) :: int) \<le> 0" by simp
    then show "- (2 ^ 7) \<le> uint b" using uint_ge_0 [of b] by (rule order_trans)
    show "uint b < 2 ^ 7" using ub by simp
  qed
  also have "\<dots> = int (unat b)" by (simp only: uint_nat)
  finally show ?thesis .
qed

lemma decode_tag_string:
  assumes "has_tag (da_flags parent)" and "da_type parent = FR_TYPE_STRING"
    and "subtype (da_flags parent) \<noteq> FLAG_ENCRYPT_TUNNEL_PASSWORD"
    and "1 < attr_len" and "data + attr_len \<le> length mem"
  shows "decode_tag env parent mem data attr_len =
           (if unat (mem ! data) < 0x20 then
              if 256 \<le> attr_len then Inr None
              else Inr (Some (int (unat (mem ! data)),
                              take (attr_len - 1) (drop (data + 1) mem)
                                @ replicate (256 - (attr_len - 1)) (uninit env),
                              0, attr_len - 1, True))
            else Inr (Some (TAG_NONE, mem, data, attr_len, False)))"
  using assms by (simp add: decode_tag_def sint_small_u8)

lemma pair_value_body_tagged_string:
  assumes "has_tag (da_flags parent)" and "da_type parent = FR_TYPE_STRING"
    and "subtype (da_flags parent) \<noteq> FLAG_ENCRYPT_TUNNEL_PASSWORD"
    and "packet_ctx = None \<or> subtype (da_flags parent) = FLAG_ENCRYPT_NONE"
    and "1 < attr_len" and "attr_len \<le> packet_len" and "attr_len \<le> 128 * 1024"
    and "data + attr_len \<le> length mem"
    and "fst (attr_sizes env FR_TYPE_STRING) \<le> attr_len - 1"
    and "attr_len \<le> snd (attr_sizes env FR_TYPE_STRING)"
    and "\<forall>bytes. value_box_from_network env FR_TYPE_STRING parent bytes = Some (box bytes)"
  shows "pair_value_body (Suc k) env packet_ctx dpv cursor parent mem data attr_len packet_len =
           (if unat (mem ! data) < 0x20 then
              if 256 \<le> attr_len then Inr (-1, cursor)
              else Inr (int attr_len, cursor @ [(pair_afrom_da env parent)
                     \<lparr>vp_tag := int (unat (mem ! data)),
                        vp_data := box (take (attr_len - 1) (drop (data + 1) mem)),
                        vp_type := VT_DATA, vp_tainted := True\<rparr>])
            else Inr (int attr_len, cursor @ [(pair_afrom_da env parent)
                     \<lparr>vp_tag := TAG_NONE, vp_data := box (take attr_len (drop data mem)),
                        vp_type := VT_DATA, vp_tainted := True\<rparr>]))"
proof -
  have tv: "FR_TYPE_STRING \<in> set FR_TYPE_VALUES" "FR_TYPE_STRING \<in> set box_types"
    by (simp_all add: FR_TYPE_VALUES_def box_types_def)
  show ?thesis
  proof (cases "unat (mem ! data) < 0x20")
    case True
    note small = True
    show ?thesis
    proof (cases "256 \<le> attr_len")
      case True
      then show ?thesis
        using assms small
        by (simp add: pair_value_body_def decode_tag_string del: emit_value.simps)
    next
      case False
      let ?buf = "take (attr_len - 1) (drop (data + 1) mem)
                    @ replicate (256 - (attr_len - 1)) (uninit env)"
      have emit: "emit_value (Suc k) env cursor parent (int (unat (mem ! data))) ?buf 0
                    (attr_len - 1) (fst (attr_sizes env FR_TYPE_STRING)) attr_len
                  = Inr (int attr_len, cursor @ [(pair_afrom_da env parent)
                     \<lparr>vp_tag := int (unat (mem ! data)),
                        vp_data := box (take (attr_len - 1) (drop (data + 1) mem)),
                        vp_type := VT_DATA, vp_tainted := True\<rparr>])"
        using assms False tv
        by (intro emit_value_box) simp_all
      have mx: "\<not> snd (attr_sizes env FR_TYPE_STRING) < attr_len - 1"
        using assms(10) by arith
      show ?thesis
        using assms small False tv emit mx
        by (simp add: pair_value_body_def decode_tag_string decrypt_value_none Let_def
            del: emit_value.simps)
    qed
  next
    case False
    have emit: "emit_value (Suc k) env cursor parent TAG_NONE mem data attr_len
                  (fst (attr_sizes env FR_TYPE_STRING)) attr_len
                = Inr (int attr_len, cursor @ [(pair_afrom_da env parent)
                   \<lparr>vp_tag := TAG_NONE, vp_data := box (take attr_len (drop data mem)),
                      vp_type := VT_DATA, vp_tainted := True\<rparr>])"
      using assms tv
      by (intro emit_value_box) simp_all
    have mn: "\<not> attr_len < fst (attr_sizes env FR_TYPE_STRING)"
      using assms(9) by arith
    show ?thesis
      using assms False tv emit mn
      by (simp add: pair_value_body_def decode_tag_string decrypt_value_none Let_def
          del: emit_value.simps)
  qed
qed

text \<open>
  C6, amended. In \<^verbatim>\<open>fr_radius_decode_pair_value\<close>, for an attribute that has a tag, is a
  string, is not encrypted with Tunnel-Password and has more than one octet of data, the
  first octet is consumed as the tag of the pair if and only if it is below 0x20, that is in
  \<open>[0x00, 0x1F]\<close>: an octet 0x00 is consumed as well, and gives the tag 0. When the octet is
  consumed and the data is 256 octets or more, the function returns -1. Where the value is
  not decrypted and has a size the dictionary allows, the pair emitted has the tag and the
  value without the tag octet when the octet is consumed, and no tag and the whole value
  otherwise.
\<close>

theorem tag_extraction:
  assumes "has_tag (da_flags parent)" and "da_type parent = FR_TYPE_STRING"
    and "subtype (da_flags parent) \<noteq> FLAG_ENCRYPT_TUNNEL_PASSWORD"
    and "1 < attr_len" and "data + attr_len \<le> length mem"
  shows "decode_tag env parent mem data attr_len =
           (if unat (mem ! data) < 0x20 then
              if 256 \<le> attr_len then Inr None
              else Inr (Some (int (unat (mem ! data)),
                              take (attr_len - 1) (drop (data + 1) mem)
                                @ replicate (256 - (attr_len - 1)) (uninit env),
                              0, attr_len - 1, True))
            else Inr (Some (TAG_NONE, mem, data, attr_len, False))) \<and>
         ((packet_ctx = None \<or> subtype (da_flags parent) = FLAG_ENCRYPT_NONE) \<and>
          attr_len \<le> packet_len \<and> attr_len \<le> 128 * 1024 \<and>
          fst (attr_sizes env FR_TYPE_STRING) \<le> attr_len - 1 \<and>
          attr_len \<le> snd (attr_sizes env FR_TYPE_STRING) \<and>
          (\<forall>bytes. value_box_from_network env FR_TYPE_STRING parent bytes = Some (box bytes))
          \<longrightarrow>
          fr_radius_decode_pair_value (Suc (Suc n)) env packet_ctx cursor parent mem data
              attr_len packet_len =
            (if unat (mem ! data) < 0x20 then
               if 256 \<le> attr_len then Inr (-1, cursor)
               else Inr (int attr_len, cursor @ [(pair_afrom_da env parent)
                      \<lparr>vp_tag := int (unat (mem ! data)),
                         vp_data := box (take (attr_len - 1) (drop (data + 1) mem)),
                         vp_type := VT_DATA, vp_tainted := True\<rparr>])
             else Inr (int attr_len, cursor @ [(pair_afrom_da env parent)
                      \<lparr>vp_tag := TAG_NONE, vp_data := box (take attr_len (drop data mem)),
                         vp_type := VT_DATA, vp_tainted := True\<rparr>])))"
proof (intro conjI impI)
  show "decode_tag env parent mem data attr_len =
           (if unat (mem ! data) < 0x20 then
              if 256 \<le> attr_len then Inr None
              else Inr (Some (int (unat (mem ! data)),
                              take (attr_len - 1) (drop (data + 1) mem)
                                @ replicate (256 - (attr_len - 1)) (uninit env),
                              0, attr_len - 1, True))
            else Inr (Some (TAG_NONE, mem, data, attr_len, False)))"
    using assms by (rule decode_tag_string)
next
  assume a: "(packet_ctx = None \<or> subtype (da_flags parent) = FLAG_ENCRYPT_NONE) \<and>
          attr_len \<le> packet_len \<and> attr_len \<le> 128 * 1024 \<and>
          fst (attr_sizes env FR_TYPE_STRING) \<le> attr_len - 1 \<and>
          attr_len \<le> snd (attr_sizes env FR_TYPE_STRING) \<and>
          (\<forall>bytes. value_box_from_network env FR_TYPE_STRING parent bytes = Some (box bytes))"
  have "pair_value_body (Suc n) env packet_ctx
          (fr_radius_decode_pair_value (Suc n) env packet_ctx) cursor parent mem data
          attr_len packet_len =
            (if unat (mem ! data) < 0x20 then
               if 256 \<le> attr_len then Inr (-1, cursor)
               else Inr (int attr_len, cursor @ [(pair_afrom_da env parent)
                      \<lparr>vp_tag := int (unat (mem ! data)),
                         vp_data := box (take (attr_len - 1) (drop (data + 1) mem)),
                         vp_type := VT_DATA, vp_tainted := True\<rparr>])
             else Inr (int attr_len, cursor @ [(pair_afrom_da env parent)
                      \<lparr>vp_tag := TAG_NONE, vp_data := box (take attr_len (drop data mem)),
                         vp_type := VT_DATA, vp_tainted := True\<rparr>]))"
    using assms a by (intro pair_value_body_tagged_string) simp_all
  then show "fr_radius_decode_pair_value (Suc (Suc n)) env packet_ctx cursor parent mem data
              attr_len packet_len =
            (if unat (mem ! data) < 0x20 then
               if 256 \<le> attr_len then Inr (-1, cursor)
               else Inr (int attr_len, cursor @ [(pair_afrom_da env parent)
                      \<lparr>vp_tag := int (unat (mem ! data)),
                         vp_data := box (take (attr_len - 1) (drop (data + 1) mem)),
                         vp_type := VT_DATA, vp_tainted := True\<rparr>])
             else Inr (int attr_len, cursor @ [(pair_afrom_da env parent)
                      \<lparr>vp_tag := TAG_NONE, vp_data := box (take attr_len (drop data mem)),
                         vp_type := VT_DATA, vp_tainted := True\<rparr>]))"
    by (simp only: fr_radius_decode_pair_value.simps)
qed

theorem tag_extraction_witness:
  "fr_radius_decode_pair_value (Suc (Suc 0)) example_env None [] ex_tunnel_endpoint
       [0x01, 0x41, 0x42] 0 3 3
     = Inr (3, [\<lparr>vp_da = ex_tunnel_endpoint, vp_tag = 1, vp_type = VT_DATA,
                  vp_tainted = True, vp_data = VP_BOX FR_TYPE_STRING [0x41, 0x42]\<rparr>]) \<and>
   fr_radius_decode_pair_value (Suc (Suc 0)) example_env None [] ex_tunnel_endpoint
       [0x41, 0x42, 0x43] 0 3 3
     = Inr (3, [\<lparr>vp_da = ex_tunnel_endpoint, vp_tag = TAG_NONE, vp_type = VT_DATA,
                  vp_tainted = True, vp_data = VP_BOX FR_TYPE_STRING [0x41, 0x42, 0x43]\<rparr>])"
proof -
  have a: "fr_radius_decode_pair_value (Suc (Suc 0)) example_env None [] ex_tunnel_endpoint
       [0x01, 0x41, 0x42] 0 3 3
     = Inr (3, [\<lparr>vp_da = ex_tunnel_endpoint, vp_tag = 1, vp_type = VT_DATA,
                  vp_tainted = True, vp_data = VP_BOX FR_TYPE_STRING [0x41, 0x42]\<rparr>])"
    using tag_extraction [where parent = ex_tunnel_endpoint and attr_len = 3 and data = 0
        and mem = "[0x01, 0x41, 0x42]" and packet_ctx = None and packet_len = 3
        and env = example_env and box = "VP_BOX FR_TYPE_STRING" and n = 0 and cursor = "[]",
        THEN conjunct2]
    by (simp add: ex_tunnel_endpoint_def no_flags_def example_env_simps ex_attr_sizes_def
        ex_pair_def del: fr_radius_decode_pair_value.simps)
  have b: "fr_radius_decode_pair_value (Suc (Suc 0)) example_env None [] ex_tunnel_endpoint
       [0x41, 0x42, 0x43] 0 3 3
     = Inr (3, [\<lparr>vp_da = ex_tunnel_endpoint, vp_tag = TAG_NONE, vp_type = VT_DATA,
                  vp_tainted = True, vp_data = VP_BOX FR_TYPE_STRING [0x41, 0x42, 0x43]\<rparr>])"
    using tag_extraction [where parent = ex_tunnel_endpoint and attr_len = 3 and data = 0
        and mem = "[0x41, 0x42, 0x43]" and packet_ctx = None and packet_len = 3
        and env = example_env and box = "VP_BOX FR_TYPE_STRING" and n = 0 and cursor = "[]",
        THEN conjunct2]
    by (simp add: ex_tunnel_endpoint_def no_flags_def example_env_simps ex_attr_sizes_def
        ex_pair_def del: fr_radius_decode_pair_value.simps)
  show ?thesis using a b by (intro conjI)
qed

text \<open>
  C6 as stated fails for a first octet 0x00, which is not in \<open>[0x01, 0x1F]\<close>: in
  Tunnel-Client-Endpoint with the value \<open>00 41 42\<close> the octet is consumed all the same, the
  pair has the tag 0 and the value \<open>41 42\<close> of two octets.
\<close>

theorem tag_extraction_counterexample:
  "decode_tag example_env ex_tunnel_endpoint [66, 5, 0x00, 0x41, 0x42] 2 3
     = Inr (Some (0, [0x41, 0x42] @ replicate 254 0xcd, 0, 2, True)) \<and>
   fr_radius_decode_pair (Suc (Suc (Suc 0))) example_env None [] [66, 5, 0x00, 0x41, 0x42] 0 5
     = Inr (5, [\<lparr>vp_da = ex_tunnel_endpoint, vp_tag = 0, vp_type = VT_DATA,
                  vp_tainted = True, vp_data = VP_BOX FR_TYPE_STRING [0x41, 0x42]\<rparr>])"
proof -
  have t: "decode_tag example_env ex_tunnel_endpoint [66, 5, 0x00, 0x41, 0x42] 2 3
     = Inr (Some (0, [0x41, 0x42] @ replicate 254 0xcd, 0, 2, True))"
    using decode_tag_string [of ex_tunnel_endpoint 3 2 "[66, 5, 0x00, 0x41, 0x42]" example_env]
    by (simp add: ex_tunnel_endpoint_def no_flags_def example_env_simps)
  have v: "pair_value_body (Suc (Suc 0)) example_env None
             (fr_radius_decode_pair_value (Suc (Suc 0)) example_env None) []
             ex_tunnel_endpoint [66, 5, 0x00, 0x41, 0x42] (0 + 2) 3 3
           = Inr (3, [\<lparr>vp_da = ex_tunnel_endpoint, vp_tag = 0, vp_type = VT_DATA,
                  vp_tainted = True, vp_data = VP_BOX FR_TYPE_STRING [0x41, 0x42]\<rparr>])"
    using pair_value_body_tagged_string [of ex_tunnel_endpoint None 3 3 "0 + 2"
        "[66, 5, 0x00, 0x41, 0x42]" example_env
        "VP_BOX FR_TYPE_STRING" "Suc 0" "fr_radius_decode_pair_value (Suc (Suc 0)) example_env None"
        "[]"]
    by (simp add: ex_tunnel_endpoint_def no_flags_def example_env_simps ex_attr_sizes_def
        ex_pair_def del: fr_radius_decode_pair_value.simps)
  have p: "fr_radius_decode_pair (Suc (Suc (Suc 0))) example_env None []
             [66, 5, 0x00, 0x41, 0x42] 0 5
     = Inr (5, [\<lparr>vp_da = ex_tunnel_endpoint, vp_tag = 0, vp_type = VT_DATA,
                  vp_tainted = True, vp_data = VP_BOX FR_TYPE_STRING [0x41, 0x42]\<rparr>])"
    using v
    by (simp add: fr_radius_decode_pair_def example_env_simps ex_child_by_num_def ex_root_def
        ex_tunnel_endpoint_def no_flags_def fr_radius_decode_pair_value.simps(2) [of "Suc (Suc 0)"]
        del: fr_radius_decode_pair_value.simps)
  show ?thesis using t p by (intro conjI)
qed

subsection \<open>WiMAX fragments\<close>

lemma wimax_walk_last:
  assumes "a + 3 \<le> end'" and "end' \<le> length mem" and "3 < unat (mem ! (a + 1))"
    and "a + unat (mem ! (a + 1)) \<le> end'" and "(mem ! (a + 2)) AND 0x80 = 0"
  shows "wimax_walk mem data end' a w
         = Inr (Some (a + unat (mem ! (a + 1)), w + (unat (mem ! (a + 1)) - 3)))"
  using assms by (subst wimax_walk.simps) simp

lemma wimax_walk_more:
  assumes "a + 3 \<le> end'" and "end' \<le> length mem" and "data + 4 < length mem"
    and "(mem ! (a + 2)) AND 0x80 \<noteq> 0"
  shows "wimax_walk mem data end' a w =
           (if 3 < unat (mem ! (a + 1))
               \<and> wimax_continuation mem data end' (a + unat (mem ! (a + 1)))
            then wimax_walk mem data end' (a + unat (mem ! (a + 1)) + 6)
                   (w + (unat (mem ! (a + 1)) - 3))
            else Inr None)"
  using assms
  by (subst wimax_walk.simps) (auto simp: wimax_continuation_def Let_def)

lemma wimax_chain_walk:
  assumes "wimax_chain mem data end' a" and "end' \<le> length mem" and "data + 4 < length mem"
  shows "\<exists>e t. wimax_walk mem data end' a w = Inr (Some (e, t)) \<and> w < t"
  using assms
proof (induction arbitrary: w rule: wimax_chain.induct)
  case (last_fragment a)
  then show ?case using wimax_walk_last [of a end' mem data w] by simp
next
  case (more_fragments a)
  from more_fragments.IH [OF more_fragments.prems, of "w + (unat (mem ! (a + 1)) - 3)"]
  obtain e t where
    "wimax_walk mem data end' (a + unat (mem ! (a + 1)) + 6) (w + (unat (mem ! (a + 1)) - 3))
       = Inr (Some (e, t))" and "w + (unat (mem ! (a + 1)) - 3) < t"
    by blast
  then show ?case
    using more_fragments.hyps more_fragments.prems
      wimax_walk_more [of a end' mem data w]
    by simp
qed

lemma wimax_walk_chain:
  assumes "end' \<le> length mem" and "data + 4 < length mem" and "a < end'"
  shows "if wimax_chain mem data end' a
         then \<exists>e t. wimax_walk mem data end' a w = Inr (Some (e, t)) \<and> w < t
         else wimax_walk mem data end' a w = Inr None"
  using assms(3)
proof (induction "end' - a" arbitrary: a w rule: less_induct)
  case less
  show ?case
  proof (cases "wimax_chain mem data end' a")
    case True
    then show ?thesis using wimax_chain_walk [OF True assms(1,2)] by simp
  next
    case False
    have "wimax_walk mem data end' a w = Inr None"
    proof (cases "a + 3 \<le> end'")
      case short: False
      then have "end' - a < 3" by arith
      then show ?thesis using less.prems by (subst wimax_walk.simps) simp
    next
      case True
      note room = True
      show ?thesis
      proof (cases "(mem ! (a + 2)) AND 0x80 = 0")
        case True
        then have "\<not> (3 < unat (mem ! (a + 1)) \<and> a + unat (mem ! (a + 1)) \<le> end')"
          using False room wimax_chain.last_fragment [of a end' mem data] by blast
        then show ?thesis
          using room assms(1) True by (subst wimax_walk.simps) auto
      next
        case more: False
        let ?l = "unat (mem ! (a + 1))"
        show ?thesis
        proof (cases "3 < ?l \<and> wimax_continuation mem data end' (a + ?l)")
          case no: False
          show ?thesis
            by (simp only: wimax_walk_more [OF room assms(1,2) more, of w] no if_False)
        next
          case True
          then have nochain: "\<not> wimax_chain mem data end' (a + ?l + 6)"
            using False room more wimax_chain.more_fragments [of a end' mem data] by blast
          have lt: "a + ?l + 6 < end'"
            using True by (simp add: wimax_continuation_def)
          have "end' - (a + ?l + 6) < end' - a" using lt by simp
          from less.hyps [OF this lt, of "w + (?l - 3)"] nochain
          have "wimax_walk mem data end' (a + ?l + 6) (w + (?l - 3)) = Inr None"
            by simp
          then show ?thesis
            by (simp only: wimax_walk_more [OF room assms(1,2) more, of w] True if_True simp_thms)
        qed
      qed
    qed
    then show ?thesis using False by simp
  qed
qed

lemma decode_wimax_no_chain:
  assumes "data + packet_len \<le> length mem" and "data + 6 < length mem"
    and "(mem ! (data + 6)) AND 0x80 \<noteq> 0"
    and "\<not> wimax_chain mem data (data + packet_len) (data + 4)"
  shows "decode_wimax env dpv cursor parent mem data attr_len packet_len vendor
         = Inr (-1, cursor)"
proof -
  have walk: "wimax_walk mem data (data + packet_len) (data + 4) 0 = Inr None
              \<or> wimax_walk mem data (data + packet_len) (data + 4) 0
                  = Inr (Some (data + packet_len, 0))"
  proof (cases "data + 4 < data + packet_len")
    case True
    have "data + 4 < length mem" using assms(2) by simp
    from wimax_walk_chain [OF assms(1) this True, of 0] assms(4) show ?thesis by simp
  next
    case False
    then show ?thesis by (subst (2) wimax_walk.simps) simp
  qed
  then show ?thesis
    using assms(2,3)
    by (auto simp: decode_wimax_def split: option.splits)
qed

text \<open>
  C8. \<^verbatim>\<open>decode_wimax\<close> is entered with the continuation bit of the anchor set, on a packet
  that lies inside the buffer. A chain of fragments (\<open>wimax_chain\<close>) is one in which every
  fragment with the "more" bit set is followed by a continuation that starts a new outer
  Vendor-Specific attribute with the vendor id and the WiMAX attribute id of the anchor and
  an outer length of its WiMAX length plus 6 (\<open>wimax_continuation\<close>), up to a fragment with
  the bit clear.
  \<^item> The first loop of the function gets through, with some data to put together, exactly
    when the fragments from the anchor on are such a chain.
  \<^item> If they are not, the call returns -1 and the cursor is as it was.
  \<^item> So a call that returns a length has gone along a chain.
  \<^item> In a chain every fragment with the "more" bit set is followed by a continuation with
    these properties, and by a chain again.
  \<^item> A fragment with the "more" bit set and fewer than nine octets behind it in the packet,
    none for the last fragment of the packet, is not the start of a chain.
  \<^item> In particular, if the fragment behind the anchor is not such a continuation, the call
    returns -1 and the cursor is as it was.
\<close>

theorem wimax_fragment_checks:
  assumes "data + packet_len \<le> length mem" and "data + 6 < length mem"
    and "(mem ! (data + 6)) AND 0x80 \<noteq> 0"
  shows "(wimax_chain mem data (data + packet_len) (data + 4) \<longleftrightarrow>
            (\<exists>e t. wimax_walk mem data (data + packet_len) (data + 4) 0 = Inr (Some (e, t))
                   \<and> 0 < t)) \<and>
         (\<not> wimax_chain mem data (data + packet_len) (data + 4) \<longrightarrow>
            decode_wimax env dpv cursor parent mem data attr_len packet_len vendor
              = Inr (-1, cursor)) \<and>
         (\<forall>rc cursor'.
            decode_wimax env dpv cursor parent mem data attr_len packet_len vendor
              = Inr (rc, cursor') \<and> 0 \<le> rc \<longrightarrow>
            wimax_chain mem data (data + packet_len) (data + 4)) \<and>
         (\<forall>a. wimax_chain mem data (data + packet_len) a \<and> (mem ! (a + 2)) AND 0x80 \<noteq> 0 \<longrightarrow>
            wimax_continuation mem data (data + packet_len) (a + unat (mem ! (a + 1))) \<and>
            wimax_chain mem data (data + packet_len) (a + unat (mem ! (a + 1)) + 6)) \<and>
         (\<forall>a. (mem ! (a + 2)) AND 0x80 \<noteq> 0 \<and>
              data + packet_len < a + unat (mem ! (a + 1)) + 9 \<longrightarrow>
            \<not> wimax_chain mem data (data + packet_len) a) \<and>
         (\<not> wimax_continuation mem data (data + packet_len)
               (data + 4 + unat (mem ! (data + 5))) \<longrightarrow>
            decode_wimax env dpv cursor parent mem data attr_len packet_len vendor
              = Inr (-1, cursor))"
proof -
  have inv: "wimax_continuation mem data (data + packet_len) (a + unat (mem ! (a + 1))) \<and>
             wimax_chain mem data (data + packet_len) (a + unat (mem ! (a + 1)) + 6)"
    if "wimax_chain mem data (data + packet_len) a" and "(mem ! (a + 2)) AND 0x80 \<noteq> 0" for a
    using that by (cases rule: wimax_chain.cases) simp_all
  have none: "decode_wimax env dpv cursor parent mem data attr_len packet_len vendor
                = Inr (-1, cursor)"
    if "\<not> wimax_chain mem data (data + packet_len) (data + 4)"
    using decode_wimax_no_chain [OF assms that] .
  have eq6: "data + 4 + 2 = data + 6" and eq5: "data + 4 + 1 = data + 5"
    by simp_all
  have anchor: "(mem ! (data + 4 + 2)) AND 0x80 \<noteq> 0"
    unfolding eq6 by (rule assms(3))
  have walk: "wimax_chain mem data (data + packet_len) (data + 4) \<longleftrightarrow>
            (\<exists>e t. wimax_walk mem data (data + packet_len) (data + 4) 0 = Inr (Some (e, t))
                   \<and> 0 < t)"
  proof (cases "data + 4 < data + packet_len")
    case True
    have "data + 4 < length mem" using assms(2) by simp
    from wimax_walk_chain [OF assms(1) this True, of 0] show ?thesis
      by (auto split: if_splits)
  next
    case False
    then have "wimax_walk mem data (data + packet_len) (data + 4) 0
               = Inr (Some (data + packet_len, 0))"
      by (subst wimax_walk.simps) simp
    moreover have "\<not> wimax_chain mem data (data + packet_len) (data + 4)"
    proof
      assume "wimax_chain mem data (data + packet_len) (data + 4)"
      then show False using False by (cases rule: wimax_chain.cases) simp_all
    qed
    ultimately show ?thesis by simp
  qed
  show ?thesis
  proof (intro conjI allI impI)
    show "wimax_chain mem data (data + packet_len) (data + 4) \<longleftrightarrow>
            (\<exists>e t. wimax_walk mem data (data + packet_len) (data + 4) 0 = Inr (Some (e, t))
                   \<and> 0 < t)"
      by (rule walk)
  next
    assume "\<not> wimax_chain mem data (data + packet_len) (data + 4)"
    then show "decode_wimax env dpv cursor parent mem data attr_len packet_len vendor
                 = Inr (-1, cursor)"
      by (rule none)
  next
    fix rc cursor'
    assume "decode_wimax env dpv cursor parent mem data attr_len packet_len vendor
              = Inr (rc, cursor') \<and> 0 \<le> rc"
    then show "wimax_chain mem data (data + packet_len) (data + 4)"
      using none by fastforce
  next
    fix a
    assume "wimax_chain mem data (data + packet_len) a \<and> (mem ! (a + 2)) AND 0x80 \<noteq> 0"
    then show "wimax_continuation mem data (data + packet_len) (a + unat (mem ! (a + 1)))"
      and "wimax_chain mem data (data + packet_len) (a + unat (mem ! (a + 1)) + 6)"
      using inv by blast+
  next
    fix a
    assume a: "(mem ! (a + 2)) AND 0x80 \<noteq> 0 \<and>
               data + packet_len < a + unat (mem ! (a + 1)) + 9"
    show "\<not> wimax_chain mem data (data + packet_len) a"
    proof
      assume "wimax_chain mem data (data + packet_len) a"
      then have "wimax_continuation mem data (data + packet_len) (a + unat (mem ! (a + 1)))"
        using inv a by blast
      then show False using a by (simp add: wimax_continuation_def)
    qed
  next
    assume no: "\<not> wimax_continuation mem data (data + packet_len)
                   (data + 4 + unat (mem ! (data + 5)))"
    have "\<not> wimax_chain mem data (data + packet_len) (data + 4)"
    proof
      assume "wimax_chain mem data (data + packet_len) (data + 4)"
      from inv [OF this anchor] no show False
        unfolding eq5 by blast
    qed
    then show "decode_wimax env dpv cursor parent mem data attr_len packet_len vendor
                 = Inr (-1, cursor)"
      by (rule none)
  qed
qed

theorem wimax_fragment_checks_witness:
  "\<not> wimax_continuation
       [0, 0, 0x60, 0xB5, 1, 5, 0x80, 0xAA, 0xBB, 26, 11, 0, 0, 0x60, 0xB6, 1, 5, 0, 0xCC, 0xDD]
       0 20 9 \<and>
   (\<forall>env dpv cursor parent attr_len vendor.
      decode_wimax env dpv cursor parent
        [0, 0, 0x60, 0xB5, 1, 5, 0x80, 0xAA, 0xBB, 26, 11, 0, 0, 0x60, 0xB6, 1, 5, 0, 0xCC, 0xDD]
        0 attr_len 20 vendor = Inr (-1, cursor)) \<and>
   wimax_chain
       [0, 0, 0x60, 0xB5, 1, 5, 0x80, 0xAA, 0xBB, 26, 11, 0, 0, 0x60, 0xB5, 1, 5, 0, 0xCC, 0xDD]
       0 20 4 \<and>
   wimax_continuation
       [0, 0, 0x60, 0xB5, 1, 5, 0x80, 0xAA, 0xBB, 26, 11, 0, 0, 0x60, 0xB5, 1, 5, 0, 0xCC, 0xDD]
       0 20 9"
proof -
  define bad :: "u8 list" where
    "bad = [0, 0, 0x60, 0xB5, 1, 5, 0x80, 0xAA, 0xBB, 26, 11, 0, 0, 0x60, 0xB6, 1, 5, 0, 0xCC, 0xDD]"
  define good :: "u8 list" where
    "good = [0, 0, 0x60, 0xB5, 1, 5, 0x80, 0xAA, 0xBB, 26, 11, 0, 0, 0x60, 0xB5, 1, 5, 0, 0xCC, 0xDD]"
  have bf: "length bad = 20" "bad ! 5 = 5" "bad ! 6 = 0x80"
    "take 4 (drop 11 bad) = [0, 0, 0x60, 0xB6]" "take 4 (drop 0 bad) = [0, 0, 0x60, 0xB5]"
    by (simp_all add: bad_def)
  have gf: "length good = 20" "good ! 5 = 5" "good ! 6 = 0x80" "good ! 9 = 26" "good ! 10 = 11"
    "good ! 15 = 1" "good ! 4 = 1" "good ! 16 = 5" "good ! 17 = 0"
    "take 4 (drop 11 good) = [0, 0, 0x60, 0xB5]" "take 4 (drop 0 good) = [0, 0, 0x60, 0xB5]"
    by (simp_all add: good_def)
  have nb: "\<not> wimax_continuation bad 0 20 9"
    using bf by (simp add: wimax_continuation_def)
  have nb': "\<not> wimax_continuation bad 0 (0 + 20) (0 + 4 + unat (bad ! (0 + 5)))"
    using nb bf by simp
  have b: "decode_wimax env dpv cursor parent bad 0 attr_len 20 vendor = Inr (-1, cursor)"
    for env dpv cursor parent attr_len vendor
    using bf nb'
    by (intro wimax_fragment_checks [where mem = bad and data = 0 and packet_len = 20,
          THEN conjunct2, THEN conjunct2, THEN conjunct2, THEN conjunct2, THEN conjunct2,
          rule_format])
       simp_all
  have gc: "wimax_continuation good 0 20 9"
    using gf by (simp add: wimax_continuation_def)
  have last: "wimax_chain good 0 20 15"
    using gf by - (rule wimax_chain.last_fragment, simp_all)
  have g: "wimax_chain good 0 20 4"
    using gf last gc by - (rule wimax_chain.more_fragments, simp_all)
  show ?thesis
    using nb b g gc unfolding bad_def good_def by (intro conjI allI)
qed

end
